(* ===== verification/Prelude.thy ===== *)
theory Prelude
  imports Main "HOL-Library.Word"
begin

text \<open>
  Shared vocabulary of the development: the machine integers of the Rust source, its
  strings, the library error type of \<^verbatim>\<open>error.rs\<close>, results that may also panic, a
  state monad with such results, byte buffers with checked slicing, and the big-endian
  accessors every on-disk structure is built from.

  Integers: \<open>u8\<close>, \<open>u16\<close>, \<open>u32\<close> and \<open>i8\<close> are words, so \<open>+\<close>, \<open>-\<close> and \<open>*\<close> wrap, which is
  what the release build of the program does.  \<open>usize\<close> is \<open>nat\<close>: the source only uses it
  for buffer lengths and for indices it compares with them.
  A Rust \<open>String\<close> or \<open>&str\<close> is the list of its code points; \<open>as_bytes\<close> encodes it in UTF-8.
\<close>

unbundle bit_operations_syntax

named_theorems bytes_simps \<open>reading back what was stored in a byte buffer\<close>
named_theorems defs \<open>definitions of operations, for symbolic evaluation\<close>
named_theorems rets \<open>operations that return a value and keep a property of their state\<close>
named_theorems keeps \<open>operations that keep a property of their state\<close>

type_synonym u8 = "8 word"
type_synonym u16 = "16 word"
type_synonym u32 = "32 word"
type_synonym u64 = "64 word"
type_synonym i8 = "8 word"
type_synonym bytes = "u8 list"
type_synonym rstr = "nat list"

section \<open>Strings\<close>

text \<open>A literal of the source, as code points.\<close>

definition rs :: "string \<Rightarrow> rstr" where
  "rs s = map of_char s"

text \<open>UTF-8 encoding of one code point, the standard library's \<open>char::encode_utf8\<close>.\<close>

definition utf8_encode :: "nat \<Rightarrow> bytes" where
  "utf8_encode c =
     (if c < 0x80 then [of_nat c]
      else if c < 0x800 then [of_nat (0xC0 + c div 0x40), of_nat (0x80 + c mod 0x40)]
      else if c < 0x10000 then
        [of_nat (0xE0 + c div 0x1000), of_nat (0x80 + (c div 0x40) mod 0x40),
         of_nat (0x80 + c mod 0x40)]
      else
        [of_nat (0xF0 + c div 0x40000), of_nat (0x80 + (c div 0x1000) mod 0x40),
         of_nat (0x80 + (c div 0x40) mod 0x40), of_nat (0x80 + c mod 0x40)])"

definition as_bytes :: "rstr \<Rightarrow> bytes" where
  "as_bytes s = concat (map utf8_encode s)"

definition ascii_str :: "rstr \<Rightarrow> bool" where
  "ascii_str s \<longleftrightarrow> list_all (\<lambda>c. c < 0x80) s"

text \<open>Decimal rendering of an unsigned integer, as \<open>format!("{n}")\<close> gives it.\<close>

fun show_nat :: "nat \<Rightarrow> rstr" where
  "show_nat n = (if n < 10 then [48 + n] else show_nat (n div 10) @ [48 + n mod 10])"

declare show_nat.simps [simp del]

section \<open>Errors and results\<close>

text \<open>The variants of \<^verbatim>\<open>error.rs\<close>'s \<open>Error\<close>, in its order.\<close>

datatype error =
    Io
  | TooShort string
  | BadMagic string u32
  | BadBlockId string u16 u16
  | BlockOutOfRange nat
  | AnodeNotFound u32
  | NotFound rstr
  | AlreadyExists rstr
  | DiskFull rstr
  | Corrupt rstr
  | NotADirectory
  | NotEmpty
  | InvalidPartition rstr
  | ReadOnly

text \<open>
  A call returns a value, returns an error, or panics (an index or bslice out of range, a
  division by zero): \<open>Panic\<close> is the value of a call that does not return.
\<close>

datatype 'a outcome = Ok 'a | Err error | Panic

fun bindO :: "'a outcome \<Rightarrow> ('a \<Rightarrow> 'b outcome) \<Rightarrow> 'b outcome" where
  "bindO (Ok x) f = f x"
| "bindO (Err e) f = Err e"
| "bindO Panic f = Panic"

fun chainO :: "('a \<Rightarrow> 'a outcome) list \<Rightarrow> 'a \<Rightarrow> 'a outcome" where
  "chainO [] x = Ok x"
| "chainO (f # fs) x = bindO (f x) (chainO fs)"

fun the_ok :: "'a outcome \<Rightarrow> 'a" where
  "the_ok (Ok x) = x"
| "the_ok _ = undefined"

fun mapO :: "('a \<Rightarrow> 'b outcome) \<Rightarrow> 'a list \<Rightarrow> 'b list outcome" where
  "mapO f [] = Ok []"
| "mapO f (x # xs) = bindO (f x) (\<lambda>y. bindO (mapO f xs) (\<lambda>ys. Ok (y # ys)))"

fun is_ok :: "'a outcome \<Rightarrow> bool" where
  "is_ok (Ok x) = True"
| "is_ok _ = False"

section \<open>Computations over a state\<close>

text \<open>
  A method with \<open>&mut self\<close> is a function from the state to the result and the state it
  leaves; an error keeps whatever the method had changed before it, as in the source.
\<close>

type_synonym ('s, 'a) rm = "'s \<Rightarrow> 'a outcome \<times> 's"

definition retM :: "'a \<Rightarrow> ('s, 'a) rm" where
  "retM x s = (Ok x, s)"

definition failM :: "error \<Rightarrow> ('s, 'a) rm" where
  "failM e s = (Err e, s)"

definition liftO :: "'a outcome \<Rightarrow> ('s, 'a) rm" where
  "liftO r s = (r, s)"

definition getM :: "('s \<Rightarrow> 'a) \<Rightarrow> ('s, 'a) rm" where
  "getM f s = (Ok (f s), s)"

definition modifyM :: "('s \<Rightarrow> 's) \<Rightarrow> ('s, unit) rm" where
  "modifyM f s = (Ok (), f s)"

definition bindM :: "('s, 'a) rm \<Rightarrow> ('a \<Rightarrow> ('s, 'b) rm) \<Rightarrow> ('s, 'b) rm" where
  "bindM m f s =
     (case m s of (r, t) \<Rightarrow> (case r of Ok x \<Rightarrow> f x t | Err e \<Rightarrow> (Err e, t) | Panic \<Rightarrow> (Panic, t)))"

text \<open>\<open>let _ = m\<close> and \<open>if let Ok(x) = m\<close>: an error is turned into \<open>None\<close>.\<close>

definition tryM :: "('s, 'a) rm \<Rightarrow> ('s, 'a option) rm" where
  "tryM m s =
     (case m s of (r, t) \<Rightarrow>
        (case r of Ok x \<Rightarrow> (Ok (Some x), t) | Err e \<Rightarrow> (Ok None, t) | Panic \<Rightarrow> (Panic, t)))"

text \<open>A method of a field: run it on the field and store the field back.\<close>

definition zoomM :: "('s \<Rightarrow> 't) \<Rightarrow> ('t \<Rightarrow> 's \<Rightarrow> 's) \<Rightarrow> ('t, 'a) rm \<Rightarrow> ('s, 'a) rm" where
  "zoomM get put m s = (case m (get s) of (r, t) \<Rightarrow> (r, put t s))"

text \<open>\<open>for x in xs\<close> without and with an early \<open>return\<close> (\<open>Some\<close> ends the loop).\<close>

fun forM :: "'a list \<Rightarrow> ('a \<Rightarrow> ('s, unit) rm) \<Rightarrow> ('s, unit) rm" where
  "forM [] f = retM ()"
| "forM (x # xs) f = bindM (f x) (\<lambda>_. forM xs f)"

fun searchM :: "'a list \<Rightarrow> ('a \<Rightarrow> ('s, 'b option) rm) \<Rightarrow> ('s, 'b option) rm" where
  "searchM [] f = retM None"
| "searchM (x # xs) f =
     bindM (f x) (\<lambda>r. case r of Some y \<Rightarrow> retM (Some y) | None \<Rightarrow> searchM xs f)"

fun foldM :: "('b \<Rightarrow> 'a \<Rightarrow> ('s, 'b) rm) \<Rightarrow> 'b \<Rightarrow> 'a list \<Rightarrow> ('s, 'b) rm" where
  "foldM f b [] = retM b"
| "foldM f b (x # xs) = bindM (f b x) (\<lambda>b'. foldM f b' xs)"

text \<open>A property of the state that every run of a computation keeps, whatever it returns.\<close>

definition preserves :: "('s \<Rightarrow> bool) \<Rightarrow> ('s, 'a) rm \<Rightarrow> bool" where
  "preserves P m \<longleftrightarrow> (\<forall>s. P s \<longrightarrow> P (snd (m s)))"

text \<open>
  A computation whose result from any state that satisfies \<open>P\<close> is \<open>r\<close>, and that keeps
  \<open>P\<close>: the state it carries (a cache) cannot be observed.
\<close>

definition transparent :: "('s \<Rightarrow> bool) \<Rightarrow> ('s, 'a) rm \<Rightarrow> 'a outcome \<Rightarrow> bool" where
  "transparent P m r \<longleftrightarrow> (\<forall>s. P s \<longrightarrow> fst (m s) = r \<and> P (snd (m s)))"

text \<open>A computation that from any state with \<open>P\<close> returns a value, without error or panic, and keeps \<open>P\<close>.\<close>

definition returns :: "('s \<Rightarrow> bool) \<Rightarrow> ('s, 'a) rm \<Rightarrow> bool" where
  "returns P m \<longleftrightarrow> (\<forall>s. P s \<longrightarrow> is_ok (fst (m s)) \<and> P (snd (m s)))"

section \<open>Byte buffers\<close>

text \<open>
  \<open>splice xs off ys\<close> overwrites \<open>length ys\<close> elements of \<open>xs\<close> from \<open>off\<close> on.  It never changes the
  length; \<open>splice_eq\<close> gives its usual form where the range fits.
\<close>

definition splice :: "'a list \<Rightarrow> nat \<Rightarrow> 'a list \<Rightarrow> 'a list" where
  "splice xs off ys =
     map (\<lambda>i. if off \<le> i \<and> i < off + length ys then ys ! (i - off) else xs ! i) [0..<length xs]"

definition bslice :: "'a list \<Rightarrow> nat \<Rightarrow> nat \<Rightarrow> 'a list" where
  "bslice xs off n = take n (drop off xs)"

text \<open>\<open>&data[a..b]\<close>, \<open>data[i]\<close>, \<open>data[i] = v\<close> and \<open>data[off..off+n].copy_from_slice(src)\<close>.\<close>

definition sliceO :: "'a list \<Rightarrow> nat \<Rightarrow> nat \<Rightarrow> 'a list outcome" where
  "sliceO xs a b = (if a \<le> b \<and> b \<le> length xs then Ok (bslice xs a (b - a)) else Panic)"

definition idx :: "'a list \<Rightarrow> nat \<Rightarrow> 'a outcome" where
  "idx xs i = (if i < length xs then Ok (xs ! i) else Panic)"

definition set_idx :: "'a list \<Rightarrow> nat \<Rightarrow> 'a \<Rightarrow> 'a list outcome" where
  "set_idx xs i v = (if i < length xs then Ok (xs[i := v]) else Panic)"

definition copy_at :: "'a list \<Rightarrow> nat \<Rightarrow> 'a list \<Rightarrow> 'a list outcome" where
  "copy_at xs off ys = (if off + length ys \<le> length xs then Ok (splice xs off ys) else Panic)"

text \<open>\<open>for b in &mut data[a..a+n] { *b = 0 }\<close>\<close>

definition zero_at :: "bytes \<Rightarrow> nat \<Rightarrow> nat \<Rightarrow> bytes outcome" where
  "zero_at xs off n = copy_at xs off (replicate n 0)"

section \<open>Big-endian integers\<close>

definition u16_from_be :: "u8 \<Rightarrow> u8 \<Rightarrow> u16" where
  "u16_from_be a b = push_bit 8 (ucast a) OR ucast b"

definition u32_from_be :: "u8 \<Rightarrow> u8 \<Rightarrow> u8 \<Rightarrow> u8 \<Rightarrow> u32" where
  "u32_from_be a b c d =
     push_bit 24 (ucast a) OR push_bit 16 (ucast b) OR push_bit 8 (ucast c) OR ucast d"

definition u16_to_be :: "u16 \<Rightarrow> bytes" where
  "u16_to_be w = [ucast (drop_bit 8 w), ucast w]"

definition u32_to_be :: "u32 \<Rightarrow> bytes" where
  "u32_to_be w = [ucast (drop_bit 24 w), ucast (drop_bit 16 w), ucast (drop_bit 8 w), ucast w]"

text \<open>\<open>u32::from_be_bytes(data[off..off+4])\<close>: panics when the bslice is out of range.\<close>

definition be16 :: "bytes \<Rightarrow> nat \<Rightarrow> u16 outcome" where
  "be16 xs off =
     (if off + 2 \<le> length xs then Ok (u16_from_be (xs ! off) (xs ! (off + 1))) else Panic)"

definition be32 :: "bytes \<Rightarrow> nat \<Rightarrow> u32 outcome" where
  "be32 xs off =
     (if off + 4 \<le> length xs
      then Ok (u32_from_be (xs ! off) (xs ! (off + 1)) (xs ! (off + 2)) (xs ! (off + 3)))
      else Panic)"

text \<open>\<^verbatim>\<open>ondisk/mod.rs\<close>'s \<open>put_u32\<close> and \<open>put_u16\<close>.\<close>

definition put_u32 :: "bytes \<Rightarrow> nat \<Rightarrow> u32 \<Rightarrow> bytes outcome" where
  "put_u32 buf off val = copy_at buf off (u32_to_be val)"

definition put_u16 :: "bytes \<Rightarrow> nat \<Rightarrow> u16 \<Rightarrow> bytes outcome" where
  "put_u16 buf off val = copy_at buf off (u16_to_be val)"

section \<open>Checked arithmetic\<close>

text \<open>Integer division and remainder panic on a zero divisor.\<close>

definition divO :: "u32 \<Rightarrow> u32 \<Rightarrow> u32 outcome" where
  "divO a b = (if b = 0 then Panic else Ok (a div b))"

definition modO :: "u32 \<Rightarrow> u32 \<Rightarrow> u32 outcome" where
  "modO a b = (if b = 0 then Panic else Ok (a mod b))"

definition sat_sub32 :: "u32 \<Rightarrow> u32 \<Rightarrow> u32" where
  "sat_sub32 a b = (if a < b then 0 else a - b)"

definition div_ceil :: "nat \<Rightarrow> nat \<Rightarrow> nat" where
  "div_ceil a b = (if a mod b = 0 then a div b else a div b + 1)"

section \<open>Lemmas on results and computations\<close>

lemma bindO_cong [fundef_cong]:
  "m = m' \<Longrightarrow> (\<And>x. m' = Ok x \<Longrightarrow> f x = g x) \<Longrightarrow> bindO m f = bindO m' g"
  by (cases m') auto

lemma bindM_cong [fundef_cong]:
  assumes "s = s'" "m s' = m' s'" "\<And>x t. m' s' = (Ok x, t) \<Longrightarrow> f x t = g x t"
  shows "bindM m f s = bindM m' g s'"
  using assms by (auto simp: bindM_def split: prod.splits outcome.splits)

lemma bindO_eq_Ok: "bindO m f = Ok y \<longleftrightarrow> (\<exists>x. m = Ok x \<and> f x = Ok y)"
  by (cases m) auto

lemma bindO_eq_Panic: "bindO m f = Panic \<longleftrightarrow> m = Panic \<or> (\<exists>x. m = Ok x \<and> f x = Panic)"
  by (cases m) auto

lemma bindO_assoc: "bindO (bindO m f) g = bindO m (\<lambda>x. bindO (f x) g)"
  by (cases m) auto

lemma bindO_ret: "bindO m Ok = m"
  by (cases m) auto

lemma is_ok_iff: "is_ok m \<longleftrightarrow> (\<exists>x. m = Ok x)"
  by (cases m) auto

lemma is_ok_bind: "is_ok m \<Longrightarrow> (\<And>x. m = Ok x \<Longrightarrow> is_ok (f x)) \<Longrightarrow> is_ok (bindO m f)"
  by (cases m) auto

lemma mapO_Ok: "(\<And>x. x \<in> set xs \<Longrightarrow> f x = Ok (g x)) \<Longrightarrow> mapO f xs = Ok (map g xs)"
  by (induction xs) auto

lemma mapO_not_Panic: "(\<And>x. x \<in> set xs \<Longrightarrow> f x \<noteq> Panic) \<Longrightarrow> mapO f xs \<noteq> Panic"
  by (induction xs) (auto simp: bindO_eq_Panic)

lemma length_mapO: "mapO f xs = Ok ys \<Longrightarrow> length ys = length xs"
  by (induction xs arbitrary: ys) (auto simp: bindO_eq_Ok)

lemma nth_mapO: "mapO f xs = Ok ys \<Longrightarrow> i < length xs \<Longrightarrow> f (xs ! i) = Ok (ys ! i)"
proof (induction xs arbitrary: ys i)
  case (Cons x xs)
  then show ?case by (cases i) (auto simp: bindO_eq_Ok)
qed simp

lemma bindM_ret [simp]: "bindM (retM x) f = f x"
  by (rule ext) (simp add: bindM_def retM_def)

lemma bindM_fail [simp]: "bindM (failM e) f = failM e"
  by (rule ext) (simp add: bindM_def failM_def)

lemma bindM_assoc: "bindM (bindM m f) g = bindM m (\<lambda>x. bindM (f x) g)"
  by (rule ext) (auto simp: bindM_def split: prod.splits outcome.splits)

lemma bindM_lift_Ok [simp]: "bindM (liftO (Ok x)) f = f x"
  by (rule ext) (simp add: bindM_def liftO_def)

lemma bindM_get [simp]: "bindM (getM f) g s = g (f s) s"
  by (simp add: bindM_def getM_def)

lemma bindM_modify [simp]: "bindM (modifyM f) g s = g () (f s)"
  by (simp add: bindM_def modifyM_def)

lemma retM_apply [simp]: "retM x s = (Ok x, s)"
  and failM_apply [simp]: "failM e s = (Err e, s)"
  and liftO_apply [simp]: "liftO r s = (r, s)"
  and getM_apply [simp]: "getM f s = (Ok (f s), s)"
  and modifyM_apply [simp]: "modifyM g s = (Ok (), g s)"
  by (simp_all add: retM_def failM_def liftO_def getM_def modifyM_def)

lemma bindM_eq_Ok:
  "bindM m f s = (Ok y, t) \<longleftrightarrow> (\<exists>x u. m s = (Ok x, u) \<and> f x u = (Ok y, t))"
  by (auto simp: bindM_def split: prod.splits outcome.splits)

lemma bindM_Ok: "m s = (Ok x, t) \<Longrightarrow> bindM m f s = f x t"
  by (simp add: bindM_def)

lemma bindM_Err: "m s = (Err e, t) \<Longrightarrow> bindM m f s = (Err e, t)"
  by (simp add: bindM_def)

lemma preservesI: "(\<And>s. P s \<Longrightarrow> P (snd (m s))) \<Longrightarrow> preserves P m"
  by (simp add: preserves_def)

lemma preservesD: "preserves P m \<Longrightarrow> P s \<Longrightarrow> P (snd (m s))"
  by (simp add: preserves_def)

lemma preserves_ret [keeps]: "preserves P (retM x)"
  and preserves_fail [keeps]: "preserves P (failM e)"
  and preserves_lift [keeps]: "preserves P (liftO r)"
  and preserves_get [keeps]: "preserves P (getM f)"
  by (simp_all add: preserves_def)

lemma preserves_bind [keeps]:
  "preserves P m \<Longrightarrow> (\<And>x. preserves P (f x)) \<Longrightarrow> preserves P (bindM m f)"
  by (fastforce simp: preserves_def bindM_def split: prod.splits outcome.splits)

lemma preserves_try [keeps]: "preserves P m \<Longrightarrow> preserves P (tryM m)"
  by (fastforce simp: preserves_def tryM_def split: prod.splits outcome.splits)

lemma preserves_for [keeps]: "(\<And>x. preserves P (f x)) \<Longrightarrow> preserves P (forM xs f)"
  by (induction xs) (auto intro: keeps)

lemma preserves_search [keeps]: "(\<And>x. preserves P (f x)) \<Longrightarrow> preserves P (searchM xs f)"
  by (induction xs) (auto intro!: keeps split: option.splits)

lemma preserves_fold [keeps]: "(\<And>b x. preserves P (f b x)) \<Longrightarrow> preserves P (foldM f b xs)"
  by (induction xs arbitrary: b) (auto intro: keeps)

lemma preserves_if [keeps]:
  "(b \<Longrightarrow> preserves P m) \<Longrightarrow> (\<not> b \<Longrightarrow> preserves P n) \<Longrightarrow> preserves P (if b then m else n)"
  and preserves_option [keeps]:
  "preserves P m \<Longrightarrow> (\<And>x. preserves P (f x)) \<Longrightarrow>
   preserves P (case oo of None \<Rightarrow> m | Some x \<Rightarrow> f x)"
  and preserves_prod [keeps]:
  "(\<And>x y. preserves P (h x y)) \<Longrightarrow> preserves P (case pp of (x, y) \<Rightarrow> h x y)"
  and preserves_pure [keeps]: "preserves P (\<lambda>s. (k s, s))"
  by (auto simp: preserves_def split: option.splits prod.splits)

lemma preserves_zoom:
  "preserves Q m \<Longrightarrow> (\<And>s. P s \<Longrightarrow> Q (get s)) \<Longrightarrow> (\<And>s t. P s \<Longrightarrow> Q t \<Longrightarrow> P (put t s)) \<Longrightarrow>
   preserves P (zoomM get put m)"
  by (fastforce simp: preserves_def zoomM_def split: prod.splits)

lemma unat_advance: "x \<noteq> 0 \<Longrightarrow> (pos :: nat) < lim \<Longrightarrow> lim - (pos + unat (x :: 'a::len word)) < lim - pos"
  using unat_gt_0 [of x] by linarith

lemma transparentD1: "transparent P m r \<Longrightarrow> P s \<Longrightarrow> fst (m s) = r"
  and transparentD2: "transparent P m r \<Longrightarrow> P s \<Longrightarrow> P (snd (m s))"
  by (simp_all add: transparent_def)

lemma transparent_ret: "transparent P (retM x) (Ok x)"
  and transparent_lift: "transparent P (liftO r) r"
  and transparent_fail: "transparent P (failM e) (Err e)"
  by (simp_all add: transparent_def)

lemma transparent_bind:
  assumes "transparent P m r" and "\<And>x. r = Ok x \<Longrightarrow> transparent P (f x) (g x)"
  shows "transparent P (bindM m f) (bindO r g)"
proof -
  have "fst (bindM m f s) = bindO r g \<and> P (snd (bindM m f s))" if "P s" for s
  proof -
    obtain t where "m s = (r, t)" "P t"
      using assms(1) \<open>P s\<close> by (cases "m s") (force simp: transparent_def)
    then show ?thesis
      using assms(2) by (cases r) (auto simp: transparent_def bindM_def)
  qed
  then show ?thesis by (simp add: transparent_def)
qed

lemma returns_ret [rets]: "returns P (retM x)"
  and returns_get [rets]: "returns P (getM f)"
  and returns_modify: "(\<And>s. P s \<Longrightarrow> P (f s)) \<Longrightarrow> returns P (modifyM f)"
  by (simp_all add: returns_def)

lemma returns_bind [rets]: "returns P m \<Longrightarrow> (\<And>x. returns P (f x)) \<Longrightarrow> returns P (bindM m f)"
  by (fastforce simp: returns_def bindM_def split: prod.splits outcome.splits)

lemma returns_bind_value:
  assumes "transparent P m (Ok x)" "returns P (f x)"
  shows "returns P (bindM m f)"
  unfolding returns_def
proof (intro allI impI)
  fix s assume "P s"
  with assms(1) have "fst (m s) = Ok x" "P (snd (m s))" by (simp_all add: transparent_def)
  with assms(2) show "is_ok (fst (bindM m f s)) \<and> P (snd (bindM m f s))"
    by (cases "m s") (auto simp: bindM_def returns_def)
qed

lemma returns_for: "(\<And>x. x \<in> set xs \<Longrightarrow> returns P (f x)) \<Longrightarrow> returns P (forM xs f)"
  by (induction xs) (auto intro: rets)

lemma returns_if [rets]:
  "(b \<Longrightarrow> returns P m) \<Longrightarrow> (\<not> b \<Longrightarrow> returns P n) \<Longrightarrow> returns P (if b then m else n)"
  and returns_option [rets]:
  "(oo = None \<Longrightarrow> returns P m) \<Longrightarrow> (\<And>x. oo = Some x \<Longrightarrow> returns P (g x)) \<Longrightarrow>
   returns P (case oo of None \<Rightarrow> m | Some x \<Rightarrow> g x)"
  by (auto split: option.splits)

lemma returnsD: "returns P m \<Longrightarrow> P s \<Longrightarrow> is_ok (fst (m s)) \<and> P (snd (m s))"
  by (simp add: returns_def)

lemma transparent_try:
  "transparent P m r \<Longrightarrow> r \<noteq> Panic \<Longrightarrow>
   transparent P (tryM m) (Ok (case r of Ok x \<Rightarrow> Some x | _ \<Rightarrow> None))"
  by (cases r) (fastforce simp: transparent_def tryM_def split: prod.splits outcome.splits)+

lemma transparent_zoom:
  "transparent Q m r \<Longrightarrow> (\<And>s. P s \<Longrightarrow> Q (get s)) \<Longrightarrow> (\<And>s t. P s \<Longrightarrow> Q t \<Longrightarrow> P (put t s)) \<Longrightarrow>
   transparent P (zoomM get put m) r"
  by (fastforce simp: transparent_def zoomM_def split: prod.splits)

section \<open>Lemmas on words\<close>

lemma inj_unat: "inj_on unat (S :: 'a::len word set)"
  by (auto intro: inj_onI unsigned_word_eqI)

lemma unat_of_nat_lt: "n < 2 ^ LENGTH('a) \<Longrightarrow> unat (of_nat n :: 'a::len word) = n"
  by (simp add: unat_of_nat)

lemma unat_add_lt:
  "unat a + unat b < 2 ^ LENGTH('a) \<Longrightarrow> unat (a + b :: 'a::len word) = unat a + unat b"
  by (simp add: unat_word_ariths)

lemma unat_mult_lt:
  "unat a * unat b < 2 ^ LENGTH('a) \<Longrightarrow> unat (a * b :: 'a::len word) = unat a * unat b"
  by (simp add: unat_word_ariths)

lemma unat_sub_le: "b \<le> a \<Longrightarrow> unat (a - b :: 'a::len word) = unat a - unat b"
  by (rule unat_sub)

lemma unat_lt_2p [simp]: "unat (w :: 'a::len word) < 2 ^ LENGTH('a)"
  by (rule unsigned_less)

lemma unat_ucast_up_simp:
  "LENGTH('a) \<le> LENGTH('b) \<Longrightarrow> unat (ucast (w :: 'a::len word) :: 'b::len word) = unat w"
  by (simp add: unsigned_ucast_eq take_bit_nat_eq_self_iff)
     (meson less_le_trans one_le_numeral power_increasing unat_lt_2p)

section \<open>Lemmas on buffers\<close>

lemma length_splice [simp]: "length (splice xs off ys) = length xs"
  by (simp add: splice_def)

lemma length_bslice [simp]: "off + n \<le> length xs \<Longrightarrow> length (bslice xs off n) = n"
  by (simp add: bslice_def)

lemma nth_bslice: "off + n \<le> length xs \<Longrightarrow> i < n \<Longrightarrow> bslice xs off n ! i = xs ! (off + i)"
  by (simp add: bslice_def)

lemma nth_splice:
  "i < length xs \<Longrightarrow>
   splice xs off ys ! i = (if off \<le> i \<and> i < off + length ys then ys ! (i - off) else xs ! i)"
  by (simp add: splice_def)

lemma splice_eq:
  "off + length ys \<le> length xs \<Longrightarrow> splice xs off ys = take off xs @ ys @ drop (off + length ys) xs"
  by (intro nth_equalityI) (auto simp: nth_splice nth_append min_def)

lemma nth_splice_same [bytes_simps]:
  "off < length xs \<Longrightarrow> splice xs off (y # ys) ! off = y"
  by (simp add: nth_splice)

lemma nth_splice_disjoint [bytes_simps]:
  "a < length xs \<Longrightarrow> a < off \<or> off + length ys \<le> a \<Longrightarrow> splice xs off ys ! a = xs ! a"
  by (auto simp: nth_splice)

lemma bslice_splice_same [bytes_simps]:
  "off + length ys \<le> length xs \<Longrightarrow> n = length ys \<Longrightarrow> bslice (splice xs off ys) off n = ys"
  by (simp add: bslice_def splice_eq)

lemma bslice_splice_disjoint [bytes_simps]:
  assumes "a + n \<le> length xs" and "a + n \<le> off \<or> off + length ys \<le> a"
  shows "bslice (splice xs off ys) a n = bslice xs a n"
  using assms by (intro nth_equalityI) (auto simp: nth_bslice nth_splice)

lemma splice_splice_same [simp]:
  "length zs = length ys \<Longrightarrow> splice (splice xs off ys) off zs = splice xs off zs"
  by (intro nth_equalityI) (auto simp: nth_splice)

lemma splice_bslice_id: "off + n \<le> length xs \<Longrightarrow> splice xs off (bslice xs off n) = xs"
  by (intro nth_equalityI) (auto simp: nth_splice nth_bslice)

lemma splice_commute:
  assumes "a + length ys \<le> b \<or> b + length zs \<le> a"
  shows "splice (splice xs a ys) b zs = splice (splice xs b zs) a ys"
  using assms by (intro nth_equalityI) (auto simp: nth_splice)

lemma set_idx_Ok: "i < length xs \<Longrightarrow> set_idx xs i v = Ok (splice xs i [v])"
  by (auto simp: set_idx_def nth_splice nth_list_update intro!: nth_equalityI)

lemma copy_at_Ok: "off + length ys \<le> length xs \<Longrightarrow> copy_at xs off ys = Ok (splice xs off ys)"
  by (simp add: copy_at_def)

lemma zero_at_Ok: "off + n \<le> length xs \<Longrightarrow> zero_at xs off n = Ok (splice xs off (replicate n 0))"
  by (simp add: zero_at_def copy_at_def)

lemma idx_Ok: "i < length xs \<Longrightarrow> idx xs i = Ok (xs ! i)"
  by (simp add: idx_def)

lemma sliceO_Ok: "a \<le> b \<Longrightarrow> b \<le> length xs \<Longrightarrow> sliceO xs a b = Ok (bslice xs a (b - a))"
  by (simp add: sliceO_def)

section \<open>Lemmas on big-endian integers\<close>

lemma u16_be_roundtrip [simp]: "u16_from_be (ucast (drop_bit 8 w)) (ucast w) = w"
  unfolding u16_from_be_def
  by (rule bit_word_eqI) (auto simp: bit_simps not_less le_eq_less_or_eq)

lemma u32_be_roundtrip [simp]:
  "u32_from_be (ucast (drop_bit 24 w)) (ucast (drop_bit 16 w)) (ucast (drop_bit 8 w)) (ucast w) = w"
proof (rule bit_word_eqI)
  fix n
  assume n: "n < LENGTH(32)"
  then consider "n < 8" | "8 \<le> n" "n < 16" | "16 \<le> n" "n < 24" | "24 \<le> n" "n < 32"
    by fastforce
  then show "bit (u32_from_be (ucast (drop_bit 24 w)) (ucast (drop_bit 16 w))
      (ucast (drop_bit 8 w)) (ucast w)) n \<longleftrightarrow> bit w n"
    by cases (auto simp: u32_from_be_def bit_simps)
qed

lemma length_u16_to_be [simp]: "length (u16_to_be w) = 2"
  and length_u32_to_be [simp]: "length (u32_to_be v) = 4"
  by (simp_all add: u16_to_be_def u32_to_be_def)

lemma be32_Ok: "off + 4 \<le> length xs \<Longrightarrow> \<exists>v. be32 xs off = Ok v"
  and be16_Ok: "off + 2 \<le> length xs \<Longrightarrow> \<exists>v. be16 xs off = Ok v"
  by (simp_all add: be32_def be16_def)

lemma be32_eq_Panic [simp]: "be32 xs off = Panic \<longleftrightarrow> length xs < off + 4"
  and be16_eq_Panic [simp]: "be16 xs off = Panic \<longleftrightarrow> length xs < off + 2"
  and be32_not_Err [simp]: "be32 xs off \<noteq> Err e"
  and be16_not_Err [simp]: "be16 xs off \<noteq> Err e"
  by (auto simp: be32_def be16_def)

lemma put_u32_Ok [simp]: "off + 4 \<le> length xs \<Longrightarrow> put_u32 xs off v = Ok (splice xs off (u32_to_be v))"
  and put_u16_Ok [simp]: "off + 2 \<le> length xs \<Longrightarrow> put_u16 xs off h = Ok (splice xs off (u16_to_be h))"
  and put_u32_Panic: "length xs < off + 4 \<Longrightarrow> put_u32 xs off v = Panic"
  by (simp_all add: put_u32_def put_u16_def copy_at_def)

lemma be32_splice_same [bytes_simps]:
  "off + 4 \<le> length xs \<Longrightarrow> be32 (splice xs off (u32_to_be v)) off = Ok v"
  by (simp add: be32_def nth_splice u32_to_be_def)

lemma be16_splice_same [bytes_simps]:
  "off + 2 \<le> length xs \<Longrightarrow> be16 (splice xs off (u16_to_be v)) off = Ok v"
  by (simp add: be16_def nth_splice u16_to_be_def)

lemma be32_splice_disjoint [bytes_simps]:
  assumes "a + 4 \<le> off \<or> off + length ys \<le> a"
  shows "be32 (splice xs off ys) a = be32 xs a"
  using assms by (auto simp: be32_def nth_splice)

lemma be16_splice_disjoint [bytes_simps]:
  assumes "a + 2 \<le> off \<or> off + length ys \<le> a"
  shows "be16 (splice xs off ys) a = be16 xs a"
  using assms by (auto simp: be16_def nth_splice)

lemma be32_slice [bytes_simps]:
  "a + n \<le> length xs \<Longrightarrow> off + 4 \<le> n \<Longrightarrow> be32 (bslice xs a n) off = be32 xs (a + off)"
  by (simp add: be32_def nth_bslice add.assoc)

lemma be16_slice [bytes_simps]:
  "a + n \<le> length xs \<Longrightarrow> off + 2 \<le> n \<Longrightarrow> be16 (bslice xs a n) off = be16 xs (a + off)"
  by (simp add: be16_def nth_bslice add.assoc)

section \<open>Lemmas on strings\<close>

lemma as_bytes_Nil [simp]: "as_bytes [] = []"
  and as_bytes_Cons [simp]: "as_bytes (c # s) = utf8_encode c @ as_bytes s"
  by (simp_all add: as_bytes_def)

lemma as_bytes_ascii: "ascii_str s \<Longrightarrow> as_bytes s = map of_nat s"
  by (induction s) (auto simp: ascii_str_def utf8_encode_def)

end
