(* ===== verification/Util.thy ===== *)
theory Util
  imports Prelude
begin

text \<open>
  \<^verbatim>\<open>crates/libpfs3/src/util.rs\<close>: Amiga datestamps, protection bits, Latin-1 names and path
  joining.  The system clock is the parameter \<open>now\<close>, the seconds since the Unix epoch; a
  \<open>SystemTime\<close> is the pair of its seconds and nanoseconds since that epoch.
\<close>

section \<open>Datestamps\<close>

definition AMIGA_EPOCH_OFFSET :: nat where
  "AMIGA_EPOCH_OFFSET = 2922 * 86400"

definition amiga_to_systime :: "u16 \<Rightarrow> u16 \<Rightarrow> u16 \<Rightarrow> nat \<times> nat" where
  "amiga_to_systime days minutes ticks =
     (let secs = AMIGA_EPOCH_OFFSET + unat days * 86400 + unat minutes * 60 + unat ticks div 50;
          nanos = (unat ticks mod 50) * 20000000
      in (secs, nanos))"

definition days_to_ymd :: "u32 \<Rightarrow> u32 \<times> u32 \<times> u32" where
  "days_to_ymd days =
     (let z = days + 719468;
          era = z div 146097;
          doe = z - era * 146097;
          yoe = (doe - doe div 1460 + doe div 36524 - doe div 146096) div 365;
          y = yoe + era * 400;
          doy = doe - (365 * yoe + yoe div 4 - yoe div 100);
          mp = (5 * doy + 2) div 153;
          d = doy - (153 * mp + 2) div 5 + 1;
          m = (if mp < 10 then mp + 3 else mp - 9);
          y = (if m \<le> 2 then y + 1 else y)
      in (y, m, d))"

text \<open>\<open>format!("{n:0w$}")\<close>: decimal digits, padded with zeros on the left to width \<open>w\<close>.\<close>

definition pad_nat :: "nat \<Rightarrow> nat \<Rightarrow> rstr" where
  "pad_nat w n = (let s = show_nat n in replicate (w - length s) 48 @ s)"

definition amiga_date_string :: "u16 \<Rightarrow> u16 \<Rightarrow> u16 \<Rightarrow> rstr" where
  "amiga_date_string days minutes ticks =
     (let secs = fst (amiga_to_systime days minutes ticks);
          time_of_day = secs mod 86400;
          hours = time_of_day div 3600;
          mins = (time_of_day mod 3600) div 60;
          s = time_of_day mod 60;
          (y, m, d) = days_to_ymd (of_nat (secs div 86400))
      in pad_nat 4 (unat y) @ rs ''-'' @ pad_nat 2 (unat m) @ rs ''-'' @ pad_nat 2 (unat d) @ rs '' ''
         @ pad_nat 2 hours @ rs '':'' @ pad_nat 2 mins @ rs '':'' @ pad_nat 2 s)"

definition current_amiga_datestamp :: "nat \<Rightarrow> u16 \<times> u16 \<times> u16" where
  "current_amiga_datestamp now =
     (let amiga_secs = now - AMIGA_EPOCH_OFFSET;
          days = of_nat (amiga_secs div 86400);
          mins = of_nat ((amiga_secs mod 86400) div 60);
          ticks = of_nat ((amiga_secs mod 60) * 50)
      in (days, mins, ticks))"

section \<open>Protection bits\<close>

definition amiga_protection_to_mode :: "u8 \<Rightarrow> bool \<Rightarrow> u32" where
  "amiga_protection_to_mode prot is_dir =
     (let mode = (if is_dir then 0x4000 else 0x8000);
          mode = (if prot AND 0x08 = 0 then mode OR 0x124 else mode);
          mode = (if prot AND 0x04 = 0 then mode OR 0x92 else mode);
          mode = (if prot AND 0x02 = 0 then mode OR 0x49 else mode)
      in mode)"

definition unix_mode_to_amiga_protection :: "u32 \<Rightarrow> u8" where
  "unix_mode_to_amiga_protection mode =
     (let prot = 0x0F;
          prot = (if mode AND 0x100 \<noteq> 0 then prot AND NOT 0x08 else prot);
          prot = (if mode AND 0x80 \<noteq> 0 then (prot AND NOT 0x04) AND NOT 0x01 else prot);
          prot = (if mode AND 0x40 \<noteq> 0 then prot AND NOT 0x02 else prot)
      in prot)"

definition amiga_protection_string :: "u8 \<Rightarrow> rstr" where
  "amiga_protection_string prot =
     map of_char
      [if prot AND 0x80 \<noteq> 0 then CHR ''h'' else CHR ''-'',
       if prot AND 0x40 \<noteq> 0 then CHR ''s'' else CHR ''-'',
       if prot AND 0x20 \<noteq> 0 then CHR ''p'' else CHR ''-'',
       if prot AND 0x10 \<noteq> 0 then CHR ''a'' else CHR ''-'',
       if prot AND 0x08 = 0 then CHR ''r'' else CHR ''-'',
       if prot AND 0x04 = 0 then CHR ''w'' else CHR ''-'',
       if prot AND 0x02 = 0 then CHR ''e'' else CHR ''-'',
       if prot AND 0x01 = 0 then CHR ''d'' else CHR ''-'']"

text \<open>
  The specification modes \<open>+\<close>, \<open>-\<close> and \<open>=\<close>, and the effect of one letter; \<open>None\<close> is the
  source's catch-all arm.  Letters are compared as code points.
\<close>

datatype prot_mode = Add | Subtract | Assign

definition prot_letter :: "nat \<Rightarrow> prot_mode \<Rightarrow> u8 \<Rightarrow> u8 option" where
  "prot_letter ch mode prot =
     (let minus = (mode = Subtract) in
      if ch = of_char CHR ''h'' then Some (if minus then prot AND NOT 0x80 else prot OR 0x80)
      else if ch = of_char CHR ''s'' then Some (if minus then prot AND NOT 0x40 else prot OR 0x40)
      else if ch = of_char CHR ''p'' then Some (if minus then prot AND NOT 0x20 else prot OR 0x20)
      else if ch = of_char CHR ''a'' then Some (if minus then prot AND NOT 0x10 else prot OR 0x10)
      else if ch = of_char CHR ''r'' then Some (if minus then prot OR 0x08 else prot AND NOT 0x08)
      else if ch = of_char CHR ''w'' then Some (if minus then prot OR 0x04 else prot AND NOT 0x04)
      else if ch = of_char CHR ''e'' then Some (if minus then prot OR 0x02 else prot AND NOT 0x02)
      else if ch = of_char CHR ''d'' then Some (if minus then prot OR 0x01 else prot AND NOT 0x01)
      else None)"

fun prot_letters :: "rstr \<Rightarrow> prot_mode \<Rightarrow> u8 \<Rightarrow> u8 option" where
  "prot_letters [] mode prot = Some prot"
| "prot_letters (ch # chars) mode prot =
     (case prot_letter ch mode prot of None \<Rightarrow> None | Some prot' \<Rightarrow> prot_letters chars mode prot')"

definition split_spec :: "rstr \<Rightarrow> prot_mode \<times> rstr" where
  "split_spec spec =
     (case spec of
        [] \<Rightarrow> (Assign, spec)
      | c # rest \<Rightarrow> (if c = of_char CHR ''+'' then (Add, rest)
                   else if c = of_char CHR ''-'' then (Subtract, rest) else (Assign, spec)))"

definition parse_amiga_protection :: "u8 \<Rightarrow> rstr \<Rightarrow> u8 option" where
  "parse_amiga_protection current spec =
     (if spec = [] then None
      else let (mode, chars) = split_spec spec;
               prot = (if mode = Assign then 0x0F else current)
           in prot_letters chars mode prot)"

section \<open>Names and paths\<close>

definition latin1_to_string :: "bytes \<Rightarrow> rstr" where
  "latin1_to_string data = map unat data"

definition ascii_lower :: "u8 \<Rightarrow> u8" where
  "ascii_lower b = (if 65 \<le> b \<and> b \<le> 90 then b + 32 else b)"

definition name_eq_ci :: "rstr \<Rightarrow> rstr \<Rightarrow> bool" where
  "name_eq_ci a b \<longleftrightarrow> map ascii_lower (as_bytes a) = map ascii_lower (as_bytes b)"

definition SLASH :: nat where
  "SLASH = of_char CHR ''/''"

definition join_pfs3_path :: "rstr \<Rightarrow> rstr \<Rightarrow> rstr" where
  "join_pfs3_path parent name =
     (if parent \<noteq> [] \<and> last parent = SLASH then parent @ name else parent @ [SLASH] @ name)"

text \<open>
  \<open>path.split('/').filter(|s| !s.is_empty())\<close>, which the directory layer and the writer
  apply to every path.
\<close>

fun split_on :: "nat \<Rightarrow> rstr \<Rightarrow> rstr list" where
  "split_on c [] = [[]]"
| "split_on c (x # xs) =
     (if x = c then [] # split_on c xs
      else (case split_on c xs of [] \<Rightarrow> [[x]] | p # ps \<Rightarrow> (x # p) # ps))"

definition path_parts :: "rstr \<Rightarrow> rstr list" where
  "path_parts path = filter (\<lambda>p. p \<noteq> []) (split_on SLASH path)"

section \<open>What the operations guarantee\<close>

text \<open>
  Whether a protection byte grants one of the eight rights: H, S, P and A are set bits, R, W,
  E and D are clear ones.
\<close>

definition prot_letters_all :: "char list" where
  "prot_letters_all = ''hsparwed''"

definition granted :: "u8 \<Rightarrow> char \<Rightarrow> bool" where
  "granted p c =
     (if c = CHR ''h'' then bit p 7 else if c = CHR ''s'' then bit p 6
      else if c = CHR ''p'' then bit p 5 else if c = CHR ''a'' then bit p 4
      else if c = CHR ''r'' then \<not> bit p 3 else if c = CHR ''w'' then \<not> bit p 2
      else if c = CHR ''e'' then \<not> bit p 1 else \<not> bit p 0)"

lemma and_bit_u8 [simp]:
  fixes p :: u8
  shows "p AND 0x80 = 0 \<longleftrightarrow> \<not> bit p 7" "p AND 0x40 = 0 \<longleftrightarrow> \<not> bit p 6"
    "p AND 0x20 = 0 \<longleftrightarrow> \<not> bit p 5" "p AND 0x10 = 0 \<longleftrightarrow> \<not> bit p 4"
    "p AND 0x08 = 0 \<longleftrightarrow> \<not> bit p 3" "p AND 0x04 = 0 \<longleftrightarrow> \<not> bit p 2"
    "p AND 0x02 = 0 \<longleftrightarrow> \<not> bit p 1" "p AND 0x01 = 0 \<longleftrightarrow> \<not> bit p 0"
proof -
  have *: "p AND 2 ^ n = 0 \<longleftrightarrow> \<not> bit p n" for n
    by (rule and_exp_eq_0_iff_not_bit)
  show "p AND 0x80 = 0 \<longleftrightarrow> \<not> bit p 7" using * [of 7] by simp
  show "p AND 0x40 = 0 \<longleftrightarrow> \<not> bit p 6" using * [of 6] by simp
  show "p AND 0x20 = 0 \<longleftrightarrow> \<not> bit p 5" using * [of 5] by simp
  show "p AND 0x10 = 0 \<longleftrightarrow> \<not> bit p 4" using * [of 4] by simp
  show "p AND 0x08 = 0 \<longleftrightarrow> \<not> bit p 3" using * [of 3] by simp
  show "p AND 0x04 = 0 \<longleftrightarrow> \<not> bit p 2" using * [of 2] by simp
  show "p AND 0x02 = 0 \<longleftrightarrow> \<not> bit p 1" using * [of 1] by simp
  show "p AND 0x01 = 0 \<longleftrightarrow> \<not> bit p 0" using * [of 0] by simp
qed

lemma u8_eqI:
  fixes p q :: u8
  assumes "bit p 0 = bit q 0" "bit p 1 = bit q 1" "bit p 2 = bit q 2" "bit p 3 = bit q 3"
    "bit p 4 = bit q 4" "bit p 5 = bit q 5" "bit p 6 = bit q 6" "bit p 7 = bit q 7"
  shows "p = q"
proof (rule bit_word_eqI)
  fix n
  assume "n < LENGTH(8)"
  then consider "n = 0" | "n = 1" | "n = 2" | "n = 3" | "n = 4" | "n = 5" | "n = 6" | "n = 7"
    by fastforce
  then show "bit p n = bit q n"
    using assms by cases simp_all
qed

lemma granted_eqI:
  "(\<And>c. c \<in> set prot_letters_all \<Longrightarrow> granted p c = granted q c) \<Longrightarrow> p = q"
  by (rule u8_eqI) (force simp: prot_letters_all_def granted_def)+

lemma prot_letter_None:
  "prot_letter ch mode p = None \<longleftrightarrow> ch \<notin> of_char ` set prot_letters_all"
  by (auto simp: prot_letter_def prot_letters_all_def Let_def)

lemma prot_letter_granted:
  assumes "prot_letter ch mode p = Some q" and "c \<in> set prot_letters_all"
  shows "granted q c \<longleftrightarrow>
    (if ch = of_char c then mode \<noteq> Subtract else granted p c)"
proof -
  from assms(2) consider "c = CHR ''h''" | "c = CHR ''s''" | "c = CHR ''p''" | "c = CHR ''a''"
    | "c = CHR ''r''" | "c = CHR ''w''" | "c = CHR ''e''" | "c = CHR ''d''"
    by (auto simp: prot_letters_all_def)
  then show ?thesis
    using assms(1)
    by cases (auto simp: prot_letter_def granted_def Let_def bit_or_iff bit_and_iff bit_not_iff
        split: if_splits)
qed

lemma prot_letters_granted:
  assumes "prot_letters chars mode p = Some q" and "c \<in> set prot_letters_all"
  shows "granted q c \<longleftrightarrow>
    (if of_char c \<in> set chars then mode \<noteq> Subtract else granted p c)"
  using assms
proof (induction chars arbitrary: p)
  case (Cons ch chars)
  then obtain p' where "prot_letter ch mode p = Some p'" "prot_letters chars mode p' = Some q"
    by (auto split: option.splits)
  with Cons show ?case
    by (auto simp: prot_letter_granted [of ch mode p p' c])
qed simp

lemma prot_letters_None:
  "prot_letters chars mode p = None \<longleftrightarrow> \<not> set chars \<subseteq> of_char ` set prot_letters_all"
proof (induction chars arbitrary: p)
  case (Cons ch chars)
  then show ?case
    using prot_letter_None [of ch mode p] by (auto split: option.splits)
qed simp

lemma granted_none: "c \<in> set prot_letters_all \<Longrightarrow> \<not> granted 0x0F c"
  by (auto simp: granted_def prot_letters_all_def)

text \<open>
  A protection specification is accepted exactly when it is not empty and, past an optional
  \<open>+\<close> or \<open>-\<close>, names only rights of \<open>hsparwed\<close>; the byte it gives grants a right as the
  documentation says: \<open>+\<close> adds the named rights to the current ones, \<open>-\<close> takes them away, and a
  plain list grants the named rights and no others.
\<close>

lemma parse_amiga_protection_spec:
  assumes "c \<in> set prot_letters_all"
  shows "(case parse_amiga_protection cur spec of
      None \<Rightarrow> spec = [] \<or> \<not> set (snd (split_spec spec)) \<subseteq> of_char ` set prot_letters_all
    | Some q \<Rightarrow> spec \<noteq> [] \<and> set (snd (split_spec spec)) \<subseteq> of_char ` set prot_letters_all \<and>
        granted q c =
          (case fst (split_spec spec) of
             Add \<Rightarrow> granted cur c \<or> of_char c \<in> set (snd (split_spec spec))
           | Subtract \<Rightarrow> granted cur c \<and> of_char c \<notin> set (snd (split_spec spec))
           | Assign \<Rightarrow> of_char c \<in> set (snd (split_spec spec))))"
proof -
  obtain mode chars where sp: "split_spec spec = (mode, chars)" by fastforce
  let ?p0 = "if mode = Assign then 0x0F else cur"
  show ?thesis
  proof (cases "parse_amiga_protection cur spec")
    case None
    then show ?thesis
      by (auto simp: parse_amiga_protection_def sp prot_letters_None split: if_splits)
  next
    case (Some q)
    then have q: "spec \<noteq> []" "prot_letters chars mode ?p0 = Some q"
      by (auto simp: parse_amiga_protection_def sp split: if_splits)
    then have "set chars \<subseteq> of_char ` set prot_letters_all"
      using prot_letters_None [of chars mode ?p0] by auto
    with q Some show ?thesis
      using prot_letters_granted [OF q(2) assms] granted_none [OF assms]
      by (auto simp: sp split: prot_mode.splits)
  qed
qed

lemma parse_amiga_protection_spec_witness:
  "CHR ''w'' \<in> set prot_letters_all \<and>
   parse_amiga_protection 0x04 (rs ''+ws'') = Some 0x40 \<and> granted 0x40 CHR ''w''"
proof -
  have w: "CHR ''w'' \<in> set prot_letters_all" by (simp add: prot_letters_all_def)
  have p: "parse_amiga_protection 0x04 (rs ''+ws'') = Some 0x40"
    by (simp add: parse_amiga_protection_def split_spec_def rs_def prot_letter_def)
  have "split_spec (rs ''+ws'') = (Add, rs ''ws'')"
    by (simp add: split_spec_def rs_def)
  with parse_amiga_protection_spec [OF w, of "rs ''+ws''" "0x04"] p
  have "granted 0x40 CHR ''w''" by (simp add: rs_def)
  with w p show ?thesis by simp
qed

lemma protection_string_letters:
  "c \<in> set prot_letters_all \<Longrightarrow> of_char c \<in> set (amiga_protection_string p) \<longleftrightarrow> granted p c"
  by (auto simp: amiga_protection_string_def prot_letters_all_def granted_def split: if_splits)

lemma protection_string_range:
  "set (amiga_protection_string p) \<subseteq> insert (of_char CHR ''-'') (of_char ` set prot_letters_all)"
  by (auto simp: amiga_protection_string_def prot_letters_all_def)

lemma parse_assign:
  assumes "spec \<noteq> []" "set spec \<subseteq> of_char ` set prot_letters_all"
    and "\<And>c. c \<in> set prot_letters_all \<Longrightarrow> of_char c \<in> set spec \<longleftrightarrow> granted p c"
  shows "parse_amiga_protection cur spec = Some p"
proof -
  have sp: "split_spec spec = (Assign, spec)"
    using assms(1,2) by (cases spec) (auto simp: split_spec_def prot_letters_all_def)
  obtain q where q: "prot_letters spec Assign 0x0F = Some q"
    using assms(2) prot_letters_None by (metis option.exhaust)
  have "q = p"
    using prot_letters_granted [OF q] granted_none assms(3) by (intro granted_eqI) auto
  with q sp assms(1) show ?thesis by (simp add: parse_amiga_protection_def)
qed

text \<open>
  Printing a protection byte and parsing it back: without the dashes, the printed rights
  parse to the same byte whatever the current one, unless nothing is granted (the printed text
  is then empty, which the parser refuses).
\<close>

lemma protection_string_roundtrip:
  assumes "p \<noteq> 0x0F"
  shows "parse_amiga_protection cur
    (filter (\<lambda>ch. ch \<noteq> of_char CHR ''-'') (amiga_protection_string p)) = Some p"
proof (rule parse_assign)
  let ?s = "filter (\<lambda>ch. ch \<noteq> of_char CHR ''-'') (amiga_protection_string p)"
  show "of_char c \<in> set ?s \<longleftrightarrow> granted p c" if "c \<in> set prot_letters_all" for c
    using protection_string_letters [OF that] that by (auto simp: prot_letters_all_def)
  show "set ?s \<subseteq> of_char ` set prot_letters_all"
    using protection_string_range [of p] by auto
  show "?s \<noteq> []"
  proof
    assume "?s = []"
    then have "\<not> granted p c" if "c \<in> set prot_letters_all" for c
      using protection_string_letters [OF that, of p] that
      by (auto simp: filter_empty_conv prot_letters_all_def)
    then have "p = 0x0F" using granted_none by (intro granted_eqI) auto
    with assms show False by simp
  qed
qed

text \<open>
  The text with its dashes, as the extended attribute shows it, does not parse back: the only
  byte whose printed form sets that same byte is the one that grants all eight rights.
\<close>

lemma protection_string_not_reparsed:
  "parse_amiga_protection cur (amiga_protection_string p) = Some p \<longleftrightarrow> p = 0xF0"
proof
  assume *: "parse_amiga_protection cur (amiga_protection_string p) = Some p"
  show "p = 0xF0"
  proof (cases "bit p 7")
    case False
    then have sp: "split_spec (amiga_protection_string p) =
        (Subtract, tl (amiga_protection_string p))"
      by (simp add: split_spec_def amiga_protection_string_def)
    from * have q: "prot_letters (tl (amiga_protection_string p)) Subtract cur = Some p"
      by (simp add: parse_amiga_protection_def sp split: if_splits)
    then have "of_char CHR ''-'' \<notin> set (tl (amiga_protection_string p))"
      using prot_letters_None [of "tl (amiga_protection_string p)" Subtract cur]
      by (auto simp: prot_letters_all_def)
    then have "granted p CHR ''s''" "of_char CHR ''s'' \<in> set (tl (amiga_protection_string p))"
      by (auto simp: amiga_protection_string_def granted_def split: if_splits)
    with prot_letters_granted [OF q, of "CHR ''s''"] show ?thesis
      by (simp add: prot_letters_all_def)
  next
    case True
    then have sp: "split_spec (amiga_protection_string p) = (Assign, amiga_protection_string p)"
      by (simp add: split_spec_def amiga_protection_string_def)
    from * have "prot_letters (amiga_protection_string p) Assign 0x0F = Some p"
      by (simp add: parse_amiga_protection_def sp split: if_splits)
    then have "of_char CHR ''-'' \<notin> set (amiga_protection_string p)"
      using prot_letters_None [of "amiga_protection_string p" Assign "0x0F"]
      by (auto simp: prot_letters_all_def)
    then show ?thesis
      by (intro u8_eqI) (auto simp: amiga_protection_string_def split: if_splits)
  qed
next
  assume "p = 0xF0"
  then show "parse_amiga_protection cur (amiga_protection_string p) = Some p"
    by (simp add: parse_amiga_protection_def split_spec_def amiga_protection_string_def
        prot_letter_def)
qed

text \<open>
  \<open>chmod\<close> keeps what it can express: the mode shown for a protection byte converts back to the
  same R, W and E bits, and the D bit becomes the W bit.
\<close>

lemma mode_roundtrip:
  "unix_mode_to_amiga_protection (amiga_protection_to_mode p is_dir) =
     (p AND 0x0E) OR (if p AND 0x04 = 0 then 0 else 1)"
  by (rule u8_eqI)
     (auto simp: unix_mode_to_amiga_protection_def amiga_protection_to_mode_def Let_def
       bit_or_iff bit_and_iff bit_not_iff)

text \<open>
  A time stamped by the writer is read back exactly, to the second, as long as the day number
  fits the 16-bit field, that is until the year 2157.
\<close>

lemma datestamp_roundtrip:
  assumes "AMIGA_EPOCH_OFFSET \<le> now" and "now - AMIGA_EPOCH_OFFSET < 65536 * 86400"
  shows "(case current_amiga_datestamp now of (d, m, t) \<Rightarrow> amiga_to_systime d m t) = (now, 0)"
proof -
  let ?a = "now - AMIGA_EPOCH_OFFSET"
  have d: "unat (of_nat (?a div 86400) :: u16) = ?a div 86400"
    using assms(2) by (simp add: unat_of_nat div_less_iff_less_mult)
  have m: "unat (of_nat ((?a mod 86400) div 60) :: u16) = (?a mod 86400) div 60"
    by (simp add: unat_of_nat)
  have t: "unat (of_nat ((?a mod 60) * 50) :: u16) = (?a mod 60) * 50"
  proof (rule unat_of_nat_lt)
    have "?a mod 60 < 60" by simp
    then show "(?a mod 60) * 50 < 2 ^ LENGTH(16)" by simp
  qed
  have "?a div 86400 * 86400 + (?a mod 86400) div 60 * 60 + ?a mod 60 = ?a"
  proof -
    have "(?a mod 86400) mod 60 = ?a mod 60" by (simp add: mod_mod_cancel)
    then show ?thesis by (metis div_mult_mod_eq add.assoc)
  qed
  then have "AMIGA_EPOCH_OFFSET + ?a div 86400 * 86400 + (?a mod 86400) div 60 * 60 + ?a mod 60 = now"
    using assms(1) by linarith
  with d m t show ?thesis
    by (simp add: current_amiga_datestamp_def amiga_to_systime_def Let_def del: of_nat_mult)
qed

lemma name_eq_ci_refl [simp]: "name_eq_ci a a"
  and name_eq_ci_sym: "name_eq_ci a b \<Longrightarrow> name_eq_ci b a"
  and name_eq_ci_trans: "name_eq_ci a b \<Longrightarrow> name_eq_ci b c \<Longrightarrow> name_eq_ci a c"
  by (simp_all add: name_eq_ci_def)

lemma latin1_ascii: "ascii_str s \<Longrightarrow> latin1_to_string (as_bytes s) = s"
proof -
  assume a: "ascii_str s"
  then have "map (\<lambda>c. unat (of_nat c :: u8)) s = s"
    by (induction s) (auto simp: ascii_str_def unat_of_nat)
  with a show ?thesis by (simp add: latin1_to_string_def as_bytes_ascii o_def)
qed

lemma latin1_Nil [simp]: "latin1_to_string [] = []"
  by (simp add: latin1_to_string_def)

lemma name_eq_ci_length: "name_eq_ci a b \<Longrightarrow> length (as_bytes a) = length (as_bytes b)"
  unfolding name_eq_ci_def by (metis length_map)

lemma length_latin1 [simp]: "length (latin1_to_string bs) = length bs"
  by (simp add: latin1_to_string_def)

lemma path_parts_nonempty: "p \<in> set (path_parts path) \<Longrightarrow> p \<noteq> []"
  by (simp add: path_parts_def)

lemma split_on_no_sep: "p \<in> set (split_on c xs) \<Longrightarrow> c \<notin> set p"
  by (induction xs arbitrary: p) (auto split: if_splits list.splits)

lemma path_parts_no_slash: "p \<in> set (path_parts path) \<Longrightarrow> SLASH \<notin> set p"
  by (auto simp: path_parts_def dest: split_on_no_sep)

end
