(* ===== verification/Device.thy ===== *)
theory Device
  imports Prelude
begin

text \<open>
  \<^verbatim>\<open>crates/libpfs3/src/io.rs\<close>: the \<open>BlockDevice\<close> trait and its file-backed implementation,
  and \<^verbatim>\<open>ondisk/mod.rs\<close>'s \<open>write_reserved_blocks\<close>, which is written against the trait.

  The file behind \<open>FileBlockDevice\<close> is its bytes.  Seeking and locking cannot fail here;
  reading past the end of the file is the I/O error of \<open>read_exact\<close>, and a write past the end
  extends the file with zeros as the operating system does.  \<open>d_write_credit\<close> stands for the
  operating system's own failures: \<open>Some n\<close> means that only \<open>n\<close> more writes succeed, \<open>None\<close>
  that all do.  Block numbers and byte offsets (\<open>u64\<close>) are \<open>nat\<close>: \<open>byte_offset_fits\<close> shows that no
  offset the library computes from 32-bit block numbers reaches 64 bits.
\<close>

record device =
  d_contents :: bytes
  d_block_bytes :: u32
  d_partition_offset :: nat
  d_total_blocks :: nat
  d_writable :: bool
  d_write_credit :: "nat option"

section \<open>Opening\<close>

text \<open>\<open>file_len - partition_offset\<close> is a 64-bit subtraction, which wraps.\<close>

definition new_impl :: "bytes \<Rightarrow> u32 \<Rightarrow> nat \<Rightarrow> nat \<Rightarrow> bool \<Rightarrow> device outcome" where
  "new_impl file block_bytes partition_offset total_blocks writable =
     (let file_len = length file in
      if total_blocks = 0 \<and> block_bytes = 0 then Panic
      else
        let total_blocks =
          (if total_blocks = 0
           then nat ((int file_len - int partition_offset) mod 2 ^ 64) div unat block_bytes
           else total_blocks)
        in Ok \<lparr>d_contents = file, d_block_bytes = block_bytes,
               d_partition_offset = partition_offset, d_total_blocks = total_blocks,
               d_writable = writable, d_write_credit = None\<rparr>)"

definition open_ro :: "bytes \<Rightarrow> u32 \<Rightarrow> nat \<Rightarrow> nat \<Rightarrow> device outcome" where
  "open_ro file block_bytes partition_offset total_blocks =
     new_impl file block_bytes partition_offset total_blocks False"

definition open_rw :: "bytes \<Rightarrow> u32 \<Rightarrow> nat \<Rightarrow> nat \<Rightarrow> device outcome" where
  "open_rw file block_bytes partition_offset total_blocks =
     new_impl file block_bytes partition_offset total_blocks True"

text \<open>The size of a new file is a 64-bit product, which wraps.\<close>

definition create :: "u32 \<Rightarrow> nat \<Rightarrow> device" where
  "create block_bytes total_blocks =
     (let size = total_blocks * unat block_bytes mod 2 ^ 64 in
      \<lparr>d_contents = replicate size 0, d_block_bytes = block_bytes, d_partition_offset = 0,
       d_total_blocks = total_blocks, d_writable = True, d_write_credit = None\<rparr>)"

section \<open>Reading and writing\<close>

definition block_size :: "device \<Rightarrow> u32" where
  "block_size d = d_block_bytes d"

definition byte_offset :: "device \<Rightarrow> nat \<Rightarrow> nat" where
  "byte_offset d block = d_partition_offset d + block * unat (d_block_bytes d)"

definition read_blocks :: "device \<Rightarrow> nat \<Rightarrow> nat \<Rightarrow> bytes \<Rightarrow> bytes outcome" where
  "read_blocks d block count buf =
     (let offset = byte_offset d block;
          len = count * unat (d_block_bytes d)
      in if length buf < len then Err (TooShort ''read buffer'')
         else if offset + len \<le> length (d_contents d)
         then Ok (splice buf 0 (bslice (d_contents d) offset len))
         else Err Io)"

definition read_block :: "device \<Rightarrow> nat \<Rightarrow> bytes \<Rightarrow> bytes outcome" where
  "read_block d block buf = read_blocks d block 1 buf"

text \<open>\<open>seek\<close> and \<open>write_all\<close> on the file.\<close>

definition file_write :: "bytes \<Rightarrow> nat \<Rightarrow> bytes \<Rightarrow> bytes" where
  "file_write file off data = splice (file @ replicate (off + length data - length file) 0) off data"

definition write_blocks :: "nat \<Rightarrow> nat \<Rightarrow> bytes \<Rightarrow> (device, unit) rm" where
  "write_blocks block count data d =
     (if \<not> d_writable d then (Err ReadOnly, d)
      else if 0 < d_total_blocks d \<and> d_total_blocks d < block + count
      then (Err (BlockOutOfRange block), d)
      else
        let offset = byte_offset d block;
            len = count * unat (d_block_bytes d)
        in if length data < len then (Panic, d)
           else (case d_write_credit d of
                   Some 0 \<Rightarrow> (Err Io, d)
                 | credit \<Rightarrow>
                     (Ok (), d\<lparr>d_contents := file_write (d_contents d) offset (take len data),
                              d_write_credit := map_option (\<lambda>n. n - 1) credit\<rparr>)))"

definition write_block :: "nat \<Rightarrow> bytes \<Rightarrow> (device, unit) rm" where
  "write_block block data = write_blocks block 1 data"

definition flush :: "(device, unit) rm" where
  "flush = retM ()"

text \<open>
  \<open>write_reserved_blocks\<close> takes any \<open>&dyn BlockDevice\<close>: here, the \<open>write_block\<close> of that device.
  Each sector is padded with zeros past the end of the data.
\<close>

definition sector_of :: "bytes \<Rightarrow> nat \<Rightarrow> nat \<Rightarrow> bytes" where
  "sector_of data sector_size start =
     (let end = min (start + sector_size) (length data);
          sector = replicate sector_size 0
      in if start < length data then splice sector 0 (bslice data start (end - start)) else sector)"

definition write_reserved_blocks ::
  "(nat \<Rightarrow> bytes \<Rightarrow> ('d, unit) rm) \<Rightarrow> nat \<Rightarrow> bytes \<Rightarrow> nat \<Rightarrow> nat \<Rightarrow> ('d, unit) rm" where
  "write_reserved_blocks wr blk data rescluster sector_size =
     forM [0..<rescluster] (\<lambda>i. wr (blk + i) (sector_of data sector_size (i * sector_size)))"

section \<open>The contract of a block device\<close>

text \<open>
  What the rest of the library relies on: \<open>rd d b n\<close> reads \<open>n\<close> blocks, \<open>wr b n data\<close> writes them.
  A successful write is read back, leaves every other block as it was and does not change the
  block size; a failed one changes nothing.
\<close>

locale block_device =
  fixes bsz :: "'d \<Rightarrow> nat"
    and rd :: "'d \<Rightarrow> nat \<Rightarrow> nat \<Rightarrow> bytes outcome"
    and wr :: "nat \<Rightarrow> nat \<Rightarrow> bytes \<Rightarrow> ('d, unit) rm"
  assumes rd_length: "rd d b n = Ok xs \<Longrightarrow> length xs = n * bsz d"
    and rd_zero: "rd d b n = Ok xs \<Longrightarrow> rd d b 0 = Ok []"
    and rd_append: "rd d b n = Ok xs \<Longrightarrow> rd d (b + n) m = Ok ys \<Longrightarrow> rd d b (n + m) = Ok (xs @ ys)"
    and wr_bsz: "bsz (snd (wr b n data d)) = bsz d"
    and rd_wr_same: "wr b n data d = (Ok (), d') \<Longrightarrow> rd d' b n = Ok (take (n * bsz d) data)"
    and rd_wr_other: "wr b n data d = (Ok (), d') \<Longrightarrow> rd d a m = Ok xs \<Longrightarrow>
      a + m \<le> b \<or> b + n \<le> a \<Longrightarrow> rd d' a m = Ok xs"
    and wr_fail: "fst (wr b n data d) \<noteq> Ok () \<Longrightarrow> snd (wr b n data d) = d"
begin

lemma sectors_bsz:
  "bsz (snd (forM is (\<lambda>i. wr (b + i) 1 (f i)) d)) = bsz d"
proof (induction "is" arbitrary: d)
  case (Cons i "is")
  obtain r d1 where w: "wr (b + i) 1 (f i) d = (r, d1)" by fastforce
  then have "bsz d1 = bsz d" using wr_bsz [of "b + i" 1 "f i" d] by simp
  with w Cons.IH show ?case by (cases r) (simp_all add: bindM_def)
qed simp

lemma rd_sectors_other:
  assumes "forM is (\<lambda>i. wr (b + i) 1 (f i)) d = (Ok (), d')" and "rd d a m = Ok xs"
    and "\<forall>i\<in>set is. a + m \<le> b + i \<or> b + i + 1 \<le> a"
  shows "rd d' a m = Ok xs"
  using assms
proof (induction "is" arbitrary: d)
  case (Cons i "is")
  then obtain d1 where "wr (b + i) 1 (f i) d = (Ok (), d1)"
      "forM is (\<lambda>i. wr (b + i) 1 (f i)) d1 = (Ok (), d')"
    by (auto simp: bindM_eq_Ok)
  moreover have "rd d1 a m = Ok xs"
    using rd_wr_other [OF calculation(1) Cons.prems(2)] Cons.prems(3) by simp
  ultimately show ?case using Cons.IH Cons.prems(3) by simp
qed simp

text \<open>Writing \<open>n\<close> sectors one after the other is read back as their concatenation.\<close>

lemma rd_sectors:
  assumes "forM [0..<n] (\<lambda>i. wr (b + i) 1 (f i)) d = (Ok (), d')"
    and "\<And>i. i < n \<Longrightarrow> length (f i) = bsz d" and "0 < n"
  shows "rd d' b n = Ok (concat (map f [0..<n]))"
  using assms
proof (induction n arbitrary: d')
  case (Suc n)
  have app: "forM ([0..<n] @ [n]) g s = bindM (forM [0..<n] g) (\<lambda>_. forM [n] g) s" for g :: "nat \<Rightarrow> ('d, unit) rm" and s
  proof -
    have "forM (xs @ ys) g s = bindM (forM xs g) (\<lambda>_. forM ys g) s" for xs ys :: "nat list"
      by (induction xs arbitrary: s) (auto simp: bindM_def split: prod.splits outcome.splits)
    then show ?thesis .
  qed
  from Suc.prems(1) obtain d1 where
    d1: "forM [0..<n] (\<lambda>i. wr (b + i) 1 (f i)) d = (Ok (), d1)"
        "wr (b + n) 1 (f n) d1 = (Ok (), d')"
    by (auto simp: app bindM_eq_Ok simp del: forM.simps(2)) (auto simp: bindM_eq_Ok)
  have b1: "bsz d1 = bsz d" using sectors_bsz [of "[0..<n]" b f d] d1(1) by simp
  have last: "rd d' (b + n) 1 = Ok (f n)"
    using rd_wr_same [OF d1(2)] Suc.prems(2) [of n] b1 by simp
  show ?case
  proof (cases "n = 0")
    case True
    with last show ?thesis by simp
  next
    case False
    then have "rd d1 b n = Ok (concat (map f [0..<n]))"
      using Suc.IH d1(1) Suc.prems(2) by simp
    then have "rd d' b n = Ok (concat (map f [0..<n]))"
      using rd_wr_other [OF d1(2), of b n] by simp
    from rd_append [OF this last] show ?thesis by simp
  qed
qed simp

end

section \<open>The file-backed device\<close>

definition read_exact :: "device \<Rightarrow> nat \<Rightarrow> nat \<Rightarrow> bytes outcome" where
  "read_exact d block count = read_blocks d block count (replicate (count * unat (block_size d)) 0)"

lemma splice_replicate_full: "length ys = n \<Longrightarrow> splice (replicate n x) 0 ys = ys"
  by (simp add: splice_eq)

lemma read_exact_eq:
  "read_exact d block count =
     (if byte_offset d block + count * unat (d_block_bytes d) \<le> length (d_contents d)
      then Ok (bslice (d_contents d) (byte_offset d block) (count * unat (d_block_bytes d)))
      else Err Io)"
  by (auto simp: read_exact_def read_blocks_def block_size_def Let_def splice_replicate_full)

lemma length_file_write [simp]:
  "length (file_write file off data) = max (length file) (off + length data)"
  by (simp add: file_write_def)

lemma slice_append_left: "off + n \<le> length xs \<Longrightarrow> bslice (xs @ ys) off n = bslice xs off n"
  by (simp add: bslice_def)

lemma slice_file_write_same: "bslice (file_write file off data) off (length data) = data"
  by (simp add: file_write_def bslice_splice_same)

lemma slice_file_write_other:
  assumes "a + n \<le> length file" and "a + n \<le> off \<or> off + length data \<le> a"
  shows "bslice (file_write file off data) a n = bslice file a n"
  using assms by (simp add: file_write_def bslice_splice_disjoint slice_append_left)

lemma write_blocks_Ok:
  assumes "write_blocks block count data d = (Ok (), d')"
  shows "count * unat (d_block_bytes d) \<le> length data"
    and "d' = d\<lparr>d_contents := file_write (d_contents d) (byte_offset d block)
                  (take (count * unat (d_block_bytes d)) data),
               d_write_credit := map_option (\<lambda>n. n - 1) (d_write_credit d)\<rparr>"
  using assms
  by (auto simp: write_blocks_def Let_def split: if_splits option.splits nat.splits)

lemma blocks_disjoint:
  fixes a m b n k :: nat
  shows "a + m \<le> b \<Longrightarrow> a * k + m * k \<le> b * k"
  by (metis add_mult_distrib mult_le_mono1)

lemma slice_add: "bslice xs a (n + m) = bslice xs a n @ bslice xs (a + n) m"
  by (simp add: bslice_def take_add) (simp add: add.commute)

interpretation file_dev: block_device "\<lambda>d. unat (block_size d)" read_exact write_blocks
proof
  fix d b n xs
  assume "read_exact d b n = Ok xs"
  then show "length xs = n * unat (block_size d)" "read_exact d b 0 = Ok []"
    by (auto simp: read_exact_eq block_size_def bslice_def split: if_splits)
next
  fix d b n xs m ys
  assume "read_exact d b n = Ok xs" "read_exact d (b + n) m = Ok ys"
  then show "read_exact d b (n + m) = Ok (xs @ ys)"
    by (auto simp: read_exact_eq byte_offset_def slice_add add_mult_distrib add.assoc
        split: if_splits)
next
  fix b n data d
  show "unat (block_size (snd (write_blocks b n data d))) = unat (block_size d)"
    by (auto simp: write_blocks_def block_size_def Let_def split: option.splits nat.splits)
next
  fix b n data d d'
  assume "write_blocks b n data d = (Ok (), d')"
  from write_blocks_Ok [OF this]
  show "read_exact d' b n = Ok (take (n * unat (block_size d)) data)"
    using slice_file_write_same [of "d_contents d" "byte_offset d b"
        "take (n * unat (d_block_bytes d)) data"]
    by (simp add: read_exact_eq byte_offset_def block_size_def)
next
  fix b n data d d' a m xs
  assume "write_blocks b n data d = (Ok (), d')" and rd: "read_exact d a m = Ok xs"
    and dis: "a + m \<le> b \<or> b + n \<le> a"
  note d' = write_blocks_Ok [OF this(1)]
  let ?k = "unat (d_block_bytes d)"
  have "byte_offset d a + m * ?k \<le> byte_offset d b \<or> byte_offset d b + n * ?k \<le> byte_offset d a"
    using dis blocks_disjoint [of a m b ?k] blocks_disjoint [of b n a ?k]
    by (auto simp: byte_offset_def)
  then show "read_exact d' a m = Ok xs"
    using rd d' by (auto simp: read_exact_eq byte_offset_def slice_file_write_other split: if_splits)
next
  fix b n data d
  assume "fst (write_blocks b n data d) \<noteq> Ok ()"
  then show "snd (write_blocks b n data d) = d"
    by (auto simp: write_blocks_def Let_def split: if_splits option.splits nat.splits)
qed

lemma byte_offset_fits:
  assumes "d_partition_offset d < 2 ^ 63" and "block < 2 ^ 33" and "unat (d_block_bytes d) < 2 ^ 16"
  shows "byte_offset d block < 2 ^ 64"
proof -
  have "block * unat (d_block_bytes d) < 2 ^ 33 * 2 ^ 16"
    using assms(2,3) by (intro mult_strict_mono) simp_all
  with assms(1) show ?thesis by (simp add: byte_offset_def)
qed

lemma sector_of_eq:
  "sector_of data k start = take k (drop start data @ replicate k 0)"
  by (auto simp: sector_of_def Let_def splice_eq bslice_def min_def)

lemma length_sector_of [simp]: "length (sector_of data k start) = k"
  by (simp add: sector_of_eq)

lemma concat_sectors:
  "length data \<le> n * k \<Longrightarrow>
   concat (map (\<lambda>i. sector_of data k (i * k)) [0..<n]) = data @ replicate (n * k - length data) 0"
proof (induction n arbitrary: data)
  case (Suc n)
  have "concat (map (\<lambda>i. sector_of data k (i * k)) [0..<Suc n]) =
      sector_of data k 0 @ concat (map (\<lambda>i. sector_of data k (Suc i * k)) [0..<n])"
    by (simp add: upt_conv_Cons map_Suc_upt [symmetric] o_def del: upt_Suc)
  also have "map (\<lambda>i. sector_of data k (Suc i * k)) [0..<n] =
      map (\<lambda>i. sector_of (drop k data) k (i * k)) [0..<n]"
    by (simp add: sector_of_eq add.commute)
  also have "concat \<dots> = drop k data @ replicate (n * k - length (drop k data)) 0"
    using Suc by (intro Suc.IH) simp
  finally have "concat (map (\<lambda>i. sector_of data k (i * k)) [0..<Suc n]) =
      (take k data @ drop k data) @
        replicate (k - length data) 0 @ replicate (n * k - (length data - k)) 0"
    by (cases "k \<le> length data") (simp_all add: sector_of_eq)
  also have "\<dots> = data @ replicate (k - length data + (n * k - (length data - k))) 0"
    by (simp only: append_take_drop_id replicate_add)
  finally show ?case
    using Suc.prems by (cases "k \<le> length data") (simp_all add: add.commute)
qed simp

lemma write_reserved_blocks_rd:
  assumes "write_reserved_blocks write_block blk data n k d = (Ok (), d')"
    and "k = unat (block_size d)" "0 < n" "length data \<le> n * k"
  shows "read_exact d' blk n = Ok (data @ replicate (n * k - length data) 0)"
proof -
  from assms(1) have "forM [0..<n] (\<lambda>i. write_blocks (blk + i) 1 (sector_of data k (i * k))) d = (Ok (), d')"
    by (simp add: write_reserved_blocks_def write_block_def)
  from file_dev.rd_sectors [OF this] assms(2,3) concat_sectors [OF assms(4)]
  show ?thesis by simp
qed

lemma write_reserved_blocks_other:
  assumes "write_reserved_blocks write_block blk data n k d = (Ok (), d')"
    and "read_exact d a m = Ok xs" "a + m \<le> blk \<or> blk + n \<le> a"
  shows "read_exact d' a m = Ok xs"
proof -
  from assms(1) have "forM [0..<n] (\<lambda>i. write_blocks (blk + i) 1 (sector_of data k (i * k))) d = (Ok (), d')"
    by (simp add: write_reserved_blocks_def write_block_def)
  from file_dev.rd_sectors_other [OF this assms(2)] assms(3) show ?thesis by auto
qed

text \<open>
  C38. A reserved block written sector by sector is read back whole, padded with zeros to the
  sectors it spans, and every block outside it reads as before.
\<close>

theorem write_reserved_blocks_readback:
  assumes "write_reserved_blocks write_block blk data n (unat (block_size d)) d = (Ok (), d')"
    and "0 < n" "length data \<le> n * unat (block_size d)"
  shows "read_exact d' blk n = Ok (data @ replicate (n * unat (block_size d) - length data) 0) \<and>
    (\<forall>a m xs. (a + m \<le> blk \<or> blk + n \<le> a) \<and> read_exact d a m = Ok xs
       \<longrightarrow> read_exact d' a m = Ok xs)"
  using write_reserved_blocks_rd [OF assms(1) refl assms(2,3)]
    write_reserved_blocks_other [OF assms(1)] by blast

theorem write_reserved_blocks_readback_witness:
  "\<exists>d'. write_reserved_blocks write_block 1 [7, 8, 9] 2 2 (create 2 4) = (Ok (), d') \<and>
     read_exact d' 1 2 = Ok [7, 8, 9, 0] \<and> d_contents d' = [0, 0, 7, 8, 9, 0, 0, 0]"
proof -
  let ?d' = "(create 2 4)\<lparr>d_contents := [0, 0, 7, 8, 9, 0, 0, 0]\<rparr>"
  have w: "write_reserved_blocks write_block 1 [7, 8, 9] 2 (unat (block_size (create 2 4)))
      (create 2 4) = (Ok (), ?d')"
    by (simp add: write_reserved_blocks_def write_block_def write_blocks_def create_def
        block_size_def byte_offset_def file_write_def splice_eq sector_of_eq bindM_def
        upt_rec) (simp add: numeral_2_eq_2)
  from write_reserved_blocks_readback [OF w] show ?thesis
    using w by (intro exI [of _ ?d']) (simp add: create_def block_size_def)
qed

text \<open>
  Writing is guarded: a read-only device refuses every write, a range past the end of the
  volume is refused with the block number it was asked for, and a refused or failed write leaves
  the device exactly as it was.
\<close>

lemma write_blocks_guards:
  "(\<not> d_writable d \<longrightarrow> write_blocks b n data d = (Err ReadOnly, d)) \<and>
   (d_writable d \<and> 0 < d_total_blocks d \<and> d_total_blocks d < b + n \<longrightarrow>
      write_blocks b n data d = (Err (BlockOutOfRange b), d)) \<and>
   (fst (write_blocks b n data d) \<noteq> Ok () \<longrightarrow> snd (write_blocks b n data d) = d)"
  using file_dev.wr_fail [of b n data d] by (auto simp: write_blocks_def)

end
