(* ===== verification/Ondisk.thy ===== *)
theory Ondisk
  imports Util
begin

text \<open>
  \<^verbatim>\<open>crates/libpfs3/src/ondisk/mod.rs\<close>: constants of the format, anodes, the headers of the
  reserved block types and deleted-file entries.  The byte helpers \<open>put_u32\<close> and \<open>put_u16\<close> are in
  the prelude, \<open>write_reserved_blocks\<close> is with the devices.
\<close>

section \<open>Constants\<close>

definition ID_PFS_DISK :: u32 where "ID_PFS_DISK = 0x50465301"
definition ID_PFS2_DISK :: u32 where "ID_PFS2_DISK = 0x50465302"
definition ID_AFS_DISK :: u32 where "ID_AFS_DISK = 0x41465301"
definition ID_MUAF_DISK :: u32 where "ID_MUAF_DISK = 0x6D754146"
definition ID_MUPFS_DISK :: u32 where "ID_MUPFS_DISK = 0x6D755046"

definition PFS_TYPES :: "u32 list" where
  "PFS_TYPES = [ID_PFS_DISK, ID_PFS2_DISK, ID_AFS_DISK, ID_MUAF_DISK, ID_MUPFS_DISK]"

definition DBLKID :: u16 where "DBLKID = 0x4442"
definition ABLKID :: u16 where "ABLKID = 0x4142"
definition IBLKID :: u16 where "IBLKID = 0x4942"
definition BMBLKID :: u16 where "BMBLKID = 0x424D"
definition BMIBLKID :: u16 where "BMIBLKID = 0x4D49"
definition DELDIRID :: u16 where "DELDIRID = 0x4444"
definition EXTENSIONID :: u16 where "EXTENSIONID = 0x4558"

definition MODE_HARDDISK :: u32 where "MODE_HARDDISK = 1"
definition MODE_SPLITTED_ANODES :: u32 where "MODE_SPLITTED_ANODES = 2"
definition MODE_DIR_EXTENSION :: u32 where "MODE_DIR_EXTENSION = 4"
definition MODE_DELDIR :: u32 where "MODE_DELDIR = 8"
definition MODE_SIZEFIELD :: u32 where "MODE_SIZEFIELD = 16"
definition MODE_EXTENSION :: u32 where "MODE_EXTENSION = 32"
definition MODE_DATESTAMP :: u32 where "MODE_DATESTAMP = 64"
definition MODE_SUPERINDEX :: u32 where "MODE_SUPERINDEX = 128"
definition MODE_SUPERDELDIR :: u32 where "MODE_SUPERDELDIR = 256"
definition MODE_EXTROVING :: u32 where "MODE_EXTROVING = 512"
definition MODE_LONGFN :: u32 where "MODE_LONGFN = 1024"
definition MODE_LARGEFILE :: u32 where "MODE_LARGEFILE = 2048"

definition MAXSMALLBITMAPINDEX :: nat where "MAXSMALLBITMAPINDEX = 4"
definition MAXBITMAPINDEX :: nat where "MAXBITMAPINDEX = 103"
definition MAXSMALLINDEXNR :: nat where "MAXSMALLINDEXNR = 98"
definition MAXSUPER :: nat where "MAXSUPER = 15"
definition MAX_DIR_DEPTH :: nat where "MAX_DIR_DEPTH = 128"

definition ANODE_EOF :: u32 where "ANODE_EOF = 0"
definition ANODE_ROOTDIR :: u32 where "ANODE_ROOTDIR = 5"
definition ANODE_USERFIRST :: u32 where "ANODE_USERFIRST = 6"

definition BOOTBLOCK :: nat where "BOOTBLOCK = 0"
definition ROOTBLOCK :: nat where "ROOTBLOCK = 2"

definition ST_FILE :: i8 where "ST_FILE = - 3"
definition ST_USERDIR :: i8 where "ST_USERDIR = 2"
definition ST_SOFTLINK :: i8 where "ST_SOFTLINK = 3"
definition ST_LINKDIR :: i8 where "ST_LINKDIR = 4"
definition ST_LINKFILE :: i8 where "ST_LINKFILE = - 4"
definition ST_ROLLOVERFILE :: i8 where "ST_ROLLOVERFILE = - 16"

definition ANODE_SIZE :: nat where "ANODE_SIZE = 12"
definition ANODE_BLOCK_HEADER_SIZE :: nat where "ANODE_BLOCK_HEADER_SIZE = 16"
definition INDEX_BLOCK_HEADER_SIZE :: nat where "INDEX_BLOCK_HEADER_SIZE = 12"
definition BITMAP_BLOCK_HEADER_SIZE :: nat where "BITMAP_BLOCK_HEADER_SIZE = 12"
definition DELDIR_HEADER_SIZE :: nat where "DELDIR_HEADER_SIZE = 32"
definition DELDIR_ENTRY_SIZE :: nat where "DELDIR_ENTRY_SIZE = 32"
definition DIR_BLOCK_HEADER_SIZE :: nat where "DIR_BLOCK_HEADER_SIZE = 20"

lemmas const_defs =
  ID_PFS_DISK_def ID_PFS2_DISK_def ID_AFS_DISK_def ID_MUAF_DISK_def ID_MUPFS_DISK_def
  DBLKID_def ABLKID_def IBLKID_def BMBLKID_def BMIBLKID_def DELDIRID_def EXTENSIONID_def
  MAXSMALLBITMAPINDEX_def MAXBITMAPINDEX_def MAXSMALLINDEXNR_def MAXSUPER_def
  ANODE_EOF_def ANODE_ROOTDIR_def ANODE_USERFIRST_def BOOTBLOCK_def ROOTBLOCK_def

lemmas mode_defs =
  MODE_HARDDISK_def MODE_SPLITTED_ANODES_def MODE_DIR_EXTENSION_def MODE_DELDIR_def
  MODE_SIZEFIELD_def MODE_EXTENSION_def MODE_DATESTAMP_def MODE_SUPERINDEX_def
  MODE_SUPERDELDIR_def MODE_EXTROVING_def MODE_LONGFN_def MODE_LARGEFILE_def

lemmas st_defs =
  ST_FILE_def ST_USERDIR_def ST_SOFTLINK_def ST_LINKDIR_def ST_LINKFILE_def ST_ROLLOVERFILE_def

lemmas size_defs =
  ANODE_SIZE_def ANODE_BLOCK_HEADER_SIZE_def INDEX_BLOCK_HEADER_SIZE_def
  BITMAP_BLOCK_HEADER_SIZE_def DELDIR_HEADER_SIZE_def DELDIR_ENTRY_SIZE_def DIR_BLOCK_HEADER_SIZE_def

section \<open>Anodes\<close>

record anode =
  an_clustersize :: u32
  an_blocknr :: u32
  an_next :: u32
  an_nr :: u32

text \<open>
  \<open>Cursor::read_u32\<close> and \<open>read_u16\<close> at a position: past the end they are an I/O error, not a
  panic.
\<close>

definition cur32 :: "bytes \<Rightarrow> nat \<Rightarrow> u32 outcome" where
  "cur32 data off = (if off + 4 \<le> length data then be32 data off else Err Io)"

definition cur16 :: "bytes \<Rightarrow> nat \<Rightarrow> u16 outcome" where
  "cur16 data off = (if off + 2 \<le> length data then be16 data off else Err Io)"

definition Anode_parse :: "bytes \<Rightarrow> u32 \<Rightarrow> anode outcome" where
  "Anode_parse data nr =
     (if length data < ANODE_SIZE then Err (TooShort ''anode'')
      else bindO (cur32 data 0) (\<lambda>clustersize.
           bindO (cur32 data 4) (\<lambda>blocknr.
           bindO (cur32 data 8) (\<lambda>next.
             Ok \<lparr>an_clustersize = clustersize, an_blocknr = blocknr, an_next = next, an_nr = nr\<rparr>))))"

definition is_eof :: "anode \<Rightarrow> bool" where
  "is_eof an \<longleftrightarrow> an_next an = ANODE_EOF"

section \<open>Block headers\<close>

record block_header =
  bh_id :: u16
  bh_datestamp :: u32
  bh_seqnr :: u32

definition parse_header_fields :: "bytes \<Rightarrow> u16 \<Rightarrow> block_header outcome" where
  "parse_header_fields data bid =
     bindO (be32 data 4) (\<lambda>datestamp.
     bindO (be32 data 8) (\<lambda>seqnr.
       Ok \<lparr>bh_id = bid, bh_datestamp = datestamp, bh_seqnr = seqnr\<rparr>))"

definition AnodeBlockHeader_parse :: "bytes \<Rightarrow> block_header outcome" where
  "AnodeBlockHeader_parse data =
     (if length data < 16 then Err (TooShort ''anode block header'')
      else bindO (be16 data 0) (\<lambda>id.
        if id \<noteq> ABLKID then Err (BadBlockId ''anode block'' ABLKID id)
        else parse_header_fields data id))"

definition IndexBlockHeader_parse :: "bytes \<Rightarrow> block_header outcome" where
  "IndexBlockHeader_parse data =
     (if length data < 12 then Err (TooShort ''index block header'')
      else bindO (be16 data 0) (\<lambda>id. parse_header_fields data id))"

definition BitmapBlockHeader_parse :: "bytes \<Rightarrow> block_header outcome" where
  "BitmapBlockHeader_parse data =
     (if length data < 12 then Err (TooShort ''bitmap block header'')
      else bindO (be16 data 0) (\<lambda>id.
        if id \<noteq> BMBLKID then Err (BadBlockId ''bitmap block'' BMBLKID id)
        else parse_header_fields data id))"

section \<open>Deleted-file entries\<close>

record deldir_entry =
  dd_anode :: u32
  dd_fsize :: u32
  dd_fsizex :: u16
  dd_creation_day :: u16
  dd_creation_minute :: u16
  dd_creation_tick :: u16
  dd_filename :: rstr

definition trim_end_nul :: "rstr \<Rightarrow> rstr" where
  "trim_end_nul s = rev (dropWhile (\<lambda>c. c = 0) (rev s))"

definition DelDirEntry_parse :: "bytes \<Rightarrow> deldir_entry option outcome" where
  "DelDirEntry_parse data =
     (if length data < 32 then Ok None
      else bindO (be32 data 0) (\<lambda>anode.
        if anode = 0 then Ok None
        else bindO (be32 data 4) (\<lambda>fsize.
             bindO (be16 data 8) (\<lambda>day.
             bindO (be16 data 10) (\<lambda>minute.
             bindO (be16 data 12) (\<lambda>tick.
             bindO (sliceO data 14 30) (\<lambda>name.
             bindO (be16 data 30) (\<lambda>fsizex.
               Ok (Some \<lparr>dd_anode = anode, dd_fsize = fsize, dd_fsizex = fsizex,
                  dd_creation_day = day, dd_creation_minute = minute, dd_creation_tick = tick,
                  dd_filename = trim_end_nul (latin1_to_string name)\<rparr>)))))))))"

text \<open>The 48-bit file size kept as a 32-bit and a 16-bit field.\<close>

definition join_size :: "u32 \<Rightarrow> u16 \<Rightarrow> u64" where
  "join_size fsize fsizex = ucast fsize OR push_bit 32 (ucast fsizex)"

definition DelDirEntry_file_size :: "deldir_entry \<Rightarrow> u64" where
  "DelDirEntry_file_size e = join_size (dd_fsize e) (dd_fsizex e)"

definition deldir_entries_per_block :: "u16 \<Rightarrow> nat" where
  "deldir_entries_per_block reserved_blksize =
     (unat reserved_blksize - DELDIR_HEADER_SIZE) div DELDIR_ENTRY_SIZE"

section \<open>Lemmas\<close>

lemma cur32_Ok: "off + 4 \<le> length xs \<Longrightarrow> cur32 xs off = be32 xs off"
  and cur16_Ok: "off + 2 \<le> length xs \<Longrightarrow> cur16 xs off = be16 xs off"
  by (simp_all add: cur32_def cur16_def)

lemma cur32_not_Panic [simp]: "cur32 xs off \<noteq> Panic"
  and cur16_not_Panic [simp]: "cur16 xs off \<noteq> Panic"
  by (simp_all add: cur32_def cur16_def)

lemma Anode_parse_nr: "Anode_parse data nr = Ok an \<Longrightarrow> an_nr an = nr"
  by (auto simp: Anode_parse_def bindO_eq_Ok split: if_splits)

lemma Anode_parse_not_Panic: "Anode_parse data nr \<noteq> Panic"
  by (auto simp: Anode_parse_def bindO_eq_Panic)

lemma AnodeBlockHeader_parse_not_Panic: "AnodeBlockHeader_parse data \<noteq> Panic"
  by (auto simp: AnodeBlockHeader_parse_def parse_header_fields_def bindO_eq_Panic)

lemma AnodeBlockHeader_parse_is_ok:
  "is_ok (AnodeBlockHeader_parse data) \<longleftrightarrow> 16 \<le> length data \<and> be16 data 0 = Ok ABLKID"
  by (auto simp: AnodeBlockHeader_parse_def parse_header_fields_def be16_def be32_def)

lemma DelDirEntry_parse_not_Panic: "DelDirEntry_parse data \<noteq> Panic"
  by (auto simp: DelDirEntry_parse_def bindO_eq_Panic sliceO_def)

lemma join_size_split:
  "join_size (ucast s) (ucast (drop_bit 32 s)) = take_bit 48 (s :: u64)"
  unfolding join_size_def
  by (rule bit_word_eqI) (auto simp: bit_simps)

end
