(* ===== verification/Rootblock.thy ===== *)
theory Rootblock
  imports Ondisk
begin

text \<open>
  \<^verbatim>\<open>crates/libpfs3/src/ondisk/rootblock.rs\<close>: the rootblock (the superblock at block 2 of the
  partition) and its extension block.
\<close>

definition RB_OFF_DATESTAMP :: nat where "RB_OFF_DATESTAMP = 0x08"
definition RB_OFF_DISKNAME :: nat where "RB_OFF_DISKNAME = 0x14"
definition RB_OFF_LASTRESERVED :: nat where "RB_OFF_LASTRESERVED = 0x34"
definition RB_OFF_RESERVED_FREE :: nat where "RB_OFF_RESERVED_FREE = 0x3C"
definition RB_OFF_BLOCKSFREE :: nat where "RB_OFF_BLOCKSFREE = 0x44"
definition RB_OFF_INDEX_UNION :: nat where "RB_OFF_INDEX_UNION = 0x60"

lemmas rb_off_defs = RB_OFF_DATESTAMP_def RB_OFF_DISKNAME_def RB_OFF_LASTRESERVED_def
  RB_OFF_RESERVED_FREE_def RB_OFF_BLOCKSFREE_def RB_OFF_INDEX_UNION_def

record rootblock =
  rb_disktype :: u32
  rb_options :: u32
  rb_datestamp :: u32
  rb_creation_day :: u16
  rb_creation_minute :: u16
  rb_creation_tick :: u16
  rb_protection :: u16
  rb_diskname :: rstr
  rb_lastreserved :: u32
  rb_firstreserved :: u32
  rb_reserved_free :: u32
  rb_reserved_blksize :: u16
  rb_rblkcluster :: u16
  rb_blocksfree :: u32
  rb_alwaysfree :: u32
  rb_roving_ptr :: u32
  rb_deldir :: u32
  rb_disksize :: u32
  rb_extension :: u32
  rb_bitmapindex :: "u32 list"
  rb_indexblocks :: "u32 list"

text \<open>\<open>for i in 0..n { if off + 4 <= data.len() { v.push(..) } }\<close> with \<open>off = base + i * 4\<close>.\<close>

definition read_u32s :: "bytes \<Rightarrow> nat \<Rightarrow> nat \<Rightarrow> u32 list outcome" where
  "read_u32s data base n =
     mapO (\<lambda>i. be32 data (base + i * 4)) (filter (\<lambda>i. base + i * 4 + 4 \<le> length data) [0..<n])"

definition Rootblock_parse :: "bytes \<Rightarrow> rootblock outcome" where
  "Rootblock_parse data =
     (if length data < RB_OFF_INDEX_UNION then Err (TooShort ''rootblock'')
      else
        bindO (cur32 data 0) (\<lambda>disktype.
        if disktype \<notin> set PFS_TYPES then Err (BadMagic ''rootblock'' disktype)
        else
        bindO (cur32 data 4) (\<lambda>options.
        bindO (cur32 data 8) (\<lambda>datestamp.
        bindO (cur16 data 12) (\<lambda>creation_day.
        bindO (cur16 data 14) (\<lambda>creation_minute.
        bindO (cur16 data 16) (\<lambda>creation_tick.
        bindO (cur16 data 18) (\<lambda>protection.
        bindO (idx data RB_OFF_DISKNAME) (\<lambda>nl.
        let namelen = min (unat nl) 31 in
        bindO (sliceO data (RB_OFF_DISKNAME + 1) (RB_OFF_DISKNAME + 1 + namelen)) (\<lambda>dn.
        bindO (cur32 data RB_OFF_LASTRESERVED) (\<lambda>lastreserved.
        bindO (cur32 data (RB_OFF_LASTRESERVED + 4)) (\<lambda>firstreserved.
        bindO (cur32 data (RB_OFF_LASTRESERVED + 8)) (\<lambda>reserved_free.
        bindO (cur16 data (RB_OFF_LASTRESERVED + 12)) (\<lambda>reserved_blksize.
        bindO (cur16 data (RB_OFF_LASTRESERVED + 14)) (\<lambda>rblkcluster.
        bindO (cur32 data (RB_OFF_LASTRESERVED + 16)) (\<lambda>blocksfree.
        bindO (cur32 data (RB_OFF_LASTRESERVED + 20)) (\<lambda>alwaysfree.
        bindO (cur32 data (RB_OFF_LASTRESERVED + 24)) (\<lambda>roving_ptr.
        bindO (cur32 data (RB_OFF_LASTRESERVED + 28)) (\<lambda>deldir.
        bindO (cur32 data (RB_OFF_LASTRESERVED + 32)) (\<lambda>disksize.
        bindO (cur32 data (RB_OFF_LASTRESERVED + 36)) (\<lambda>extension.
        let is_large = (options AND MODE_SUPERINDEX \<noteq> 0);
            idx_base = RB_OFF_INDEX_UNION;
            idx_start = idx_base + (MAXSMALLBITMAPINDEX + 1) * 4
        in
        bindO (read_u32s data idx_base
                 (if is_large then MAXBITMAPINDEX + 1 else MAXSMALLBITMAPINDEX + 1)) (\<lambda>bitmapindex.
        bindO (if is_large then Ok [] else read_u32s data idx_start (MAXSMALLINDEXNR + 1)) (\<lambda>indexblocks.
          Ok \<lparr>rb_disktype = disktype, rb_options = options, rb_datestamp = datestamp,
              rb_creation_day = creation_day, rb_creation_minute = creation_minute,
              rb_creation_tick = creation_tick, rb_protection = protection,
              rb_diskname = latin1_to_string dn, rb_lastreserved = lastreserved,
              rb_firstreserved = firstreserved, rb_reserved_free = reserved_free,
              rb_reserved_blksize = reserved_blksize, rb_rblkcluster = rblkcluster,
              rb_blocksfree = blocksfree, rb_alwaysfree = alwaysfree, rb_roving_ptr = roving_ptr,
              rb_deldir = deldir, rb_disksize = disksize, rb_extension = extension,
              rb_bitmapindex = bitmapindex, rb_indexblocks = indexblocks\<rparr>)))))))))))))))))))))))"

definition has_flag :: "rootblock \<Rightarrow> u32 \<Rightarrow> bool" where
  "has_flag rb flag \<longleftrightarrow> rb_options rb AND flag \<noteq> 0"

definition index_per_block :: "rootblock \<Rightarrow> u32" where
  "index_per_block rb = sat_sub32 (ucast (rb_reserved_blksize rb) div 4) 3"

definition anodes_per_block :: "rootblock \<Rightarrow> u32" where
  "anodes_per_block rb =
     sat_sub32 (ucast (rb_reserved_blksize rb)) (of_nat ANODE_BLOCK_HEADER_SIZE) div of_nat ANODE_SIZE"

definition is_large :: "rootblock \<Rightarrow> bool" where
  "is_large rb = has_flag rb MODE_SUPERINDEX"

definition has_extension :: "rootblock \<Rightarrow> bool" where
  "has_extension rb \<longleftrightarrow> has_flag rb MODE_EXTENSION \<and> rb_extension rb \<noteq> 0"

definition has_longfn :: "rootblock \<Rightarrow> bool" where
  "has_longfn rb = has_flag rb MODE_LONGFN"

definition has_largefile :: "rootblock \<Rightarrow> bool" where
  "has_largefile rb = has_flag rb MODE_LARGEFILE"

definition is_splitted_anodes :: "rootblock \<Rightarrow> bool" where
  "is_splitted_anodes rb = has_flag rb MODE_SPLITTED_ANODES"

fun join_with :: "rstr \<Rightarrow> rstr list \<Rightarrow> rstr" where
  "join_with sep [] = []"
| "join_with sep [s] = s"
| "join_with sep (s # ss) = s @ sep @ join_with sep ss"

definition flags_string :: "rootblock \<Rightarrow> rstr" where
  "flags_string rb =
     (let names =
        [(MODE_HARDDISK, ''HARDDISK''), (MODE_SPLITTED_ANODES, ''SPLITTED_ANODES''),
         (MODE_DIR_EXTENSION, ''DIR_EXTENSION''), (MODE_DELDIR, ''DELDIR''),
         (MODE_SIZEFIELD, ''SIZEFIELD''), (MODE_EXTENSION, ''EXTENSION''),
         (MODE_DATESTAMP, ''DATESTAMP''), (MODE_SUPERINDEX, ''SUPERINDEX''),
         (MODE_SUPERDELDIR, ''SUPERDELDIR''), (MODE_EXTROVING, ''EXTROVING''),
         (MODE_LONGFN, ''LONGFN''), (MODE_LARGEFILE, ''LARGEFILE'')]
      in join_with (rs '' | '')
           (map (\<lambda>(f, n). rs n) (filter (\<lambda>(f, n). rb_options rb AND f \<noteq> 0) names)))"

section \<open>The extension block\<close>

record rootblock_ext =
  rx_id :: u16
  rx_ext_options :: u32
  rx_datestamp :: u32
  rx_pfs2version :: u32
  rx_root_date :: "u16 \<times> u16 \<times> u16"
  rx_volume_date :: "u16 \<times> u16 \<times> u16"
  rx_reserved_roving :: u32
  rx_fnsize :: u16
  rx_superindex :: "u32 list"
  rx_deldirblocks :: "u32 list"

definition cur16x3 :: "bytes \<Rightarrow> nat \<Rightarrow> (u16 \<times> u16 \<times> u16) outcome" where
  "cur16x3 data off =
     bindO (cur16 data off) (\<lambda>a. bindO (cur16 data (off + 2)) (\<lambda>b. bindO (cur16 data (off + 4)) (\<lambda>c.
       Ok (a, b, c))))"

definition RootblockExt_parse :: "bytes \<Rightarrow> rootblock_ext outcome" where
  "RootblockExt_parse data =
     (if length data < 0x40 then Err (TooShort ''rootblock extension'')
      else
        bindO (be16 data 0) (\<lambda>id.
        if id \<noteq> EXTENSIONID then Err (BadBlockId ''rootblock extension'' EXTENSIONID id)
        else
        bindO (cur32 data 4) (\<lambda>ext_options.
        bindO (cur32 data 8) (\<lambda>datestamp.
        bindO (cur32 data 12) (\<lambda>pfs2version.
        bindO (cur16x3 data 16) (\<lambda>root_date.
        bindO (cur16x3 data 22) (\<lambda>volume_date.
        bindO (be32 data 0x2C) (\<lambda>reserved_roving.
        bindO (be16 data 0x38) (\<lambda>fnsize0.
        let fnsize = (if fnsize0 = 0 then 32 else fnsize0) in
        bindO (read_u32s data 0x40 (MAXSUPER + 1)) (\<lambda>superindex.
        bindO (read_u32s data 0x90 32) (\<lambda>deldirblocks.
          Ok \<lparr>rx_id = id, rx_ext_options = ext_options, rx_datestamp = datestamp,
              rx_pfs2version = pfs2version, rx_root_date = root_date,
              rx_volume_date = volume_date, rx_reserved_roving = reserved_roving,
              rx_fnsize = fnsize, rx_superindex = superindex,
              rx_deldirblocks = deldirblocks\<rparr>)))))))))))"

section \<open>Lemmas\<close>

lemma read_u32s_eq:
  "read_u32s data base n =
     Ok (map (\<lambda>i. the_ok (be32 data (base + i * 4)))
          (filter (\<lambda>i. base + i * 4 + 4 \<le> length data) [0..<n]))"
  unfolding read_u32s_def by (rule mapO_Ok) (auto simp: be32_def)

lemma read_u32s_nth:
  assumes "read_u32s data base n = Ok vs" "i < n" "base + n * 4 \<le> length data"
  shows "i < length vs" and "be32 data (base + i * 4) = Ok (vs ! i)"
proof -
  have "filter (\<lambda>i. base + i * 4 + 4 \<le> length data) [0..<n] = [0..<n]"
    using assms(3) by (intro filter_True) auto
  with assms(1) have vs: "vs = map (\<lambda>i. the_ok (be32 data (base + i * 4))) [0..<n]"
    by (simp add: read_u32s_eq)
  show "i < length vs" using vs assms(2) by simp
  show "be32 data (base + i * 4) = Ok (vs ! i)"
    using vs assms(2,3) by (simp add: be32_def)
qed

text \<open>Opening an image relies on every rootblock and every extension block being parsed or refused.\<close>

lemma Rootblock_parse_cases:
  "Rootblock_parse data =
     (if length data < 0x60 then Err (TooShort ''rootblock'')
      else if the_ok (be32 data 0) \<in> set PFS_TYPES then Ok (the_ok (Rootblock_parse data))
      else Err (BadMagic ''rootblock'' (the_ok (be32 data 0))))"
  by (simp add: Rootblock_parse_def rb_off_defs cur32_def cur16_def be32_def be16_def idx_def
      sliceO_def read_u32s_eq Let_def) (auto simp: min_def)

lemma Rootblock_parse_fields:
  assumes "Rootblock_parse data = Ok rb"
  shows "cur32 data 4 = Ok (rb_options rb)"
    "cur32 data (RB_OFF_LASTRESERVED + 8) = Ok (rb_reserved_free rb)"
    "cur16 data (RB_OFF_LASTRESERVED + 12) = Ok (rb_reserved_blksize rb)"
    "cur16 data (RB_OFF_LASTRESERVED + 14) = Ok (rb_rblkcluster rb)"
    "cur32 data (RB_OFF_LASTRESERVED + 16) = Ok (rb_blocksfree rb)"
    "cur32 data RB_OFF_LASTRESERVED = Ok (rb_lastreserved rb)"
    "cur32 data (RB_OFF_LASTRESERVED + 4) = Ok (rb_firstreserved rb)"
    "cur32 data (RB_OFF_LASTRESERVED + 32) = Ok (rb_disksize rb)"
    "cur32 data (RB_OFF_LASTRESERVED + 36) = Ok (rb_extension rb)"
    "\<exists>nl dn. idx data RB_OFF_DISKNAME = Ok nl \<and>
       sliceO data (RB_OFF_DISKNAME + 1) (RB_OFF_DISKNAME + 1 + min (unat nl) 31) = Ok dn \<and>
       rb_diskname rb = latin1_to_string dn"
  using assms unfolding Rootblock_parse_def Let_def
  by (auto simp: bindO_eq_Ok split: if_splits)

lemma RootblockExt_parse_cases:
  "RootblockExt_parse data =
     (if length data < 0x40 then Err (TooShort ''rootblock extension'')
      else if be16 data 0 = Ok EXTENSIONID then Ok (the_ok (RootblockExt_parse data))
      else Err (BadBlockId ''rootblock extension'' EXTENSIONID (the_ok (be16 data 0))))"
  by (auto simp: RootblockExt_parse_def cur32_def cur16_def cur16x3_def be32_def be16_def
      read_u32s_eq Let_def)

text \<open>
  The parsers of the rootblock and of its extension never panic, whatever the bytes: a block
  that is too short or has the wrong magic number or identifier is refused with the error that
  says so, and every other block is accepted.
\<close>

lemma rootblock_parsers_total:
  "(Rootblock_parse data =
     (if length data < 0x60 then Err (TooShort ''rootblock'')
      else if the_ok (be32 data 0) \<in> set PFS_TYPES then Ok (the_ok (Rootblock_parse data))
      else Err (BadMagic ''rootblock'' (the_ok (be32 data 0))))) \<and>
   (RootblockExt_parse data =
     (if length data < 0x40 then Err (TooShort ''rootblock extension'')
      else if be16 data 0 = Ok EXTENSIONID then Ok (the_ok (RootblockExt_parse data))
      else Err (BadBlockId ''rootblock extension'' EXTENSIONID (the_ok (be16 data 0)))))"
  using Rootblock_parse_cases RootblockExt_parse_cases by blast

lemma unat_index_per_block: "unat (index_per_block rb) = unat (rb_reserved_blksize rb) div 4 - 3"
  by (simp add: index_per_block_def sat_sub32_def word_less_nat_alt unat_sub_if' unat_div
      unat_ucast_up_simp)

lemma unat_anodes_per_block: "unat (anodes_per_block rb) = (unat (rb_reserved_blksize rb) - 16) div 12"
  by (simp add: anodes_per_block_def sat_sub32_def size_defs word_less_nat_alt unat_sub_if' unat_div
      unat_ucast_up_simp)

text \<open>
  For the reserved block sizes that opening a volume accepts (at least 64 bytes) both geometry
  numbers are positive, so no later division is by zero, and the last index entry and the last
  anode slot they allow still lie inside a reserved block.
\<close>

lemma geometry_fits:
  assumes "64 \<le> rb_reserved_blksize rb"
  shows "0 < index_per_block rb \<and> 0 < anodes_per_block rb \<and>
    INDEX_BLOCK_HEADER_SIZE + unat (index_per_block rb) * 4 \<le> unat (rb_reserved_blksize rb) \<and>
    ANODE_BLOCK_HEADER_SIZE + unat (anodes_per_block rb) * ANODE_SIZE \<le> unat (rb_reserved_blksize rb)"
proof -
  define r where "r = unat (rb_reserved_blksize rb)"
  have r: "64 \<le> r" using assms by (simp add: word_le_nat_alt r_def)
  have "0 < r div 4 - 3" using r by arith
  moreover have "0 < (r - 16) div 12" using r by arith
  moreover have "12 + (r div 4 - 3) * 4 \<le> r" using r by arith
  moreover have "16 + (r - 16) div 12 * 12 \<le> r" using r by arith
  ultimately show ?thesis
    by (simp add: word_less_nat_alt unat_index_per_block unat_anodes_per_block size_defs r_def)
qed

definition sample_rootblock :: rootblock where
  "sample_rootblock =
     \<lparr>rb_disktype = ID_PFS_DISK, rb_options = 0x667, rb_datestamp = 1, rb_creation_day = 0,
      rb_creation_minute = 0, rb_creation_tick = 0, rb_protection = 0xF0, rb_diskname = rs ''Work'',
      rb_lastreserved = 65, rb_firstreserved = 2, rb_reserved_free = 26,
      rb_reserved_blksize = 1024, rb_rblkcluster = 2, rb_blocksfree = 34, rb_alwaysfree = 1,
      rb_roving_ptr = 0, rb_deldir = 0, rb_disksize = 100, rb_extension = 4,
      rb_bitmapindex = [8, 0, 0, 0, 0], rb_indexblocks = [10]\<rparr>"

end
