(* ===== verification/Cache.thy ===== *)
theory Cache
  imports Device "HOL-Library.AList"
begin

text \<open>
  \<^verbatim>\<open>crates/libpfs3/src/cache.rs\<close>: the cache of reserved blocks.  The \<open>HashMap\<close> is an
  association list; nothing the cache returns depends on the order of its entries, since the
  entry evicted is the one with the least generation, and generations are distinct until the 64-bit
  counter, which grows by one with every access, wraps.
\<close>

definition DEFAULT_CAPACITY :: nat where "DEFAULT_CAPACITY = 256"

record cache_entry =
  ce_data :: bytes
  ce_generation :: u64

record block_cache =
  bc_entries :: "(nat \<times> cache_entry) list"
  bc_generation :: u64
  bc_capacity :: nat

definition BlockCache_new :: block_cache where
  "BlockCache_new = \<lparr>bc_entries = [], bc_generation = 0, bc_capacity = DEFAULT_CAPACITY\<rparr>"

definition invalidate :: "nat \<Rightarrow> block_cache \<Rightarrow> block_cache" where
  "invalidate block c = c\<lparr>bc_entries := AList.delete block (bc_entries c)\<rparr>"

text \<open>\<open>iter().min_by_key(|(_, e)| e.generation)\<close>\<close>

fun oldest_entry :: "(nat \<times> cache_entry) list \<Rightarrow> (nat \<times> cache_entry) option" where
  "oldest_entry [] = None"
| "oldest_entry (x # xs) =
     (case oldest_entry xs of None \<Rightarrow> Some x
      | Some y \<Rightarrow> if ce_generation (snd x) \<le> ce_generation (snd y) then Some x else Some y)"

definition evict :: "block_cache \<Rightarrow> block_cache" where
  "evict c =
     (if bc_capacity c \<le> length (bc_entries c)
      then (case oldest_entry (bc_entries c) of
              Some (k, _) \<Rightarrow> c\<lparr>bc_entries := AList.delete k (bc_entries c)\<rparr>
            | None \<Rightarrow> c)
      else c)"

text \<open>The read that fills the cache, straight from the device.\<close>

definition dev_reserved :: "device \<Rightarrow> nat \<Rightarrow> u16 \<Rightarrow> bytes outcome" where
  "dev_reserved d block reserved_blksize =
     bindO (divO (ucast reserved_blksize) (block_size d)) (\<lambda>q.
       let sectors = max (unat q) 1;
           buf = replicate (unat reserved_blksize) 0
       in read_blocks d block sectors buf)"

definition read_reserved :: "device \<Rightarrow> nat \<Rightarrow> u16 \<Rightarrow> (block_cache, bytes) rm" where
  "read_reserved d block reserved_blksize c =
     (let g = bc_generation c + 1;
          c = c\<lparr>bc_generation := g\<rparr>
      in case map_of (bc_entries c) block of
           Some e \<Rightarrow>
             (Ok (ce_data e),
              c\<lparr>bc_entries := AList.update block (e\<lparr>ce_generation := g\<rparr>) (bc_entries c)\<rparr>)
         | None \<Rightarrow>
             (case dev_reserved d block reserved_blksize of
                Ok buf \<Rightarrow>
                  let c = evict c in
                  (Ok buf,
                   c\<lparr>bc_entries := (block, \<lparr>ce_data = buf, ce_generation = g\<rparr>) # bc_entries c\<rparr>)
              | Err e \<Rightarrow> (Err e, c)
              | Panic \<Rightarrow> (Panic, c)))"

section \<open>The contract of a store of reserved blocks\<close>

text \<open>
  What the anode, bitmap and directory readers rely on: from a coherent state, reading block
  \<open>b\<close> returns what \<open>src b\<close> says and stays coherent.
\<close>

locale reserved_store =
  fixes rd :: "nat \<Rightarrow> ('c, bytes) rm"
    and src :: "nat \<Rightarrow> bytes outcome"
    and coh :: "'c \<Rightarrow> bool"
  assumes rd_src: "coh c \<Longrightarrow> fst (rd b c) = src b"
    and rd_coh: "coh c \<Longrightarrow> coh (snd (rd b c))"
begin

lemma rd_transparent: "transparent coh (rd b) (src b)"
  by (simp add: transparent_def rd_src rd_coh)

lemma rd_bind_transparent:
  assumes "\<And>x. src b = Ok x \<Longrightarrow> transparent coh (f x) (g x)"
  shows "transparent coh (bindM (rd b) f) (bindO (src b) g)"
  using transparent_bind [OF rd_transparent assms] .

lemma rd_twice: "coh c \<Longrightarrow> fst (rd b (snd (rd a c))) = fst (rd b c)"
  by (simp add: rd_src rd_coh)

end

section \<open>The cache keeps its contract\<close>

text \<open>Every cached block is what the device holds.\<close>

definition coherent :: "device \<Rightarrow> u16 \<Rightarrow> block_cache \<Rightarrow> bool" where
  "coherent d rbs c \<longleftrightarrow> (\<forall>(b, e) \<in> set (bc_entries c). dev_reserved d b rbs = Ok (ce_data e))"

text \<open>
  Shape of the cache: one entry per block, at most the capacity, and generations that order the
  entries by their last use.
\<close>

definition cache_wf :: "block_cache \<Rightarrow> bool" where
  "cache_wf c \<longleftrightarrow> distinct (map fst (bc_entries c)) \<and>
     distinct (map (ce_generation \<circ> snd) (bc_entries c)) \<and>
     (\<forall>(b, e) \<in> set (bc_entries c). ce_generation e \<le> bc_generation c) \<and>
     0 < bc_capacity c \<and> length (bc_entries c) \<le> bc_capacity c"

lemma coherent_new: "coherent d rbs BlockCache_new"
  and cache_wf_new: "cache_wf BlockCache_new"
  by (simp_all add: coherent_def cache_wf_def BlockCache_new_def DEFAULT_CAPACITY_def)

lemma set_delete_subset: "set (AList.delete k al) \<subseteq> set al"
  by (auto simp: AList.delete_eq)

lemma coherent_invalidate: "coherent d rbs c \<Longrightarrow> coherent d rbs (invalidate b c)"
  using set_delete_subset by (fastforce simp: coherent_def invalidate_def)

lemma evict_cases:
  "evict c = c \<or> (\<exists>k. evict c = c\<lparr>bc_entries := AList.delete k (bc_entries c)\<rparr>)"
  by (auto simp: evict_def split: option.splits)

lemma set_evict: "set (bc_entries (evict c)) \<subseteq> set (bc_entries c)"
  using evict_cases [of c] set_delete_subset by fastforce

lemma set_update_entry: "set (AList.update k v al) \<subseteq> insert (k, v) (set al)"
  by (induction al) auto

lemma coherent_update:
  assumes "coherent d rbs c" "map_of (bc_entries c) b = Some e"
  shows "coherent d rbs (c\<lparr>bc_generation := g,
    bc_entries := AList.update b (e\<lparr>ce_generation := g\<rparr>) (bc_entries c)\<rparr>)"
proof -
  have "dev_reserved d b rbs = Ok (ce_data e)"
    using assms map_of_SomeD by (fastforce simp: coherent_def)
  then show ?thesis
    using assms(1) set_update_entry [of b "e\<lparr>ce_generation := g\<rparr>" "bc_entries c"]
    by (fastforce simp: coherent_def)
qed

lemma read_reserved_coherent:
  assumes "coherent d rbs c"
  shows "fst (read_reserved d b rbs c) = dev_reserved d b rbs"
    and "coherent d rbs (snd (read_reserved d b rbs c))"
proof -
  show "fst (read_reserved d b rbs c) = dev_reserved d b rbs"
  proof (cases "map_of (bc_entries c) b")
    case (Some e)
    with assms have "dev_reserved d b rbs = Ok (ce_data e)"
      using map_of_SomeD by (fastforce simp: coherent_def)
    with Some show ?thesis by (simp add: read_reserved_def Let_def)
  qed (simp add: read_reserved_def Let_def split: outcome.splits)
  have sub: "set (bc_entries (evict (c\<lparr>bc_generation := g\<rparr>))) \<subseteq> set (bc_entries c)" for g
    using set_evict [of "c\<lparr>bc_generation := g\<rparr>"] by simp
  show "coherent d rbs (snd (read_reserved d b rbs c))"
  proof (cases "map_of (bc_entries c) b")
    case (Some e)
    with coherent_update [OF assms Some, of "bc_generation c + 1"] show ?thesis
      by (simp add: read_reserved_def Let_def)
  next
    case None
    then show ?thesis
      using assms sub [of "bc_generation c + 1"]
      by (fastforce simp: read_reserved_def Let_def coherent_def split: outcome.splits)
  qed
qed

interpretation cached: reserved_store "\<lambda>b. read_reserved d b rbs" "\<lambda>b. dev_reserved d b rbs"
  "coherent d rbs" for d rbs
  by unfold_locales (simp_all add: read_reserved_coherent)

text \<open>
  C36. The cache cannot be observed: from a coherent cache, reading a reserved block returns exactly
  what reading the device returns, error or panic included, and leaves the cache coherent.
\<close>

theorem cache_transparent:
  assumes "coherent d rbs c"
  shows "fst (read_reserved d b rbs c) = dev_reserved d b rbs \<and>
    coherent d rbs (snd (read_reserved d b rbs c))"
  using cached.rd_src [OF assms] cached.rd_coh [OF assms] by simp

theorem cache_transparent_witness:
  "coherent (create 2 4) 4 BlockCache_new \<and>
   fst (read_reserved (create 2 4) 1 4 BlockCache_new) = Ok [0, 0, 0, 0]"
proof -
  have c: "coherent (create 2 4) 4 BlockCache_new" by (rule coherent_new)
  have "dev_reserved (create 2 4) 1 4 = Ok [0, 0, 0, 0]"
    by (simp add: dev_reserved_def divO_def block_size_def create_def read_blocks_def
        byte_offset_def splice_eq bslice_def) (simp add: numeral_eq_Suc)
  with cache_transparent [OF c, of 1] c show ?thesis by simp
qed

end
