(* ===== verification/Cache_Lru.thy ===== *)
theory Cache_Lru
  imports Cache "HOL-Library.Multiset"
begin

text \<open>
  The replacement policy of the cache (\<^verbatim>\<open>cache.rs\<close>): a sequence of reads leaves the blocks that a least
  recently used policy keeps, stated without generation numbers.
\<close>

section \<open>Capacity and replacement\<close>

lemma oldest_entry_None: "oldest_entry xs = None \<longleftrightarrow> xs = []"
  by (cases xs) (auto split: option.splits)

lemma oldest_entry_Some:
  "oldest_entry xs = Some y \<Longrightarrow>
   y \<in> set xs \<and> (\<forall>x \<in> set xs. ce_generation (snd y) \<le> ce_generation (snd x))"
proof (induction xs arbitrary: y)
  case (Cons x xs)
  then show ?case
    by (cases "oldest_entry xs") (force simp: oldest_entry_None split: if_splits)+
qed simp

lemma length_delete_mem:
  "distinct (map fst al) \<Longrightarrow> k \<in> fst ` set al \<Longrightarrow> Suc (length (AList.delete k al)) = length al"
proof (induction al)
  case (Cons x al)
  then show ?case
    by (cases "fst x = k") (cases x; auto simp: AList.delete_idem)+
qed simp

lemma distinct_map_delete: "distinct (map f al) \<Longrightarrow> distinct (map f (AList.delete k al))"
  by (simp add: AList.delete_eq distinct_map_filter)

lemma oldest_entry_full:
  assumes "cache_wf c" "bc_capacity c \<le> length (bc_entries c)"
  obtains k e where "oldest_entry (bc_entries c) = Some (k, e)"
proof -
  have "bc_entries c \<noteq> []" using assms by (auto simp: cache_wf_def)
  then show thesis
    using that oldest_entry_None [of "bc_entries c"] by (cases "oldest_entry (bc_entries c)") auto
qed

lemma length_evict:
  assumes "cache_wf c"
  shows "length (bc_entries (evict c)) < bc_capacity c"
proof (cases "bc_capacity c \<le> length (bc_entries c)")
  case True
  with assms obtain k e where o: "oldest_entry (bc_entries c) = Some (k, e)"
    by (rule oldest_entry_full)
  then have "k \<in> fst ` set (bc_entries c)"
    using oldest_entry_Some by force
  with assms True o show ?thesis
    using length_delete_mem [of "bc_entries c" k] by (simp add: evict_def cache_wf_def)
qed (simp add: evict_def)

lemma cache_wf_evict: "cache_wf c \<Longrightarrow> cache_wf (evict c)"
  using evict_cases [of c] set_evict [of c] length_evict [of c]
  by (fastforce simp: cache_wf_def distinct_map_delete)

text \<open>Until the counter wraps, the next generation is greater than all that were given out.\<close>

lemma next_generation:
  assumes "cache_wf c" "bc_generation c \<noteq> - 1"
  shows "bc_generation c < bc_generation c + 1"
    and "x \<in> set (bc_entries c) \<Longrightarrow> ce_generation (snd x) < bc_generation c + 1"
proof -
  have "1 + bc_generation c \<noteq> 0" using assms(2) by (metis add_eq_0_iff)
  then have "unat (bc_generation c + 1) = Suc (unat (bc_generation c))" by (simp add: unatSuc add.commute)
  then show lt: "bc_generation c < bc_generation c + 1" by (simp add: word_less_nat_alt)
  show "ce_generation (snd x) < bc_generation c + 1" if "x \<in> set (bc_entries c)"
    using that assms(1) by (intro le_less_trans [OF _ lt]) (auto simp: cache_wf_def)
qed

text \<open>What the three ways to use a block do to the entries: one entry is new or refreshed, some may be gone.\<close>

definition kept_entries :: "nat \<Rightarrow> block_cache \<Rightarrow> (nat \<times> cache_entry) list" where
  "kept_entries b c =
     (if b \<in> fst ` set (bc_entries c) then AList.delete b (bc_entries c) else bc_entries (evict c))"

lemma mset_update:
  "distinct (map fst al) \<Longrightarrow> b \<in> fst ` set al \<Longrightarrow>
   mset (AList.update b v al) = add_mset (b, v) (mset (AList.delete b al))"
proof (induction al)
  case (Cons x al)
  then show ?case by (cases x) (auto simp: AList.delete_idem)
qed simp

lemma evict_generation: "evict (c\<lparr>bc_generation := g\<rparr>) = (evict c)\<lparr>bc_generation := g\<rparr>"
  by (auto simp: evict_def split: option.splits)

lemma evict_fields [simp]: "bc_generation (evict c) = bc_generation c" "bc_capacity (evict c) = bc_capacity c"
  using evict_cases [of c] by auto

lemma read_reserved_entries:
  assumes "cache_wf c" "b \<in> fst ` set (bc_entries c) \<or> is_ok (dev_reserved d b rbs)"
  obtains e where "ce_generation e = bc_generation c + 1"
    "mset (bc_entries (snd (read_reserved d b rbs c))) = add_mset (b, e) (mset (kept_entries b c))"
proof (cases "map_of (bc_entries c) b")
  case None
  then have nb: "b \<notin> fst ` set (bc_entries c)" by (simp add: map_of_eq_None_iff)
  with assms(2) obtain buf where "dev_reserved d b rbs = Ok buf" by (auto simp: is_ok_iff)
  with None nb show thesis
    by (intro that [of "\<lparr>ce_data = buf, ce_generation = bc_generation c + 1\<rparr>"])
      (simp_all add: read_reserved_def Let_def kept_entries_def evict_generation)
next
  case (Some e)
  then have "b \<in> fst ` set (bc_entries c)" by (metis domI dom_map_of_conv_image_fst)
  with Some assms(1) show thesis
    by (intro that [of "e\<lparr>ce_generation := bc_generation c + 1\<rparr>"])
      (simp_all add: read_reserved_def Let_def kept_entries_def mset_update cache_wf_def)
qed

lemma read_reserved_error:
  assumes "b \<notin> fst ` set (bc_entries c)" "\<not> is_ok (dev_reserved d b rbs)"
  shows "bc_entries (snd (read_reserved d b rbs c)) = bc_entries c"
  using assms by (auto simp: read_reserved_def Let_def is_ok_iff map_of_eq_None_iff [THEN iffD2] split: outcome.splits)

lemma read_reserved_fields [simp]:
  "bc_generation (snd (read_reserved d b rbs c)) = bc_generation c + 1"
  "bc_capacity (snd (read_reserved d b rbs c)) = bc_capacity c"
  by (auto simp: read_reserved_def Let_def split: option.splits outcome.splits)

lemma kept_entries_subset: "set (kept_entries b c) \<subseteq> set (bc_entries c)"
  using set_evict [of c] set_delete_subset [of b "bc_entries c"] by (simp add: kept_entries_def)

lemma kept_entries_new: "b \<notin> fst ` set (kept_entries b c)"
  using set_evict [of c] by (auto simp: kept_entries_def AList.delete_eq)

lemma kept_entries_distinct: "cache_wf c \<Longrightarrow> distinct (map f (bc_entries c)) \<Longrightarrow> distinct (map f (kept_entries b c))"
  using evict_cases [of c] by (auto simp: kept_entries_def distinct_map_delete)

lemma length_kept_entries:
  assumes "cache_wf c"
  shows "length (kept_entries b c) < bc_capacity c"
proof (cases "b \<in> fst ` set (bc_entries c)")
  case True
  with assms length_delete_mem [OF _ True] show ?thesis by (simp add: kept_entries_def cache_wf_def Suc_le_eq)
qed (simp add: kept_entries_def length_evict assms)

lemma mset_map_cons: "mset ys = add_mset x (mset xs) \<Longrightarrow> distinct (map f ys) \<longleftrightarrow> distinct (map f (x # xs))"
  by (metis mset.simps(2) mset_eq_imp_distinct_iff mset_map)

lemma cache_wf_read:
  assumes "cache_wf c" "bc_generation c \<noteq> - 1"
  shows "cache_wf (snd (read_reserved d b rbs c))"
proof (cases "b \<in> fst ` set (bc_entries c) \<or> is_ok (dev_reserved d b rbs)")
  case True
  let ?c = "snd (read_reserved d b rbs c)"
  obtain e where e: "ce_generation e = bc_generation c + 1"
      and m: "mset (bc_entries ?c) = add_mset (b, e) (mset (kept_entries b c))"
    by (rule read_reserved_entries [OF assms(1) True])
  note gen = next_generation [OF assms]
  have old: "ce_generation (snd x) < bc_generation c + 1" if "x \<in> set (kept_entries b c)" for x
    using gen(2) kept_entries_subset that by blast
  have "set (bc_entries ?c) = insert (b, e) (set (kept_entries b c))"
    using m by (metis set_mset_add_mset_insert set_mset_mset)
  then have "\<forall>(b, e) \<in> set (bc_entries ?c). ce_generation e \<le> bc_generation c + 1"
    using e old by (auto simp: less_imp_le)
  moreover have "bc_generation c + 1 \<notin> (ce_generation \<circ> snd) ` set (kept_entries b c)"
    using old [THEN less_imp_neq] by force
  moreover have "distinct (map fst (kept_entries b c))" "distinct (map (ce_generation \<circ> snd) (kept_entries b c))"
    by (rule kept_entries_distinct [OF assms(1)], use assms(1) in \<open>simp add: cache_wf_def\<close>)+
  ultimately have "distinct (map fst (bc_entries ?c))" "distinct (map (ce_generation \<circ> snd) (bc_entries ?c))"
      "\<forall>(b, e) \<in> set (bc_entries ?c). ce_generation e \<le> bc_generation c + 1"
    using kept_entries_new [of b c] e by (simp_all add: mset_map_cons [OF m])
  moreover have "length (bc_entries ?c) = Suc (length (kept_entries b c))"
    using arg_cong [OF m, of size] by simp
  ultimately show ?thesis using assms(1) length_kept_entries [OF assms(1), of b] by (simp add: cache_wf_def)
next
  case False
  then show ?thesis
    using assms(1) next_generation(2) [OF assms] by (auto simp: cache_wf_def read_reserved_error less_imp_le)
qed

section \<open>The order of use\<close>

text \<open>The blocks in the cache, most recently used first.\<close>

definition recency :: "block_cache \<Rightarrow> nat list" where
  "recency c = rev (map fst (sort_key (ce_generation \<circ> snd) (bc_entries c)))"

lemma set_recency: "set (recency c) = fst ` set (bc_entries c)"
  and length_recency: "length (recency c) = length (bc_entries c)"
  by (simp_all add: recency_def)

lemma distinct_recency: "cache_wf c \<Longrightarrow> distinct (recency c)"
proof -
  have "mset (map fst (sort_key (ce_generation \<circ> snd) (bc_entries c))) = mset (map fst (bc_entries c))" by simp
  then show "cache_wf c \<Longrightarrow> distinct (recency c)"
    unfolding recency_def cache_wf_def distinct_rev by (metis mset_eq_imp_distinct_iff)
qed

lemma sort_key_unique:
  assumes "distinct (map f xs)" "mset ys = mset xs" "sorted (map f ys)"
  shows "sort_key f xs = ys"
proof (rule map_inj_on)
  have "sort (map f xs) = map f ys" by (rule properties_for_sort) (use assms in simp_all)
  moreover have "sort (map f xs) = map f (sort_key f xs)" by (rule properties_for_sort) simp_all
  ultimately show "map f (sort_key f xs) = map f ys" by simp
  have "set ys = set xs" using assms(2) by (rule mset_eq_setD)
  then show "inj_on f (set (sort_key f xs) \<union> set ys)" using assms(1) by (simp add: distinct_map)
qed

lemma sort_key_newest:
  assumes "distinct (map f ys)" "mset ys = add_mset x (mset xs)" "\<And>y. y \<in> set xs \<Longrightarrow> f y < f x"
  shows "sort_key f ys = sort_key f xs @ [x]"
  by (rule sort_key_unique [OF assms(1)]) (use assms(2,3) in \<open>auto simp: sorted_append less_imp_le\<close>)

lemma map_fst_delete: "map fst (AList.delete k al) = removeAll k (map fst al)"
  by (induction al) auto

lemma recency_delete: "rev (map fst (sort_key f (AList.delete k al))) = removeAll k (rev (map fst (sort_key f al)))"
  by (simp add: AList.delete_eq filter_sort [symmetric] map_fst_delete [unfolded AList.delete_eq] rev_filter
      removeAll_filter_not_eq)

lemma removeAll_last: "distinct xs \<Longrightarrow> xs \<noteq> [] \<Longrightarrow> removeAll (last xs) xs = butlast xs"
  by (induction xs rule: rev_induct) auto

lemma recency_evict:
  assumes "cache_wf c"
  shows "rev (map fst (sort_key (ce_generation \<circ> snd) (bc_entries (evict c)))) = take (bc_capacity c - 1) (recency c)"
proof (cases "bc_capacity c \<le> length (bc_entries c)")
  case True
  let ?s = "sort_key (ce_generation \<circ> snd) (bc_entries c)"
  obtain k e where o: "oldest_entry (bc_entries c) = Some (k, e)"
    using assms True by (rule oldest_entry_full)
  have full: "length (bc_entries c) = bc_capacity c" "0 < bc_capacity c" using assms True by (simp_all add: cache_wf_def)
  then obtain x xs where s: "?s = x # xs" by (cases ?s) (auto dest: arg_cong [of _ _ length])
  have set: "set (bc_entries c) = set (x # xs)" using s by (metis set_sort)
  then have "ce_generation (snd x) \<le> ce_generation e"
    using oldest_entry_Some [OF o] sorted_sort_key [of "ce_generation \<circ> snd" "bc_entries c"] s by auto
  moreover have "ce_generation e \<le> ce_generation (snd x)"
    using oldest_entry_Some [OF o] set by force
  ultimately have "(ce_generation \<circ> snd) x = (ce_generation \<circ> snd) (k, e)" by simp
  moreover have "inj_on (ce_generation \<circ> snd) (set (bc_entries c))" using assms by (simp add: cache_wf_def distinct_map)
  ultimately have "x = (k, e)" using oldest_entry_Some [OF o] set by (metis inj_onD list.set_intros(1))
  then have "last (recency c) = k" "recency c \<noteq> []" using s by (simp_all add: recency_def)
  then have "removeAll k (recency c) = butlast (recency c)" using removeAll_last [OF distinct_recency [OF assms]] by blast
  then show ?thesis
    using True o full recency_delete [of "ce_generation \<circ> snd" k "bc_entries c"]
    by (simp add: evict_def recency_def [symmetric] butlast_conv_take length_recency)
next
  case False
  then show ?thesis using assms by (simp add: evict_def length_recency recency_def [symmetric])
qed

text \<open>
  One use of a block in the order of use: the block comes first, and when the cache was full without it, the
  last one is gone.  A read that fails changes nothing.
\<close>

lemma recency_read:
  assumes "cache_wf c" "bc_generation c \<noteq> - 1"
  shows "recency (snd (read_reserved d b rbs c)) =
    (if b \<in> set (recency c) \<or> is_ok (dev_reserved d b rbs)
     then take (bc_capacity c) (b # removeAll b (recency c)) else recency c)"
proof (cases "b \<in> fst ` set (bc_entries c) \<or> is_ok (dev_reserved d b rbs)")
  case True
  let ?f = "ce_generation \<circ> snd" and ?c = "snd (read_reserved d b rbs c)"
  obtain e where e: "ce_generation e = bc_generation c + 1"
      and m: "mset (bc_entries ?c) = add_mset (b, e) (mset (kept_entries b c))"
    by (rule read_reserved_entries [OF assms(1) True])
  have "?f y < ?f (b, e)" if "y \<in> set (kept_entries b c)" for y
    using next_generation(2) [OF assms subsetD [OF kept_entries_subset that]] e by simp
  moreover have "distinct (map ?f (bc_entries ?c))" using cache_wf_read [OF assms] by (simp add: cache_wf_def)
  ultimately have "sort_key ?f (bc_entries ?c) = sort_key ?f (kept_entries b c) @ [(b, e)]"
    using m by (intro sort_key_newest)
  then have new: "recency ?c = b # rev (map fst (sort_key ?f (kept_entries b c)))" by (simp add: recency_def)
  have cap: "0 < bc_capacity c" "length (recency c) \<le> bc_capacity c" using assms(1) by (simp_all add: cache_wf_def length_recency)
  show ?thesis
  proof (cases "b \<in> set (recency c)")
    case mem: True
    then have "rev (map fst (sort_key ?f (kept_entries b c))) = removeAll b (recency c)"
      by (simp add: kept_entries_def set_recency recency_delete recency_def [symmetric])
    moreover have "length (removeAll b (recency c)) < bc_capacity c"
      using cap(2) length_removeAll_less [OF mem] by linarith
    ultimately show ?thesis using mem new by simp
  next
    case False
    then have "rev (map fst (sort_key ?f (kept_entries b c))) = take (bc_capacity c - 1) (recency c)"
      by (simp add: kept_entries_def set_recency recency_evict assms(1))
    then show ?thesis using False new True cap(1) by (auto simp: set_recency take_Cons')
  qed
next
  case False
  then have "recency (snd (read_reserved d b rbs c)) = recency c" by (simp add: recency_def read_reserved_error)
  with False show ?thesis by (simp add: set_recency)
qed

section \<open>The cache after a sequence of reads\<close>

definition after_reads :: "device \<Rightarrow> u16 \<Rightarrow> nat list \<Rightarrow> block_cache" where
  "after_reads d rbs bs = fold (\<lambda>b c. snd (read_reserved d b rbs c)) bs BlockCache_new"

lemma take_removeAll_take:
  "distinct ks \<Longrightarrow> take n (removeAll b (take (Suc n) ks)) = take n (removeAll b ks)"
proof (induction ks arbitrary: n)
  case (Cons k ks)
  then have "k \<notin> set (take m ks)" for m by (auto dest: in_set_takeD)
  with Cons show ?case by (cases n) auto
qed simp

lemma remdups_snoc: "remdups (xs @ [b]) = removeAll b (remdups xs) @ [b]"
  by (induction xs) auto

lemma after_reads_inv:
  assumes "length bs < 2 ^ 64"
  shows "cache_wf (after_reads d rbs bs) \<and> coherent d rbs (after_reads d rbs bs) \<and>
    bc_generation (after_reads d rbs bs) = of_nat (length bs) \<and>
    bc_capacity (after_reads d rbs bs) = DEFAULT_CAPACITY \<and>
    recency (after_reads d rbs bs) =
      take DEFAULT_CAPACITY (rev (remdups (filter (\<lambda>b. is_ok (dev_reserved d b rbs)) bs)))"
  using assms
proof (induction bs rule: rev_induct)
  case Nil
  show ?case by (simp add: after_reads_def cache_wf_new coherent_new) (simp add: BlockCache_new_def recency_def)
next
  case (snoc b bs)
  let ?c = "after_reads d rbs bs" and ?c' = "after_reads d rbs (bs @ [b])"
  let ?ks = "rev (remdups (filter (\<lambda>b. is_ok (dev_reserved d b rbs)) bs))"
  have c': "?c' = snd (read_reserved d b rbs ?c)" by (simp add: after_reads_def)
  have IH: "cache_wf ?c" "coherent d rbs ?c" "bc_generation ?c = of_nat (length bs)" "bc_capacity ?c = DEFAULT_CAPACITY"
      "recency ?c = take DEFAULT_CAPACITY ?ks"
    using snoc by simp_all
  have "unat (of_nat (length bs) :: u64) = length bs" using snoc.prems by (intro unat_of_nat_lt) simp_all
  then have "unat (bc_generation ?c) \<noteq> unat (- 1 :: u64)" using IH(3) snoc.prems
    by (simp add: unsigned_minus_1_eq_mask mask_eq_exp_minus_1)
  then have gen: "bc_generation ?c \<noteq> - 1" by metis
  have cached: "is_ok (dev_reserved d b rbs)" if "b \<in> set (recency ?c)"
    using that IH(2) by (auto simp: coherent_def set_recency)
  have "take DEFAULT_CAPACITY (b # removeAll b (take DEFAULT_CAPACITY ?ks)) = take DEFAULT_CAPACITY (b # removeAll b ?ks)"
    using take_removeAll_take [of ?ks 255 b] by (simp add: DEFAULT_CAPACITY_def take_Cons')
  then have "recency ?c' = take DEFAULT_CAPACITY
      (rev (remdups (filter (\<lambda>b. is_ok (dev_reserved d b rbs)) (bs @ [b]))))"
    unfolding c' recency_read [OF IH(1) gen] IH(4)
    using cached by (auto simp: IH(5) remdups_snoc removeAll_filter_not_eq rev_filter)
  then show ?case
    using cache_wf_read [OF IH(1) gen] cached.rd_coh [OF IH(2)] IH(3,4) c' by (simp add: add.commute)
qed

text \<open>
  C37. The cache keeps the least recently used policy: after any sequence of reads of a new cache, fewer than
  \<open>2 ^ 64\<close> and with hits, misses and failing reads in any order, the cached blocks, ordered by their
  generation with the newest first, are the blocks read successfully, ordered by their last use, cut to the
  capacity of 256.
\<close>

theorem cache_lru:
  assumes "length bs < 2 ^ 64"
  shows "recency (after_reads d rbs bs) =
    take DEFAULT_CAPACITY (rev (remdups (filter (\<lambda>b. is_ok (dev_reserved d b rbs)) bs)))"
  using after_reads_inv [OF assms] by blast

theorem cache_lru_witness: "recency (after_reads (create 2 4) 2 [1, 3, 9, 1]) = [1, 3]"
proof -
  have "length [1 :: nat, 3, 9, 1] < 2 ^ 64" by simp
  from cache_lru [OF this, of "create 2 4" 2] show ?thesis
    by (simp add: dev_reserved_def divO_def block_size_def create_def read_blocks_def byte_offset_def
        DEFAULT_CAPACITY_def)
qed

end
