(* ===== verification/Anodes.thy ===== *)
theory Anodes
  imports Cache Rootblock
begin

text \<open>
  \<^verbatim>\<open>crates/libpfs3/src/anode.rs\<close>: looking up anodes (extents) by number through the index
  blocks, and following their chains.  The \<open>_ref\<close> definitions say what a lookup means on the
  device itself, without the cache; \<open>anode_chain\<close> says what a chain is.
\<close>

record anode_reader =
  ar_reserved_blksize :: u16
  ar_anodes_per_block :: u32
  ar_index_per_block :: u32
  ar_split_mode :: bool
  ar_is_large :: bool
  ar_indexblocks :: "u32 list"
  ar_superindex :: "u32 list"

definition AnodeReader_new :: "rootblock \<Rightarrow> rootblock_ext option \<Rightarrow> anode_reader" where
  "AnodeReader_new rb rbe =
     \<lparr>ar_reserved_blksize = rb_reserved_blksize rb,
      ar_anodes_per_block = anodes_per_block rb,
      ar_index_per_block = index_per_block rb,
      ar_split_mode = is_splitted_anodes rb,
      ar_is_large = is_large rb,
      ar_indexblocks = rb_indexblocks rb,
      ar_superindex = (case rbe of Some e \<Rightarrow> rx_superindex e | None \<Rightarrow> [])\<rparr>"

text \<open>\<open>*v.get(i).unwrap_or(&0)\<close>\<close>

definition get_or_0 :: "u32 list \<Rightarrow> u32 \<Rightarrow> u32" where
  "get_or_0 v i = (if unat i < length v then v ! unat i else 0)"

definition read_index_entry ::
  "anode_reader \<Rightarrow> u32 \<Rightarrow> u32 \<Rightarrow> device \<Rightarrow> (block_cache, u32) rm" where
  "read_index_entry r block offset d =
     bindM (read_reserved d (unat block) (ar_reserved_blksize r)) (\<lambda>data.
       let off = INDEX_BLOCK_HEADER_SIZE + unat offset * 4 in
       if off + 4 > length data then retM 0 else liftO (be32 data off))"

definition resolve_anode_block :: "anode_reader \<Rightarrow> u32 \<Rightarrow> device \<Rightarrow> (block_cache, u32) rm" where
  "resolve_anode_block r seqnr d =
     (let ipb = ar_index_per_block r in
      if ar_is_large r then
        bindM (liftO (divO seqnr (ipb * ipb))) (\<lambda>super_nr.
        bindM (liftO (modO seqnr (ipb * ipb))) (\<lambda>remainder.
        bindM (liftO (divO remainder ipb)) (\<lambda>idx_nr.
        bindM (liftO (modO remainder ipb)) (\<lambda>idx_off.
          let super_blk = get_or_0 (ar_superindex r) super_nr in
          if super_blk = 0 then retM 0
          else bindM (read_index_entry r super_blk idx_nr d) (\<lambda>idx_blk.
            if idx_blk = 0 then retM 0
            else read_index_entry r idx_blk idx_off d)))))
      else
        bindM (liftO (divO seqnr ipb)) (\<lambda>idx_nr.
        bindM (liftO (modO seqnr ipb)) (\<lambda>idx_off.
          let idx_blk = get_or_0 (ar_indexblocks r) idx_nr in
          if idx_blk = 0 then retM 0
          else read_index_entry r idx_blk idx_off d)))"

text \<open>The block sequence number and the slot of an anode number.\<close>

definition split_anodenr :: "bool \<Rightarrow> u32 \<Rightarrow> u32 \<Rightarrow> (u32 \<times> u32) outcome" where
  "split_anodenr split_mode apb anodenr =
     (if split_mode then Ok (drop_bit 16 anodenr, anodenr AND 0xFFFF)
      else bindO (divO anodenr apb) (\<lambda>seqnr.
           bindO (modO anodenr apb) (\<lambda>offset. Ok (seqnr, offset))))"

definition get_anode :: "anode_reader \<Rightarrow> u32 \<Rightarrow> device \<Rightarrow> (block_cache, anode) rm" where
  "get_anode r anodenr d =
     bindM (liftO (split_anodenr (ar_split_mode r) (ar_anodes_per_block r) anodenr)) (\<lambda>(seqnr, offset).
     bindM (resolve_anode_block r seqnr d) (\<lambda>blk_nr.
     if blk_nr = 0 then failM (AnodeNotFound anodenr)
     else bindM (read_reserved d (unat blk_nr) (ar_reserved_blksize r)) (\<lambda>data.
          bindM (liftO (AnodeBlockHeader_parse data)) (\<lambda>_.
            let base = ANODE_BLOCK_HEADER_SIZE + unat offset * ANODE_SIZE in
            if base + ANODE_SIZE > length data then failM (AnodeNotFound anodenr)
            else bindM (liftO (sliceO data base (base + ANODE_SIZE))) (\<lambda>raw.
              liftO (Anode_parse raw anodenr))))))"

definition MAX_CHAIN_LEN :: nat where "MAX_CHAIN_LEN = 1000000"

function get_chain_loop ::
  "anode_reader \<Rightarrow> device \<Rightarrow> u32 \<Rightarrow> u32 set \<Rightarrow> anode list \<Rightarrow> (block_cache, anode list) rm" where
  "get_chain_loop r d nr seen chain c =
     (if nr = ANODE_EOF then (Ok chain, c)
      else if nr \<in> seen then (Err (InvalidPartition (rs ''anode cycle at '' @ show_nat (unat nr))), c)
      else if MAX_CHAIN_LEN \<le> length chain
      then (Err (InvalidPartition (rs ''anode chain too long'')), c)
      else bindM (get_anode r nr d)
             (\<lambda>an. get_chain_loop r d (an_next an) (insert nr seen) (chain @ [an])) c)"
  by pat_completeness auto
termination
  by (relation "measure (\<lambda>(r, d, nr, seen, chain, c). MAX_CHAIN_LEN - length chain)") auto

declare get_chain_loop.simps [simp del]

definition get_chain :: "anode_reader \<Rightarrow> u32 \<Rightarrow> device \<Rightarrow> (block_cache, anode list) rm" where
  "get_chain r anodenr d = get_chain_loop r d anodenr {} []"

section \<open>What a lookup means on the device\<close>

definition index_entry_ref :: "anode_reader \<Rightarrow> device \<Rightarrow> u32 \<Rightarrow> u32 \<Rightarrow> u32 outcome" where
  "index_entry_ref r d block offset =
     bindO (dev_reserved d (unat block) (ar_reserved_blksize r)) (\<lambda>data.
       let off = INDEX_BLOCK_HEADER_SIZE + unat offset * 4 in
       if off + 4 > length data then Ok 0 else be32 data off)"

definition anode_block_ref :: "anode_reader \<Rightarrow> device \<Rightarrow> u32 \<Rightarrow> u32 outcome" where
  "anode_block_ref r d seqnr =
     (let ipb = ar_index_per_block r in
      if ar_is_large r then
        bindO (divO seqnr (ipb * ipb)) (\<lambda>super_nr.
        bindO (modO seqnr (ipb * ipb)) (\<lambda>remainder.
        bindO (divO remainder ipb) (\<lambda>idx_nr.
        bindO (modO remainder ipb) (\<lambda>idx_off.
          let super_blk = get_or_0 (ar_superindex r) super_nr in
          if super_blk = 0 then Ok 0
          else bindO (index_entry_ref r d super_blk idx_nr) (\<lambda>idx_blk.
            if idx_blk = 0 then Ok 0 else index_entry_ref r d idx_blk idx_off)))))
      else
        bindO (divO seqnr ipb) (\<lambda>idx_nr.
        bindO (modO seqnr ipb) (\<lambda>idx_off.
          let idx_blk = get_or_0 (ar_indexblocks r) idx_nr in
          if idx_blk = 0 then Ok 0 else index_entry_ref r d idx_blk idx_off)))"

definition anode_ref :: "anode_reader \<Rightarrow> device \<Rightarrow> u32 \<Rightarrow> anode outcome" where
  "anode_ref r d anodenr =
     bindO (split_anodenr (ar_split_mode r) (ar_anodes_per_block r) anodenr) (\<lambda>(seqnr, offset).
     bindO (anode_block_ref r d seqnr) (\<lambda>blk_nr.
     if blk_nr = 0 then Err (AnodeNotFound anodenr)
     else bindO (dev_reserved d (unat blk_nr) (ar_reserved_blksize r)) (\<lambda>data.
          bindO (AnodeBlockHeader_parse data) (\<lambda>_.
            let base = ANODE_BLOCK_HEADER_SIZE + unat offset * ANODE_SIZE in
            if base + ANODE_SIZE > length data then Err (AnodeNotFound anodenr)
            else bindO (sliceO data base (base + ANODE_SIZE)) (\<lambda>raw. Anode_parse raw anodenr)))))"

function chain_ref ::
  "(u32 \<Rightarrow> anode outcome) \<Rightarrow> u32 \<Rightarrow> u32 set \<Rightarrow> anode list \<Rightarrow> anode list outcome" where
  "chain_ref look nr seen chain =
     (if nr = ANODE_EOF then Ok chain
      else if nr \<in> seen then Err (InvalidPartition (rs ''anode cycle at '' @ show_nat (unat nr)))
      else if MAX_CHAIN_LEN \<le> length chain then Err (InvalidPartition (rs ''anode chain too long''))
      else bindO (look nr) (\<lambda>an. chain_ref look (an_next an) (insert nr seen) (chain @ [an])))"
  by pat_completeness auto
termination
  by (relation "measure (\<lambda>(look, nr, seen, chain). MAX_CHAIN_LEN - length chain)") auto

declare chain_ref.simps [simp del]

text \<open>A chain of anodes from a number to the end-of-chain mark.\<close>

inductive anode_chain :: "(u32 \<Rightarrow> anode outcome) \<Rightarrow> u32 \<Rightarrow> anode list \<Rightarrow> bool" for look where
  chain_eof: "anode_chain look ANODE_EOF []"
| chain_next: "nr \<noteq> ANODE_EOF \<Longrightarrow> look nr = Ok an \<Longrightarrow> anode_chain look (an_next an) ch \<Longrightarrow>
     anode_chain look nr (an # ch)"

inductive_simps anode_chain_Nil: "anode_chain look nr []"
inductive_simps anode_chain_Cons: "anode_chain look nr (an # ch)"

section \<open>The cached lookups mean the same\<close>

lemma read_index_entry_transparent:
  "ar_reserved_blksize r = rbs \<Longrightarrow>
   transparent (coherent d rbs) (read_index_entry r block offset d) (index_entry_ref r d block offset)"
  unfolding read_index_entry_def index_entry_ref_def Let_def
  by (auto intro!: cached.rd_bind_transparent transparent_ret transparent_lift)

lemma transparent_if:
  "(b \<Longrightarrow> transparent P m r) \<Longrightarrow> (\<not> b \<Longrightarrow> transparent P n s) \<Longrightarrow>
   transparent P (if b then m else n) (if b then r else s)"
  by simp

lemmas transparent_intros =
  transparent_if transparent_bind transparent_ret transparent_lift transparent_fail

lemma resolve_anode_block_transparent:
  assumes "ar_reserved_blksize r = rbs"
  shows "transparent (coherent d rbs) (resolve_anode_block r seqnr d) (anode_block_ref r d seqnr)"
  unfolding resolve_anode_block_def anode_block_ref_def Let_def
  by (intro transparent_intros read_index_entry_transparent assms)

lemma get_anode_transparent:
  assumes "ar_reserved_blksize r = rbs"
  shows "transparent (coherent d rbs) (get_anode r nr d) (anode_ref r d nr)"
  unfolding get_anode_def anode_ref_def Let_def
  using cached.rd_transparent [of d rbs] assms
  by (auto intro!: transparent_intros resolve_anode_block_transparent split: prod.splits)

lemma get_chain_loop_transparent:
  assumes "ar_reserved_blksize r = rbs"
  shows "transparent (coherent d rbs) (get_chain_loop r d nr seen chain)
    (chain_ref (anode_ref r d) nr seen chain)"
proof (induction "MAX_CHAIN_LEN - length chain" arbitrary: nr seen chain rule: less_induct)
  case less
  show ?case
  proof (cases "nr = ANODE_EOF \<or> nr \<in> seen \<or> MAX_CHAIN_LEN \<le> length chain")
    case True
    then show ?thesis
      by (auto simp: transparent_def get_chain_loop.simps chain_ref.simps)
  next
    case False
    then have "transparent (coherent d rbs)
       (bindM (get_anode r nr d) (\<lambda>an. get_chain_loop r d (an_next an) (insert nr seen) (chain @ [an])))
       (bindO (anode_ref r d nr) (\<lambda>an. chain_ref (anode_ref r d) (an_next an) (insert nr seen) (chain @ [an])))"
      by (intro transparent_bind get_anode_transparent [OF assms] less) auto
    moreover have "get_chain_loop r d nr seen chain = bindM (get_anode r nr d)
        (\<lambda>an. get_chain_loop r d (an_next an) (insert nr seen) (chain @ [an]))"
      using False by (auto simp: get_chain_loop.simps)
    ultimately show ?thesis using False by (simp add: chain_ref.simps [of _ nr])
  qed
qed

lemma get_chain_transparent:
  "ar_reserved_blksize r = rbs \<Longrightarrow>
   transparent (coherent d rbs) (get_chain r nr d) (chain_ref (anode_ref r d) nr {} [])"
  by (simp add: get_chain_def get_chain_loop_transparent)

section \<open>Chains\<close>

lemma anode_chain_EOF: "anode_chain look ANODE_EOF ch \<longleftrightarrow> ch = []"
  by (auto elim: anode_chain.cases intro: chain_eof)

lemma anode_chain_step:
  assumes "nr \<noteq> ANODE_EOF" "look nr = Ok an"
  shows "anode_chain look nr ch \<longleftrightarrow> (\<exists>ch'. ch = an # ch' \<and> anode_chain look (an_next an) ch')"
proof
  assume "anode_chain look nr ch"
  then show "\<exists>ch'. ch = an # ch' \<and> anode_chain look (an_next an) ch'"
    by cases (use assms in simp_all)
qed (use assms in \<open>auto intro: chain_next\<close>)

lemma anode_chain_unique:
  "anode_chain look nr ch \<Longrightarrow> anode_chain look nr ch' \<Longrightarrow> ch' = ch"
proof (induction arbitrary: ch' rule: anode_chain.induct)
  case chain_eof
  then show ?case by (simp add: anode_chain_EOF)
next
  case (chain_next nr an ch)
  then show ?case using anode_chain_step by blast
qed

text \<open>The numbers a chain visits.\<close>

fun chain_nrs :: "u32 \<Rightarrow> anode list \<Rightarrow> u32 list" where
  "chain_nrs nr [] = []"
| "chain_nrs nr (an # ch) = nr # chain_nrs (an_next an) ch"

lemma anode_chain_from:
  "anode_chain look nr ch \<Longrightarrow> m \<in> set (chain_nrs nr ch) \<Longrightarrow>
   \<exists>ch'. anode_chain look m ch' \<and> length ch' \<le> length ch"
proof (induction rule: anode_chain.induct)
  case (chain_next nr an ch)
  show ?case
  proof (cases "m = nr")
    case True
    with chain_next.hyps show ?thesis
      by (intro exI [of _ "an # ch"]) (auto intro: anode_chain.chain_next)
  next
    case False
    with chain_next show ?thesis by fastforce
  qed
qed simp

lemma anode_chain_distinct: "anode_chain look nr ch \<Longrightarrow> distinct (chain_nrs nr ch)"
proof (induction rule: anode_chain.induct)
  case (chain_next nr an ch)
  have "nr \<notin> set (chain_nrs (an_next an) ch)"
  proof
    assume "nr \<in> set (chain_nrs (an_next an) ch)"
    then obtain ch' where "anode_chain look nr ch'" "length ch' \<le> length ch"
      using anode_chain_from [OF chain_next.hyps(3)] by blast
    moreover have "anode_chain look nr (an # ch)"
      using chain_next.hyps by (rule anode_chain.chain_next)
    ultimately show False using anode_chain_unique by fastforce
  qed
  with chain_next.IH show ?case by simp
qed simp

lemma chain_ref_complete:
  assumes "anode_chain look nr ch" "set (chain_nrs nr ch) \<inter> seen = {}"
    "length acc + length ch \<le> MAX_CHAIN_LEN"
  shows "chain_ref look nr seen acc = Ok (acc @ ch)"
  using assms
proof (induction arbitrary: seen acc rule: anode_chain.induct)
  case chain_eof
  show ?case by (simp add: chain_ref.simps)
next
  case (chain_next nr an ch)
  have "distinct (chain_nrs nr (an # ch))"
    using chain_next.hyps by (intro anode_chain_distinct anode_chain.chain_next)
  then have "chain_ref look (an_next an) (insert nr seen) (acc @ [an]) = Ok ((acc @ [an]) @ ch)"
    using chain_next.prems by (intro chain_next.IH) auto
  then show ?case
    using chain_next.hyps chain_next.prems by (simp add: chain_ref.simps [of _ nr])
qed

lemma chain_ref_sound:
  assumes "chain_ref look nr seen acc = Ok ch" "length acc \<le> MAX_CHAIN_LEN"
  shows "\<exists>ch'. ch = acc @ ch' \<and> anode_chain look nr ch' \<and> length ch \<le> MAX_CHAIN_LEN"
  using assms
proof (induction look nr seen acc rule: chain_ref.induct)
  case (1 look nr seen acc)
  show ?case
  proof (cases "nr = ANODE_EOF")
    case True
    with 1 show ?thesis by (auto simp: chain_ref.simps intro: chain_eof)
  next
    case False
    with "1.prems" have g: "nr \<notin> seen" "\<not> MAX_CHAIN_LEN \<le> length acc"
      by (auto simp: chain_ref.simps [of _ nr] split: if_splits)
    with False "1.prems" obtain an where an: "look nr = Ok an"
        "chain_ref look (an_next an) (insert nr seen) (acc @ [an]) = Ok ch"
      by (auto simp: chain_ref.simps [of _ nr] bindO_eq_Ok)
    with "1.IH" [OF False g an(1) an(2)] g obtain ch' where
        "ch = (acc @ [an]) @ ch'" "anode_chain look (an_next an) ch'" "length ch \<le> MAX_CHAIN_LEN"
      by auto
    with False an(1) show ?thesis
      by (intro exI [of _ "an # ch'"]) (auto intro: chain_next)
  qed
qed

lemma chain_ref_iff:
  "chain_ref look nr {} [] = Ok ch \<longleftrightarrow> anode_chain look nr ch \<and> length ch \<le> MAX_CHAIN_LEN"
  using chain_ref_sound [of look nr "{}" "[]" ch] chain_ref_complete [of look nr ch "{}" "[]"] by auto

lemma chain_ref_not_Panic:
  assumes "\<And>nr. look nr \<noteq> Panic"
  shows "chain_ref look nr seen acc \<noteq> Panic"
  using assms
proof (induction look nr seen acc rule: chain_ref.induct)
  case (1 look nr seen acc)
  then show ?case
    by (subst chain_ref.simps) (auto simp: bindO_eq_Panic)
qed

lemma anode_ref_nr: "anode_ref r d nr = Ok an \<Longrightarrow> an_nr an = nr"
  by (auto simp: anode_ref_def bindO_eq_Ok Let_def Anode_parse_nr split: prod.splits if_splits)

lemma anode_chain_nrs: "anode_chain (anode_ref r d) nr ch \<Longrightarrow> map an_nr ch = chain_nrs nr ch"
  by (induction rule: anode_chain.induct) (auto dest: anode_ref_nr)

lemma get_chain_coherent:
  "coherent d (ar_reserved_blksize r) c \<Longrightarrow>
   fst (get_chain r nr d c) = chain_ref (anode_ref r d) nr {} [] \<and>
   coherent d (ar_reserved_blksize r) (snd (get_chain r nr d c))"
  using get_chain_transparent [OF refl] by (simp add: transparent_def)

text \<open>
  C3. \<open>get_chain\<close> is sound and complete for the anode chains on the device: started on a coherent
  cache it returns \<open>ch\<close> exactly when following the \<open>next\<close> fields from \<open>nr\<close> reaches the end mark
  through the anodes of \<open>ch\<close> within the length limit; the chain then visits each anode number
  once.  It always returns, also on cyclic or endless chains.
\<close>

theorem get_chain_correct:
  assumes "coherent d (ar_reserved_blksize r) c"
  shows "(fst (get_chain r nr d c) = Ok ch \<longleftrightarrow>
      anode_chain (anode_ref r d) nr ch \<and> length ch \<le> MAX_CHAIN_LEN) \<and>
    (anode_chain (anode_ref r d) nr ch \<longrightarrow> map an_nr ch = chain_nrs nr ch \<and> distinct (map an_nr ch)) \<and>
    coherent d (ar_reserved_blksize r) (snd (get_chain r nr d c))"
  using get_chain_coherent [OF assms, of nr] chain_ref_iff [of "anode_ref r d" nr ch]
    anode_chain_nrs [of r d nr ch] anode_chain_distinct [of "anode_ref r d" nr ch]
  by auto

definition sample_index_block :: bytes where
  "sample_index_block = splice (splice (replicate 64 0) 0 (u16_to_be IBLKID)) 12 (u32_to_be 2)"

text \<open>An anode block whose slots 1 and 2 hold the chain 1, 2.\<close>

definition sample_anode_block :: bytes where
  "sample_anode_block =
     splice (splice (splice (splice (splice (splice (replicate 64 0)
       0 (u16_to_be ABLKID)) 28 (u32_to_be 5)) 32 (u32_to_be 40)) 36 (u32_to_be 2))
       40 (u32_to_be 1)) 44 (u32_to_be 60)"

definition sample_device :: device where
  "sample_device = (create 64 3)\<lparr>d_contents := replicate 64 0 @ sample_index_block @ sample_anode_block\<rparr>"

definition sample_reader :: anode_reader where
  "sample_reader = \<lparr>ar_reserved_blksize = 64, ar_anodes_per_block = 4, ar_index_per_block = 13,
     ar_split_mode = False, ar_is_large = False, ar_indexblocks = [1], ar_superindex = []\<rparr>"

lemma length_sample_blocks:
  "length sample_index_block = 64" "length sample_anode_block = 64"
  by (simp_all add: sample_index_block_def sample_anode_block_def)

lemma sample_device_read:
  "dev_reserved sample_device (Suc 0) 64 = Ok sample_index_block"
  "dev_reserved sample_device 2 64 = Ok sample_anode_block"
  by (simp_all add: dev_reserved_def divO_def block_size_def sample_device_def create_def
      read_blocks_def byte_offset_def splice_replicate_full bslice_def length_sample_blocks)

lemma be16_sample: "be16 sample_anode_block 0 = Ok ABLKID"
  by (simp add: sample_anode_block_def bytes_simps)

lemma be32_replicate_0: "off + 4 \<le> n \<Longrightarrow> be32 (replicate n 0) off = Ok 0"
  by (simp add: be32_def u32_from_be_def)

lemma be32_sample:
  "be32 sample_index_block 12 = Ok 2"
  "be32 sample_anode_block 4 = Ok 0" "be32 sample_anode_block 8 = Ok 0"
  "be32 sample_anode_block 28 = Ok 5" "be32 sample_anode_block 32 = Ok 40"
  "be32 sample_anode_block 36 = Ok 2" "be32 sample_anode_block 40 = Ok 1"
  "be32 sample_anode_block 44 = Ok 60" "be32 sample_anode_block 48 = Ok 0"
  by (simp_all add: sample_anode_block_def sample_index_block_def bytes_simps be32_replicate_0)

lemma sample_anodes:
  "anode_ref sample_reader sample_device 1 =
     Ok \<lparr>an_clustersize = 5, an_blocknr = 40, an_next = 2, an_nr = 1\<rparr>"
  "anode_ref sample_reader sample_device 2 =
     Ok \<lparr>an_clustersize = 1, an_blocknr = 60, an_next = 0, an_nr = 2\<rparr>"
  by (simp_all add: anode_ref_def split_anodenr_def divO_def modO_def anode_block_ref_def
      index_entry_ref_def get_or_0_def sample_reader_def sample_device_read Let_def size_defs
      length_sample_blocks AnodeBlockHeader_parse_def parse_header_fields_def Anode_parse_def
      cur32_def sliceO_def bytes_simps be16_sample be32_sample)

theorem get_chain_correct_witness:
  "coherent sample_device (ar_reserved_blksize sample_reader) BlockCache_new \<and>
   fst (get_chain sample_reader 1 sample_device BlockCache_new) =
     Ok [\<lparr>an_clustersize = 5, an_blocknr = 40, an_next = 2, an_nr = 1\<rparr>,
         \<lparr>an_clustersize = 1, an_blocknr = 60, an_next = 0, an_nr = 2\<rparr>]"
  (is "_ \<and> _ = Ok ?ch")
proof -
  have coh: "coherent sample_device (ar_reserved_blksize sample_reader) BlockCache_new"
    by (rule coherent_new)
  have "anode_chain (anode_ref sample_reader sample_device) 1 ?ch"
    by (simp add: anode_chain_Cons anode_chain_Nil sample_anodes ANODE_EOF_def)
  with get_chain_correct [OF coh, of 1 ?ch] coh show ?thesis
    by (simp add: MAX_CHAIN_LEN_def)
qed

section \<open>Lookups on any volume that opens\<close>

lemma index_per_block_square:
  assumes "64 \<le> rb_reserved_blksize rb"
  shows "index_per_block rb \<noteq> 0" "index_per_block rb * index_per_block rb \<noteq> 0"
    "anodes_per_block rb \<noteq> 0"
proof -
  let ?i = "unat (index_per_block rb)"
  have r: "64 \<le> unat (rb_reserved_blksize rb)" using assms by (simp add: word_le_nat_alt)
  have "unat (rb_reserved_blksize rb) < 65536"
    using unat_lt_2p [of "rb_reserved_blksize rb"] by simp
  then have i: "0 < ?i" "?i < 16384" using r by (simp_all add: unat_index_per_block)
  then have "?i * ?i < 16384 * 16384" by (intro mult_strict_mono) auto
  then have "unat (index_per_block rb * index_per_block rb) = ?i * ?i"
    by (intro unat_mult_lt) simp
  with i show "index_per_block rb \<noteq> 0" "index_per_block rb * index_per_block rb \<noteq> 0"
    by auto
  have "0 < unat (anodes_per_block rb)" using r by (simp add: unat_anodes_per_block)
  then show "anodes_per_block rb \<noteq> 0" by auto
qed

lemma dev_reserved_not_Panic: "d_block_bytes d \<noteq> 0 \<Longrightarrow> dev_reserved d b rbs \<noteq> Panic"
  by (simp add: dev_reserved_def divO_def block_size_def read_blocks_def Let_def)

lemma anode_ref_not_Panic:
  assumes "64 \<le> rb_reserved_blksize rb" "d_block_bytes d \<noteq> 0"
  shows "anode_ref (AnodeReader_new rb rbe) d nr \<noteq> Panic"
proof -
  note dev = dev_reserved_not_Panic [OF assms(2)]
  have ie: "index_entry_ref (AnodeReader_new rb rbe) d b off \<noteq> Panic" for b off
    by (auto simp: index_entry_ref_def bindO_eq_Panic dev Let_def)
  have "anode_block_ref (AnodeReader_new rb rbe) d seqnr \<noteq> Panic" for seqnr
    using index_per_block_square [OF assms(1)] ie
    by (auto simp: anode_block_ref_def Let_def divO_def modO_def AnodeReader_new_def bindO_eq_Panic)
  then show ?thesis
    using index_per_block_square(3) [OF assms(1)]
    by (auto simp: anode_ref_def split_anodenr_def divO_def modO_def AnodeReader_new_def
        bindO_eq_Panic dev Let_def AnodeBlockHeader_parse_not_Panic Anode_parse_not_Panic sliceO_def
        split: if_splits)
qed

text \<open>
  C30. Following a chain never panics: on any volume whose reserved blocks have at least 64 bytes and
  whose sectors are not empty, for any start number and any bytes on the device, cyclic,
  dangling and overlong chains included, the result is a chain or an error.
\<close>

theorem get_chain_never_panics:
  assumes "64 \<le> rb_reserved_blksize rb" "d_block_bytes d \<noteq> 0"
    and "coherent d (rb_reserved_blksize rb) c"
  shows "fst (get_chain (AnodeReader_new rb rbe) nr d c) \<noteq> Panic"
proof -
  have "coherent d (ar_reserved_blksize (AnodeReader_new rb rbe)) c"
    using assms(3) by (simp add: AnodeReader_new_def)
  from get_chain_coherent [OF this, of nr] chain_ref_not_Panic anode_ref_not_Panic [OF assms(1,2)]
  show ?thesis by metis
qed

theorem get_chain_never_panics_witness:
  "fst (get_chain (AnodeReader_new sample_rootblock None) 5 (create 512 100) BlockCache_new) \<noteq> Panic"
  by (rule get_chain_never_panics)
    (simp_all add: sample_rootblock_def coherent_new create_def Let_def)

end
