(* ===== verification/Bitmap.thy ===== *)
theory Bitmap
  imports Cache Rootblock
begin

text \<open>
  \<^verbatim>\<open>crates/libpfs3/src/bitmap.rs\<close>: the bitmap of free data blocks, read through the bitmap index
  blocks.  A set bit is a free block; the most significant bit of a word comes first.

  The scan of \<open>count_free\<close> consumes at least one word of the bitmap per block it reads as long as
  a reserved block has room for a word, so \<open>disksize + 1\<close> rounds are enough; a scan that would
  go on for longer does not return and is \<open>Panic\<close> here.
\<close>

record bitmap_reader =
  br_reserved_blksize :: u16
  br_index_per_block :: u32
  br_bitmapindex :: "u32 list"

definition BitmapReader_new :: "rootblock \<Rightarrow> bitmap_reader" where
  "BitmapReader_new rb =
     \<lparr>br_reserved_blksize = rb_reserved_blksize rb, br_index_per_block = index_per_block rb,
      br_bitmapindex = rb_bitmapindex rb\<rparr>"

definition get_bitmap_block :: "bitmap_reader \<Rightarrow> u32 \<Rightarrow> device \<Rightarrow> (block_cache, u32 option) rm" where
  "get_bitmap_block r seqnr d =
     (let ipb = br_index_per_block r in
      bindM (liftO (divO seqnr ipb)) (\<lambda>idx_nr.
      bindM (liftO (modO seqnr ipb)) (\<lambda>idx_off.
        let bmi_blk = (if unat idx_nr < length (br_bitmapindex r)
                       then br_bitmapindex r ! unat idx_nr else 0) in
        if bmi_blk = 0 then retM None
        else
          bindM (read_reserved d (unat bmi_blk) (br_reserved_blksize r)) (\<lambda>data.
            let off = INDEX_BLOCK_HEADER_SIZE + unat idx_off * 4 in
            if off + 4 > length data then retM None
            else bindM (liftO (be32 data off)) (\<lambda>v. retM (if v \<noteq> 0 then Some v else None))))))"

definition count_ones :: "u32 \<Rightarrow> u32" where
  "count_ones w = of_nat (length (filter (bit w) [0..<32]))"

text \<open>The loop over the words of one bitmap block: the new values of \<open>free\<close> and \<open>blocks_remaining\<close>.\<close>

function scan_words :: "bytes \<Rightarrow> nat \<Rightarrow> u32 \<Rightarrow> u32 \<Rightarrow> (u32 \<times> u32) outcome" where
  "scan_words data pos free blocks_remaining =
     (if pos + 4 \<le> length data \<and> 0 < blocks_remaining
      then bindO (be32 data pos) (\<lambda>word.
             let bits = min blocks_remaining 32;
                 free = (if bits = 32 then free + count_ones word
                         else free + count_ones (word AND push_bit (unat (32 - bits)) (NOT 0)))
             in scan_words data (pos + 4) free (sat_sub32 blocks_remaining 32))
      else Ok (free, blocks_remaining))"
  by pat_completeness auto
termination
  by (relation "measure (\<lambda>(data, pos, _, _). length data - pos)") auto

declare scan_words.simps [simp del]

fun count_free_loop ::
  "nat \<Rightarrow> bitmap_reader \<Rightarrow> device \<Rightarrow> u32 \<Rightarrow> u32 \<Rightarrow> u32 \<Rightarrow> (block_cache, u32) rm" where
  "count_free_loop 0 r d seqnr free blocks_remaining = liftO Panic"
| "count_free_loop (Suc fuel) r d seqnr free blocks_remaining =
     (if blocks_remaining = 0 then retM free
      else bindM (get_bitmap_block r seqnr d) (\<lambda>b. case b of
             Some blk \<Rightarrow>
               bindM (read_reserved d (unat blk) (br_reserved_blksize r)) (\<lambda>data.
               bindM (liftO (scan_words data BITMAP_BLOCK_HEADER_SIZE free blocks_remaining))
                 (\<lambda>(free', rem'). count_free_loop fuel r d (seqnr + 1) free' rem'))
           | None \<Rightarrow> retM free))"

definition count_free :: "bitmap_reader \<Rightarrow> device \<Rightarrow> u32 \<Rightarrow> (block_cache, u32) rm" where
  "count_free r d disksize = count_free_loop (unat disksize + 1) r d 0 0 disksize"

section \<open>What the bitmap says\<close>

text \<open>Bit \<open>n\<close> of a bitmap block, and the number of bits it has.\<close>

definition block_free :: "bytes \<Rightarrow> nat \<Rightarrow> bool" where
  "block_free data n \<longleftrightarrow> bit (the_ok (be32 data (12 + n div 32 * 4))) (31 - n mod 32)"

definition block_words :: "nat \<Rightarrow> nat" where
  "block_words len = (len - 12) div 4"

text \<open>The bitmap block with a sequence number, on the device itself.\<close>

definition bitmap_block_nr_ref :: "bitmap_reader \<Rightarrow> device \<Rightarrow> u32 \<Rightarrow> u32 option outcome" where
  "bitmap_block_nr_ref r d seqnr =
     (let ipb = br_index_per_block r in
      bindO (divO seqnr ipb) (\<lambda>idx_nr.
      bindO (modO seqnr ipb) (\<lambda>idx_off.
        let bmi_blk = (if unat idx_nr < length (br_bitmapindex r)
                       then br_bitmapindex r ! unat idx_nr else 0) in
        if bmi_blk = 0 then Ok None
        else
          bindO (dev_reserved d (unat bmi_blk) (br_reserved_blksize r)) (\<lambda>data.
            let off = INDEX_BLOCK_HEADER_SIZE + unat idx_off * 4 in
            if off + 4 > length data then Ok None
            else bindO (be32 data off) (\<lambda>v. Ok (if v \<noteq> 0 then Some v else None))))))"

definition bitmap_block_ref :: "bitmap_reader \<Rightarrow> device \<Rightarrow> u32 \<Rightarrow> bytes option outcome" where
  "bitmap_block_ref r d seqnr =
     bindO (bitmap_block_nr_ref r d seqnr) (\<lambda>b. case b of
       None \<Rightarrow> Ok None
     | Some blk \<Rightarrow> bindO (dev_reserved d (unat blk) (br_reserved_blksize r)) (\<lambda>data. Ok (Some data)))"

fun count_free_ref :: "nat \<Rightarrow> bitmap_reader \<Rightarrow> device \<Rightarrow> u32 \<Rightarrow> u32 \<Rightarrow> u32 \<Rightarrow> u32 outcome" where
  "count_free_ref 0 r d seqnr free blocks_remaining = Panic"
| "count_free_ref (Suc fuel) r d seqnr free blocks_remaining =
     (if blocks_remaining = 0 then Ok free
      else bindO (bitmap_block_ref r d seqnr) (\<lambda>b. case b of
             Some data \<Rightarrow>
               bindO (scan_words data BITMAP_BLOCK_HEADER_SIZE free blocks_remaining)
                 (\<lambda>(free', rem'). count_free_ref fuel r d (seqnr + 1) free' rem')
           | None \<Rightarrow> Ok free))"

section \<open>The scan counts free bits\<close>

lemma length_filter_card: "length (filter P [a..<b]) = card {n. a \<le> n \<and> n < b \<and> P n}"
proof -
  have "length (filter P [a..<b]) = card (set (filter P [a..<b]))"
    by (rule distinct_card [symmetric]) simp
  also have "set (filter P [a..<b]) = {n. a \<le> n \<and> n < b \<and> P n}" by auto
  finally show ?thesis .
qed

lemma count_msb_first:
  assumes "b \<le> 32"
  shows "length (filter (\<lambda>i. bit (w :: u32) i \<and> 32 - b \<le> i) [0..<32]) =
         length (filter (\<lambda>n. bit w (31 - n)) [0..<b])"
proof -
  have "bij_betw (\<lambda>n. 31 - n) {n. n < b \<and> bit w (31 - n)} {i. i < 32 \<and> bit w i \<and> 32 - b \<le> i}"
    using assms by (intro bij_betw_byWitness [where f' = "\<lambda>i. 31 - i"]) auto
  from bij_betw_same_card [OF this] show ?thesis by (simp add: length_filter_card)
qed

lemma count_ones_masked:
  assumes "0 < b" "b \<le> 32"
  shows "count_ones (w AND push_bit (32 - b) (NOT 0)) =
         of_nat (length (filter (\<lambda>n. bit w (31 - n)) [0..<b]))"
proof -
  have "filter (bit (w AND push_bit (32 - b) (NOT 0))) [0..<32] =
        filter (\<lambda>i. bit w i \<and> 32 - b \<le> i) [0..<32]"
    by (rule filter_cong) (auto simp: bit_simps)
  then show ?thesis using count_msb_first [OF assms(2), of w] by (simp add: count_ones_def)
qed

lemma count_ones_full: "count_ones w = of_nat (length (filter (\<lambda>n. bit w (31 - n)) [0..<32]))"
  using count_ones_masked [of 32 w] by simp

lemma filter_shift_upt:
  "length (filter P [k + a..<k + b]) = length (filter (\<lambda>n. P (k + n)) [a..<b])"
proof -
  have "[k + a..<k + b] = map (\<lambda>n. k + n) [a..<b]"
    by (rule nth_equalityI) auto
  then show ?thesis by (simp add: filter_map o_def)
qed

lemma filter_upt_split:
  "a \<le> b \<Longrightarrow> b \<le> c \<Longrightarrow>
   length (filter P [a..<c]) = length (filter P [a..<b]) + length (filter P [b..<c])"
  by (metis filter_append length_append le_add_diff_inverse upt_add_eq_append)

lemma word_count:
  assumes "be32 data (12 + 4 * k) = Ok w" "b \<le> 32"
  shows "length (filter (block_free data) [32 * k..<32 * k + b]) =
         length (filter (\<lambda>n. bit w (31 - n)) [0..<b])"
proof -
  have "length (filter (block_free data) [32 * k + 0..<32 * k + b]) =
        length (filter (\<lambda>n. block_free data (32 * k + n)) [0..<b])"
    by (rule filter_shift_upt)
  also have "filter (\<lambda>n. block_free data (32 * k + n)) [0..<b] =
        filter (\<lambda>n. bit w (31 - n)) [0..<b]"
    using assms by (intro filter_cong) (auto simp: block_free_def mult.commute)
  finally show ?thesis by simp
qed

lemma word_step:
  assumes "be32 data (12 + 4 * k) = Ok w" "(rem :: u32) \<noteq> 0" "b = min (unat rem) 32"
  shows "(if min rem 32 = 32 then free + count_ones w
      else free + count_ones (w AND push_bit (unat (32 - min rem 32)) (NOT 0))) =
    free + of_nat (length (filter (block_free data) [32 * k..<32 * k + b]))"
proof -
  have b: "0 < b" "b \<le> 32" using assms(2,3) by (auto simp: unat_gt_0)
  have bits: "unat (min rem 32) = b" by (simp add: assms(3) min_def word_le_nat_alt)
  show ?thesis
  proof (cases "min rem 32 = 32")
    case True
    with bits have "b = 32" by simp
    with True word_count [OF assms(1) b(2)] count_ones_full [of w] show ?thesis by simp
  next
    case False
    have "unat (32 - min rem 32) = 32 - b"
      using bits b by (simp add: unat_sub_if' word_le_nat_alt)
    with False word_count [OF assms(1) b(2)] count_ones_masked [OF b, of w] show ?thesis by simp
  qed
qed

lemma unat_sat_sub_32: "unat (sat_sub32 rem 32) = unat rem - 32"
  by (simp add: sat_sub32_def word_less_nat_alt unat_sub_if')

lemma scan_words_count:
  assumes "k \<le> block_words (length data)"
  shows "\<exists>rem'. scan_words data (12 + 4 * k) free rem =
      Ok (free + of_nat (length (filter (block_free data)
            [32 * k..<min (32 * block_words (length data)) (32 * k + unat rem)])), rem') \<and>
    unat rem' = unat rem - 32 * (block_words (length data) - k)"
  using assms
proof (induction "block_words (length data) - k" arbitrary: k free rem)
  case 0
  then have "\<not> 12 + 4 * k + 4 \<le> length data" by (simp add: block_words_def)
  with 0 show ?case by (simp add: scan_words.simps)
next
  case (Suc m)
  let ?W = "block_words (length data)"
  have fits: "12 + 4 * k + 4 \<le> length data" using Suc(2) unfolding block_words_def by linarith
  then obtain w where w: "be32 data (12 + 4 * k) = Ok w" using be32_Ok by blast
  show ?case
  proof (cases "rem = 0")
    case True
    then show ?thesis by (simp add: scan_words.simps)
  next
    case False
    define b where "b = min (unat rem) 32"
    define f where "f = free + of_nat (length (filter (block_free data) [32 * k..<32 * k + b]))"
    have step: "scan_words data (12 + 4 * k) free rem =
        scan_words data (12 + 4 * Suc k) f (sat_sub32 rem 32)"
      using False fits unfolding f_def word_step [OF w False b_def, of free, symmetric]
      by (subst scan_words.simps) (simp add: w Let_def word_neq_0_conv)
    define e where "e = min (32 * ?W) (32 * k + unat rem)"
    have next_k: "m = ?W - Suc k" "Suc k \<le> ?W" using Suc(2) by simp_all
    have le: "32 * k + b \<le> e" using next_k(2) by (simp add: b_def e_def)
    have "[32 * Suc k..<min (32 * ?W) (32 * Suc k + unat (sat_sub32 rem 32))] = [32 * k + b..<e]"
    proof (cases "unat rem \<le> 32")
      case True
      then show ?thesis using next_k(2) by (simp add: unat_sat_sub_32 b_def e_def)
    next
      case gt: False
      then have "32 * k + b = 32 * Suc k" "32 * Suc k + (unat rem - 32) = 32 * k + unat rem"
        by (simp_all add: b_def)
      then show ?thesis by (simp only: unat_sat_sub_32 e_def)
    qed
    then obtain rem' where "scan_words data (12 + 4 * Suc k) f (sat_sub32 rem 32) =
        Ok (f + of_nat (length (filter (block_free data) [32 * k + b..<e])), rem')"
        "unat rem' = unat rem - 32 - 32 * (?W - Suc k)"
      using Suc(1) [OF next_k, of f "sat_sub32 rem 32"] unat_sat_sub_32 [of rem] by metis
    moreover have "unat rem - 32 - 32 * (?W - Suc k) = unat rem - 32 * (?W - k)"
      using next_k(2) by simp
    moreover have "f + of_nat (length (filter (block_free data) [32 * k + b..<e])) =
        free + of_nat (length (filter (block_free data) [32 * k..<e]))"
      using filter_upt_split [OF _ le, of "32 * k" "block_free data"] by (simp add: f_def)
    ultimately show ?thesis using step by (simp add: e_def)
  qed
qed

section \<open>Counting the whole bitmap\<close>

lemma length_dev_reserved: "dev_reserved d b rbs = Ok data \<Longrightarrow> length data = unat rbs"
  by (auto simp: dev_reserved_def bindO_eq_Ok read_blocks_def Let_def split: if_splits)

text \<open>Whether block \<open>n\<close> is free in the bitmap made of the blocks \<open>bm 0, bm 1, \<dots>\<close>, \<open>W\<close> words each.\<close>

definition map_free :: "(nat \<Rightarrow> bytes) \<Rightarrow> nat \<Rightarrow> nat \<Rightarrow> bool" where
  "map_free bm W n \<longleftrightarrow> block_free (bm (n div (32 * W))) (n mod (32 * W))"

lemma map_free_block:
  assumes "0 < W" "m \<le> 32 * W"
  shows "length (filter (map_free bm W) [32 * W * s..<32 * W * s + m]) =
         length (filter (block_free (bm s)) [0..<m])"
proof -
  have "length (filter (map_free bm W) [32 * W * s + 0..<32 * W * s + m]) =
        length (filter (\<lambda>n. map_free bm W (32 * W * s + n)) [0..<m])"
    by (rule filter_shift_upt)
  also have "filter (\<lambda>n. map_free bm W (32 * W * s + n)) [0..<m] = filter (block_free (bm s)) [0..<m]"
    using assms by (intro filter_cong) (auto simp: map_free_def)
  finally show ?thesis by simp
qed

lemma count_free_ref_count:
  assumes W: "0 < W" "W = block_words (unat (br_reserved_blksize r))"
    and blocks: "\<And>s. s < k \<Longrightarrow> bitmap_block_ref r d (of_nat s) = Ok (Some (bm s)) \<and>
          length (bm s) = unat (br_reserved_blksize r)"
    and stop: "unat disksize \<le> 32 * W * k \<or> bitmap_block_ref r d (of_nat k) = Ok None"
    and s: "s \<le> k" "unat disksize - 32 * W * s < fuel"
    and rem: "unat rem = unat disksize - 32 * W * s"
    and free: "free = of_nat (length (filter (map_free bm W) [0..<min (unat disksize) (32 * W * s)]))"
  shows "count_free_ref fuel r d (of_nat s) free rem =
    Ok (of_nat (length (filter (map_free bm W) [0..<min (unat disksize) (32 * W * k)])))"
  using s rem free
proof (induction fuel arbitrary: s free rem)
  case 0
  then show ?case by simp
next
  case (Suc fuel)
  let ?F = "\<lambda>n. length (filter (map_free bm W) [0..<n])"
  show ?case
  proof (cases "rem = 0")
    case True
    with Suc.prems have le: "unat disksize \<le> 32 * W * s" by simp
    also have "\<dots> \<le> 32 * W * k" using Suc.prems(1) by simp
    finally show ?thesis using True le Suc.prems by (simp add: min_absorb1)
  next
    case False
    then have "0 < unat rem" by (simp add: unat_gt_0)
    then have gt: "32 * W * s < unat disksize" using Suc.prems(3) by linarith
    show ?thesis
    proof (cases "s = k")
      case True
      with stop gt False Suc.prems show ?thesis by (auto simp: min_absorb2)
    next
      case sk: False
      with Suc.prems have b: "bitmap_block_ref r d (of_nat s) = Ok (Some (bm s))"
          "length (bm s) = unat (br_reserved_blksize r)" using blocks [of s] by auto
      define m where "m = min (32 * W) (unat rem)"
      obtain rem' where sc: "scan_words (bm s) 12 free rem =
            Ok (free + of_nat (length (filter (block_free (bm s)) [0..<m])), rem')"
          "unat rem' = unat rem - 32 * W"
        using scan_words_count [of 0 "bm s" free rem] b(2) W(2) by (auto simp: m_def)
      have m: "min (unat disksize) (32 * W * Suc s) = 32 * W * s + m"
        using gt Suc.prems(3) by (auto simp: m_def min_def)
      have "?F (min (unat disksize) (32 * W * Suc s)) =
          ?F (32 * W * s) + length (filter (map_free bm W) [32 * W * s..<32 * W * s + m])"
        unfolding m by (rule filter_upt_split) auto
      then have fr: "free + of_nat (length (filter (block_free (bm s)) [0..<m])) =
          of_nat (?F (min (unat disksize) (32 * W * Suc s)))"
        using map_free_block [OF W(1), of m bm s] gt Suc.prems(4) by (simp add: m_def min_absorb2)
      have "count_free_ref fuel r d (of_nat (Suc s)) (of_nat (?F (min (unat disksize) (32 * W * Suc s)))) rem' =
          Ok (of_nat (?F (min (unat disksize) (32 * W * k))))"
        using Suc.prems sk sc(2) gt W(1) by (intro Suc.IH) auto
      then show ?thesis
        using False b(1) sc(1) fr by (simp add: BITMAP_BLOCK_HEADER_SIZE_def add.commute)
    qed
  qed
qed

section \<open>The reader through the cache\<close>

lemma get_bitmap_block_transparent:
  assumes "br_reserved_blksize r = rbs"
  shows "transparent (coherent d rbs) (get_bitmap_block r seqnr d) (bitmap_block_nr_ref r d seqnr)"
  unfolding get_bitmap_block_def bitmap_block_nr_ref_def Let_def
  using cached.rd_transparent [of d rbs] assms
  by (auto intro!: transparent_bind transparent_ret transparent_lift)

lemma count_free_loop_transparent:
  "transparent (coherent d (br_reserved_blksize r)) (count_free_loop fuel r d seqnr free rem)
     (count_free_ref fuel r d seqnr free rem)"
proof (induction fuel arbitrary: seqnr free rem)
  case 0
  show ?case by (simp only: count_free_loop.simps count_free_ref.simps transparent_lift)
next
  case (Suc fuel)
  have "transparent (coherent d (br_reserved_blksize r))
     (bindM (get_bitmap_block r seqnr d) (\<lambda>b. case b of
             Some blk \<Rightarrow>
               bindM (read_reserved d (unat blk) (br_reserved_blksize r)) (\<lambda>data.
               bindM (liftO (scan_words data BITMAP_BLOCK_HEADER_SIZE free rem))
                 (\<lambda>(free', rem'). count_free_loop fuel r d (seqnr + 1) free' rem'))
           | None \<Rightarrow> retM free))
     (bindO (bitmap_block_nr_ref r d seqnr) (\<lambda>b. case b of
             Some blk \<Rightarrow>
               bindO (dev_reserved d (unat blk) (br_reserved_blksize r)) (\<lambda>data.
               bindO (scan_words data BITMAP_BLOCK_HEADER_SIZE free rem)
                 (\<lambda>(free', rem'). count_free_ref fuel r d (seqnr + 1) free' rem'))
           | None \<Rightarrow> Ok free))"
    using cached.rd_transparent [of d "br_reserved_blksize r"]
    by (intro transparent_bind get_bitmap_block_transparent)
      (auto intro!: transparent_bind transparent_ret transparent_lift Suc.IH
        split: option.splits)
  also have "bindO (bitmap_block_nr_ref r d seqnr) (\<lambda>b. case b of
             Some blk \<Rightarrow>
               bindO (dev_reserved d (unat blk) (br_reserved_blksize r)) (\<lambda>data.
               bindO (scan_words data BITMAP_BLOCK_HEADER_SIZE free rem)
                 (\<lambda>(free', rem'). count_free_ref fuel r d (seqnr + 1) free' rem'))
           | None \<Rightarrow> Ok free) =
      bindO (bitmap_block_ref r d seqnr) (\<lambda>b. case b of
             Some data \<Rightarrow>
               bindO (scan_words data BITMAP_BLOCK_HEADER_SIZE free rem)
                 (\<lambda>(free', rem'). count_free_ref fuel r d (seqnr + 1) free' rem')
           | None \<Rightarrow> Ok free)"
    unfolding bitmap_block_ref_def bindO_assoc
    by (rule bindO_cong) (auto simp: bindO_assoc split: option.splits)
  finally show ?case by (cases "rem = 0") (simp_all add: transparent_def)
qed

lemma bitmap_block_ref_length:
  "bitmap_block_ref r d s = Ok (Some data) \<Longrightarrow> length data = unat (br_reserved_blksize r)"
  by (auto simp: bitmap_block_ref_def bindO_eq_Ok length_dev_reserved split: option.splits)

text \<open>
  C25. \<open>count_free\<close> returns the number of free bits.  If the bitmap blocks \<open>0, \<dots>, k - 1\<close> of the index can
  be read, with contents \<open>bm\<close>, and either they cover the disk or block \<open>k\<close> is missing, the result is the
  number of block numbers below the disk size, within those blocks, whose bit is set; in
  particular the scan always returns.
\<close>

theorem count_free_correct:
  assumes "coherent d (br_reserved_blksize r) c" "16 \<le> br_reserved_blksize r"
    and "W = block_words (unat (br_reserved_blksize r))"
    and "\<forall>s < k. bitmap_block_ref r d (of_nat s) = Ok (Some (bm s))"
    and "unat disksize \<le> 32 * W * k \<or> bitmap_block_ref r d (of_nat k) = Ok None"
  shows "fst (count_free r d disksize c) =
    Ok (of_nat (card {n. n < unat disksize \<and> n < 32 * W * k \<and> map_free bm W n}))"
proof -
  have "16 \<le> unat (br_reserved_blksize r)" using assms(2) by (simp add: word_le_nat_alt)
  then have W: "0 < W" using assms(3) by (simp add: block_words_def)
  have "fst (count_free r d disksize c) = count_free_ref (unat disksize + 1) r d (of_nat 0) 0 disksize"
    using transparentD1 [OF count_free_loop_transparent assms(1)]
    by (simp only: count_free_def semiring_1_class.of_nat_0)
  also have "\<dots> = Ok (of_nat (length (filter (map_free bm W) [0..<min (unat disksize) (32 * W * k)])))"
    by (rule count_free_ref_count [OF W assms(3)])
      (use assms(4,5) bitmap_block_ref_length in \<open>auto simp del: count_free_ref.simps\<close>)
  finally show ?thesis by (simp add: length_filter_card conj_assoc)
qed


text \<open>An index block at block 1 of a four-block device and one bitmap block at block 2.\<close>

definition sample_bitmap_block :: bytes where
  "sample_bitmap_block =
     splice (splice (replicate 64 0) 0 (u16_to_be BMBLKID)) 12 (u32_to_be 0xC0000001)"

definition sample_bitmap_index :: bytes where
  "sample_bitmap_index = splice (splice (replicate 64 0) 0 (u16_to_be BMIBLKID)) 12 (u32_to_be 2)"

definition sample_bitmap_device :: device where
  "sample_bitmap_device =
     (create 64 3)\<lparr>d_contents := replicate 64 0 @ sample_bitmap_index @ sample_bitmap_block\<rparr>"

definition sample_bitmap_reader :: bitmap_reader where
  "sample_bitmap_reader =
     \<lparr>br_reserved_blksize = 64, br_index_per_block = 13, br_bitmapindex = [1]\<rparr>"

lemma sample_bitmap_read:
  "dev_reserved sample_bitmap_device (Suc 0) 64 = Ok sample_bitmap_index"
  "dev_reserved sample_bitmap_device 2 64 = Ok sample_bitmap_block"
  "be32 sample_bitmap_index 12 = Ok 2" "length sample_bitmap_index = 64"
  "be32 sample_bitmap_block 12 = Ok 0xC0000001"
  by (simp_all add: dev_reserved_def divO_def block_size_def sample_bitmap_device_def create_def
      read_blocks_def byte_offset_def splice_replicate_full bslice_def sample_bitmap_index_def
      sample_bitmap_block_def bytes_simps)

lemma sample_bitmap_ref:
  "bitmap_block_ref sample_bitmap_reader sample_bitmap_device 0 = Ok (Some sample_bitmap_block)"
  by (simp add: bitmap_block_ref_def bitmap_block_nr_ref_def sample_bitmap_reader_def divO_def modO_def
      sample_bitmap_read Let_def INDEX_BLOCK_HEADER_SIZE_def)

theorem count_free_correct_witness:
  "coherent sample_bitmap_device (br_reserved_blksize sample_bitmap_reader) BlockCache_new \<and>
   fst (count_free sample_bitmap_reader sample_bitmap_device 31 BlockCache_new) = Ok 2"
proof -
  have coh: "coherent sample_bitmap_device (br_reserved_blksize sample_bitmap_reader) BlockCache_new"
    by (rule coherent_new)
  have "{n. n < unat (31 :: u32) \<and> n < 32 * 13 * (1 :: nat) \<and> map_free (\<lambda>_. sample_bitmap_block) 13 n} = {0, 1}"
  proof -
    have bits: "bit (push_bit a 1 OR push_bit b 1 OR (1 :: u32)) m \<longleftrightarrow> (m = a \<or> m = b \<or> m = 0) \<and> m < 32"
      for a b m by (auto simp: bit_simps)
    have "map_free (\<lambda>_. sample_bitmap_block) 13 n \<longleftrightarrow> n < 2" if "n < 31" for n
    proof -
      have w: "(0xC0000001 :: u32) = push_bit 31 1 OR push_bit 30 1 OR 1" by simp
      have "map_free (\<lambda>_. sample_bitmap_block) 13 n \<longleftrightarrow> bit (0xC0000001 :: u32) (31 - n)"
        using that by (simp add: map_free_def block_free_def sample_bitmap_read)
      also have "\<dots> \<longleftrightarrow> n < 2"
        using that bits [of 31 30 "31 - n"] by (auto simp: w [symmetric])
      finally show ?thesis .
    qed
    then show ?thesis by auto
  qed
  moreover have "fst (count_free sample_bitmap_reader sample_bitmap_device 31 BlockCache_new) =
      Ok (of_nat (card {n. n < unat (31 :: u32) \<and> n < 32 * 13 * (1 :: nat) \<and>
        map_free (\<lambda>_. sample_bitmap_block) 13 n}))"
    by (rule count_free_correct [OF coh])
      (simp_all add: sample_bitmap_reader_def [symmetric] sample_bitmap_ref,
       simp_all add: sample_bitmap_reader_def block_words_def)
  ultimately show ?thesis using coh by simp
qed

end
