(* ===== verification/Direntry.thy ===== *)
theory Direntry
  imports Ondisk
begin

text \<open>
  \<^verbatim>\<open>crates/libpfs3/src/ondisk/direntry.rs\<close>: directory block headers and the variable-length
  directory entries, and the encoder of entries, \<^verbatim>\<open>writer.rs\<close>'s \<open>build_dir_entry\<close>.
\<close>

record dir_block_header =
  dbh_id :: u16
  dbh_datestamp :: u32
  dbh_anodenr :: u32
  dbh_parent :: u32

definition DirBlockHeader_parse :: "bytes \<Rightarrow> dir_block_header outcome" where
  "DirBlockHeader_parse data =
     (if length data < 0x14 then Err (TooShort ''dir block header'')
      else bindO (be16 data 0) (\<lambda>id.
        if id \<noteq> DBLKID then Err (BadBlockId ''dir block'' DBLKID id)
        else bindO (be32 data 4) (\<lambda>datestamp.
             bindO (be32 data 0x0C) (\<lambda>anodenr.
             bindO (be32 data 0x10) (\<lambda>parent.
               Ok \<lparr>dbh_id = id, dbh_datestamp = datestamp, dbh_anodenr = anodenr, dbh_parent = parent\<rparr>)))))"

record extra_fields =
  ef_link :: u32
  ef_uid :: u16
  ef_gid :: u16
  ef_prot :: u32
  ef_virtualsize :: u32
  ef_rollpointer :: u32
  ef_fsizex :: u16

definition ExtraFields_default :: extra_fields where
  "ExtraFields_default =
     \<lparr>ef_link = 0, ef_uid = 0, ef_gid = 0, ef_prot = 0, ef_virtualsize = 0, ef_rollpointer = 0,
      ef_fsizex = 0\<rparr>"

record dir_entry =
  de_entry_size :: u8
  de_entry_type :: i8
  de_anode :: u32
  de_fsize :: u32
  de_creation_day :: u16
  de_creation_minute :: u16
  de_creation_tick :: u16
  de_protection :: u8
  de_name :: rstr
  de_comment :: rstr
  de_extra :: extra_fields

text \<open>
  One optional extra field: read and skipped when its flag is set and it lies within the entry,
  otherwise left at its default with the position unchanged.
\<close>

definition extra32 :: "bytes \<Rightarrow> u16 \<Rightarrow> u16 \<Rightarrow> nat \<Rightarrow> (u32 \<times> nat) outcome" where
  "extra32 raw flags msk pos =
     (if flags AND msk \<noteq> 0 \<and> pos + 4 \<le> length raw
      then bindO (be32 raw pos) (\<lambda>v. Ok (v, pos + 4)) else Ok (0, pos))"

definition extra16 :: "bytes \<Rightarrow> u16 \<Rightarrow> u16 \<Rightarrow> nat \<Rightarrow> (u16 \<times> nat) outcome" where
  "extra16 raw flags msk pos =
     (if flags AND msk \<noteq> 0 \<and> pos + 2 \<le> length raw
      then bindO (be16 raw pos) (\<lambda>v. Ok (v, pos + 2)) else Ok (0, pos))"

definition parse_extrafields :: "bytes \<Rightarrow> nat \<Rightarrow> extra_fields outcome" where
  "parse_extrafields raw nlength =
     (let name_end = 18 + nlength in
      if name_end \<ge> length raw then Ok ExtraFields_default
      else bindO (idx raw name_end) (\<lambda>cl.
        let clen = unat cl;
            field_start = name_end + 1 + clen;
            field_start = (if odd field_start then field_start + 1 else field_start)
        in if field_start + 2 > length raw then Ok ExtraFields_default
        else bindO (be16 raw field_start) (\<lambda>flags.
             bindO (extra32 raw flags 0x0001 (field_start + 2)) (\<lambda>(link, pos).
             bindO (extra16 raw flags 0x0002 pos) (\<lambda>(uid, pos).
             bindO (extra16 raw flags 0x0004 pos) (\<lambda>(gid, pos).
             bindO (extra32 raw flags 0x0008 pos) (\<lambda>(prot, pos).
             bindO (extra32 raw flags 0x0010 pos) (\<lambda>(virtualsize, pos).
             bindO (extra32 raw flags 0x0020 pos) (\<lambda>(rollpointer, pos).
             bindO (extra16 raw flags 0x0040 pos) (\<lambda>(fsizex, pos).
               Ok \<lparr>ef_link = link, ef_uid = uid, ef_gid = gid, ef_prot = prot,
                  ef_virtualsize = virtualsize, ef_rollpointer = rollpointer,
                  ef_fsizex = fsizex\<rparr>))))))))))"

definition DirEntry_parse :: "bytes \<Rightarrow> nat \<Rightarrow> (dir_entry \<times> nat) option outcome" where
  "DirEntry_parse data offset =
     (if offset \<ge> length data then Ok None
      else bindO (idx data offset) (\<lambda>entry_size.
        if entry_size = 0 then Ok None
        else let end = offset + unat entry_size in
          if end > length data \<or> unat entry_size < 18 then Ok None
          else bindO (sliceO data offset end) (\<lambda>raw.
               bindO (idx raw 1) (\<lambda>entry_type.
               bindO (be32 raw 2) (\<lambda>anode.
               bindO (be32 raw 6) (\<lambda>fsize.
               bindO (be16 raw 10) (\<lambda>day.
               bindO (be16 raw 12) (\<lambda>minute.
               bindO (be16 raw 14) (\<lambda>tick.
               bindO (idx raw 16) (\<lambda>protection.
               bindO (idx raw 17) (\<lambda>nl.
               let nlength = unat nl;
                   name_end = min (18 + nlength) (length raw) in
               bindO (sliceO raw 18 name_end) (\<lambda>name.
               let comment_off = 18 + nlength in
               bindO (if comment_off < length raw
                      then bindO (idx raw comment_off) (\<lambda>cl.
                             let clen = unat cl; cstart = comment_off + 1 in
                             if cstart + clen \<le> length raw
                             then bindO (sliceO raw cstart (cstart + clen))
                                    (\<lambda>c. Ok (latin1_to_string c))
                             else Ok [])
                      else Ok []) (\<lambda>comment.
               bindO (parse_extrafields raw nlength) (\<lambda>extra.
                 Ok (Some (\<lparr>de_entry_size = entry_size, de_entry_type = entry_type,
                    de_anode = anode, de_fsize = fsize, de_creation_day = day,
                    de_creation_minute = minute, de_creation_tick = tick,
                    de_protection = protection, de_name = latin1_to_string name,
                    de_comment = comment, de_extra = extra\<rparr>, end))))))))))))))))"

definition is_file :: "dir_entry \<Rightarrow> bool" where
  "is_file e \<longleftrightarrow> sint (de_entry_type e) < 0 \<and> de_entry_type e \<noteq> ST_ROLLOVERFILE"

definition is_rollover :: "dir_entry \<Rightarrow> bool" where
  "is_rollover e \<longleftrightarrow> de_entry_type e = ST_ROLLOVERFILE"

definition is_dir :: "dir_entry \<Rightarrow> bool" where
  "is_dir e \<longleftrightarrow> de_entry_type e = ST_USERDIR"

definition is_softlink :: "dir_entry \<Rightarrow> bool" where
  "is_softlink e \<longleftrightarrow> de_entry_type e = ST_SOFTLINK"

definition is_hardlink :: "dir_entry \<Rightarrow> bool" where
  "is_hardlink e \<longleftrightarrow> de_entry_type e = ST_LINKDIR \<or> de_entry_type e = ST_LINKFILE"

definition file_size :: "dir_entry \<Rightarrow> u64" where
  "file_size e = join_size (de_fsize e) (ef_fsizex (de_extra e))"

section \<open>Building an entry\<close>

text \<open>The clock is the argument \<open>now\<close>; the \<open>&self\<close> of the method is not used by it.\<close>

definition build_dir_entry ::
  "nat \<Rightarrow> rstr \<Rightarrow> i8 \<Rightarrow> u32 \<Rightarrow> u64 \<Rightarrow> u8 \<Rightarrow> bytes outcome" where
  "build_dir_entry now name entry_type anode fsize protection =
     (let name_bytes = as_bytes name;
          nlen = min (length name_bytes) 107;
          fsizex = (ucast (drop_bit 32 fsize) :: u16);
          has_fsizex = (fsizex > 0);
          extra_bytes = (if has_fsizex then 4 else 2);
          base_size = 18 + nlen + 1 + extra_bytes;
          base_size = (if odd base_size then base_size + 1 else base_size);
          entry = replicate base_size 0;
          (cday, cmin, ctick) = current_amiga_datestamp now;
          ef_off = (if odd (18 + nlen + 1) then 18 + nlen + 2 else 18 + nlen + 1);
          flags = (if has_fsizex then 0x0040 else 0)
      in chainO
          ([\<lambda>b. set_idx b 0 (of_nat base_size),
            \<lambda>b. set_idx b 1 entry_type,
            \<lambda>b. put_u32 b 2 anode,
            \<lambda>b. put_u32 b 6 (ucast fsize),
            \<lambda>b. put_u16 b 10 cday,
            \<lambda>b. put_u16 b 12 cmin,
            \<lambda>b. put_u16 b 14 ctick,
            \<lambda>b. set_idx b 16 protection,
            \<lambda>b. set_idx b 17 (of_nat nlen),
            \<lambda>b. copy_at b 18 (take nlen name_bytes),
            \<lambda>b. set_idx b (18 + nlen) 0,
            \<lambda>b. put_u16 b ef_off flags]
           @ (if has_fsizex then [\<lambda>b. put_u16 b (ef_off + 2) fsizex] else [])) entry)"

section \<open>Parsing is total\<close>

lemma extra32_ok: "is_ok (extra32 raw flags msk pos)"
  and extra16_ok: "is_ok (extra16 raw flags msk pos)"
  by (auto simp: extra32_def extra16_def be32_def be16_def)

lemma parse_extrafields_ok: "is_ok (parse_extrafields raw nlength)"
  unfolding parse_extrafields_def Let_def
  by (auto simp: idx_def be16_def split: prod.splits intro!: is_ok_bind extra32_ok extra16_ok)

lemma DirEntry_parse_ok: "is_ok (DirEntry_parse data offset)"
proof -
  have "is_ok (DirEntry_parse data offset)" if "offset < length data"
    unfolding DirEntry_parse_def Let_def
    using that parse_extrafields_ok
    by (auto simp: idx_def sliceO_def be32_def be16_def intro!: is_ok_bind)
  then show ?thesis by (cases "offset < length data") (auto simp: DirEntry_parse_def)
qed

lemma DirEntry_parse_step:
  assumes "DirEntry_parse data offset = Ok (Some (e, n))"
  shows "n = offset + unat (de_entry_size e)" "offset + 18 \<le> n" "n \<le> length data"
    "de_entry_size e = data ! offset"
  using assms by (auto simp: DirEntry_parse_def bindO_eq_Ok Let_def idx_def split: if_splits)

text \<open>
  Parsing a directory entry never panics, whatever the bytes and the offset; an accepted entry
  lies inside the block and is at least 18 bytes long, so the next offset is past this one.
\<close>

lemma DirEntry_parse_total:
  "\<exists>r. DirEntry_parse data offset = Ok r \<and>
     (case r of None \<Rightarrow> True
      | Some (e, n) \<Rightarrow> n = offset + unat (de_entry_size e) \<and> offset + 18 \<le> n \<and> n \<le> length data)"
proof -
  obtain r where r: "DirEntry_parse data offset = Ok r"
    using DirEntry_parse_ok [of data offset] by (auto simp: is_ok_iff)
  with DirEntry_parse_step [of data offset] show ?thesis
    by (auto split: option.splits)
qed

section \<open>Building an entry and parsing it back\<close>

text \<open>The layout of a built entry, byte by byte.\<close>

lemma entry_layout:
  fixes hx :: bool
  assumes "length nm = nlen" "18 + nlen < ef" "ef + (if hx then 4 else 2) = L"
  shows "\<exists>e. chainO
     ([\<lambda>b. set_idx b 0 sz, \<lambda>b. set_idx b 1 ty, \<lambda>b. put_u32 b 2 an, \<lambda>b. put_u32 b 6 fs,
       \<lambda>b. put_u16 b 10 d, \<lambda>b. put_u16 b 12 m, \<lambda>b. put_u16 b 14 t, \<lambda>b. set_idx b 16 pr,
       \<lambda>b. set_idx b 17 nl, \<lambda>b. copy_at b 18 nm, \<lambda>b. set_idx b (18 + nlen) 0, \<lambda>b. put_u16 b ef fl]
      @ (if hx then [\<lambda>b. put_u16 b (ef + 2) fx] else [])) (replicate L 0) = Ok e \<and>
     length e = L \<and> e ! 0 = sz \<and> e ! 1 = ty \<and> be32 e 2 = Ok an \<and> be32 e 6 = Ok fs \<and>
     be16 e 10 = Ok d \<and> be16 e 12 = Ok m \<and> be16 e 14 = Ok t \<and> e ! 16 = pr \<and> e ! 17 = nl \<and>
     bslice e 18 nlen = nm \<and> e ! (18 + nlen) = 0 \<and> be16 e ef = Ok fl \<and>
     (hx \<longrightarrow> be16 e (ef + 2) = Ok fx)"
  using assms
  by (cases hx) (auto simp: set_idx_Ok copy_at_Ok bytes_simps)

text \<open>The entry a reader should see for a built one.\<close>

definition entry_size_of :: "rstr \<Rightarrow> u64 \<Rightarrow> nat" where
  "entry_size_of name fsize =
     (let nlen = min (length (as_bytes name)) 107 in
      (if odd nlen then 19 + nlen else 20 + nlen) + (if (ucast (drop_bit 32 fsize) :: u16) > 0 then 4 else 2))"

definition entry_of :: "nat \<Rightarrow> rstr \<Rightarrow> i8 \<Rightarrow> u32 \<Rightarrow> u64 \<Rightarrow> u8 \<Rightarrow> dir_entry" where
  "entry_of now name entry_type anode fsize protection =
     (let (d, m, t) = current_amiga_datestamp now in
      \<lparr>de_entry_size = of_nat (entry_size_of name fsize), de_entry_type = entry_type,
       de_anode = anode, de_fsize = ucast fsize, de_creation_day = d, de_creation_minute = m,
       de_creation_tick = t, de_protection = protection,
       de_name = latin1_to_string (take 107 (as_bytes name)), de_comment = [],
       de_extra = ExtraFields_default\<lparr>ef_fsizex := ucast (drop_bit 32 fsize)\<rparr>\<rparr>)"

lemma entry_size_of_bounds: "20 \<le> entry_size_of name fsize" "entry_size_of name fsize \<le> 130"
  "even (entry_size_of name fsize)"
  by (auto simp: entry_size_of_def Let_def)

lemma build_dir_entry_layout:
  fixes fsize :: u64 and name :: rstr
  defines "nlen \<equiv> min (length (as_bytes name)) 107"
  defines "ef \<equiv> (if odd nlen then 19 + nlen else 20 + nlen)"
  defines "fx \<equiv> (ucast (drop_bit 32 fsize) :: u16)"
  assumes "current_amiga_datestamp now = (d, m, t)"
  shows "\<exists>e. build_dir_entry now name ty an fsize pr = Ok e \<and>
     length e = entry_size_of name fsize \<and> e ! 0 = of_nat (length e) \<and> e ! 1 = ty \<and>
     be32 e 2 = Ok an \<and> be32 e 6 = Ok (ucast fsize) \<and>
     be16 e 10 = Ok d \<and> be16 e 12 = Ok m \<and> be16 e 14 = Ok t \<and> e ! 16 = pr \<and>
     e ! 17 = of_nat nlen \<and> bslice e 18 nlen = take nlen (as_bytes name) \<and> e ! (18 + nlen) = 0 \<and>
     be16 e ef = Ok (if fx > 0 then 0x0040 else 0) \<and> (fx > 0 \<longrightarrow> be16 e (ef + 2) = Ok fx)"
proof -
  let ?L = "entry_size_of name fsize"
  have L: "ef + (if fx > 0 then 4 else 2) = ?L"
    by (simp add: entry_size_of_def nlen_def ef_def fx_def)
  have base: "(if odd (18 + nlen + 1 + (if fx > 0 then 4 else 2))
      then 18 + nlen + 1 + (if fx > 0 then 4 else 2) + 1
      else 18 + nlen + 1 + (if fx > 0 then 4 else 2)) = ?L"
    using L by (auto simp: ef_def)
  have ef: "(if odd (18 + nlen + 1) then 18 + nlen + 2 else 18 + nlen + 1) = ef"
    by (auto simp: ef_def)
  have "18 + nlen < ef" by (simp add: ef_def)
  from entry_layout [OF _ this L, of "take nlen (as_bytes name)" "of_nat ?L" ty an "ucast fsize"
      d m t pr "of_nat nlen" "if fx > 0 then 0x0040 else 0" fx]
  obtain e where e: "chainO
     ([\<lambda>b. set_idx b 0 (of_nat ?L), \<lambda>b. set_idx b 1 ty, \<lambda>b. put_u32 b 2 an,
       \<lambda>b. put_u32 b 6 (ucast fsize), \<lambda>b. put_u16 b 10 d, \<lambda>b. put_u16 b 12 m, \<lambda>b. put_u16 b 14 t,
       \<lambda>b. set_idx b 16 pr, \<lambda>b. set_idx b 17 (of_nat nlen),
       \<lambda>b. copy_at b 18 (take nlen (as_bytes name)), \<lambda>b. set_idx b (18 + nlen) 0,
       \<lambda>b. put_u16 b ef (if fx > 0 then 0x0040 else 0)]
      @ (if fx > 0 then [\<lambda>b. put_u16 b (ef + 2) fx] else [])) (replicate ?L 0) = Ok e"
    and "length e = ?L \<and> e ! 0 = of_nat ?L \<and> e ! 1 = ty \<and> be32 e 2 = Ok an \<and>
      be32 e 6 = Ok (ucast fsize) \<and> be16 e 10 = Ok d \<and> be16 e 12 = Ok m \<and> be16 e 14 = Ok t \<and>
      e ! 16 = pr \<and> e ! 17 = of_nat nlen \<and> bslice e 18 nlen = take nlen (as_bytes name) \<and>
      e ! (18 + nlen) = 0 \<and> be16 e ef = Ok (if fx > 0 then 0x0040 else 0) \<and>
      (fx > 0 \<longrightarrow> be16 e (ef + 2) = Ok fx)"
    by (auto simp: nlen_def simp del: chainO.simps append.simps)
  moreover have "build_dir_entry now name ty an fsize pr = Ok e"
    unfolding e [symmetric] build_dir_entry_def Let_def nlen_def [symmetric] fx_def [symmetric]
      assms(4) prod.case base ef ..
  ultimately show ?thesis by (intro exI [of _ e]) simp
qed

lemma nth_of_bslice: "bslice data off n = e \<Longrightarrow> off + n \<le> length data \<Longrightarrow> i < n \<Longrightarrow> data ! (off + i) = e ! i"
  by (auto simp: bslice_def)

lemma parse_built_entry:
  assumes b: "build_dir_entry now name ty an fsize pr = Ok e"
    and fit: "off + length e \<le> length data" and at: "bslice data off (length e) = e"
  shows "DirEntry_parse data off = Ok (Some (entry_of now name ty an fsize pr, off + length e))"
proof -
  define nlen where "nlen = min (length (as_bytes name)) 107"
  define ef where "ef = (if odd nlen then 19 + nlen else 20 + nlen)"
  define fx where "fx = (ucast (drop_bit 32 fsize) :: u16)"
  obtain d m t where t: "current_amiga_datestamp now = (d, m, t)" by (metis prod_cases3)
  from build_dir_entry_layout [OF t, of name ty an fsize pr] b
  have e: "length e = entry_size_of name fsize" "e ! 0 = of_nat (length e)" "e ! 1 = ty"
     "be32 e 2 = Ok an" "be32 e 6 = Ok (ucast fsize)"
     "be16 e 10 = Ok d" "be16 e 12 = Ok m" "be16 e 14 = Ok t" "e ! 16 = pr"
     "e ! 17 = of_nat nlen" "bslice e 18 nlen = take nlen (as_bytes name)" "e ! (18 + nlen) = 0"
     "be16 e ef = Ok (if fx > 0 then 0x0040 else 0)" "fx > 0 \<Longrightarrow> be16 e (ef + 2) = Ok fx"
    by (auto simp: nlen_def ef_def fx_def)
  have L: "length e = ef + (if fx > 0 then 4 else 2)" "20 \<le> length e" "length e \<le> 130"
    using e(1) entry_size_of_bounds [of name fsize]
    by (simp_all add: entry_size_of_def nlen_def ef_def fx_def)
  have sz: "unat (of_nat (length e) :: u8) = length e" "unat (of_nat nlen :: u8) = nlen"
    using L(3) by (auto intro!: unat_of_nat_lt simp: nlen_def)
  have ne: "(of_nat (length e) :: u8) \<noteq> 0"
    using sz(1) L(2) by auto
  have "0 < length e" using L(2) by linarith
  then have d0: "data ! off = of_nat (length e)"
    using nth_of_bslice [OF at fit, of 0] e(2) by (simp only: add_0_right)
  have raw: "sliceO data off (off + length e) = Ok e"
    using fit at by (simp add: sliceO_def)
  have odd_ef: "(if odd (Suc (18 + nlen)) then Suc (Suc (18 + nlen)) else Suc (18 + nlen)) = ef"
    by (auto simp: ef_def)
  have nl: "18 + nlen < ef" "18 + nlen < length e" "nlen \<le> 107" "even ef"
    using L by (auto simp: ef_def nlen_def)
  have extra: "parse_extrafields e nlen = Ok (ExtraFields_default\<lparr>ef_fsizex := fx\<rparr>)"
    using e(12-14) L(1) nl odd_ef
    by (auto simp: parse_extrafields_def Let_def idx_def extra32_def extra16_def
        ExtraFields_default_def word_gt_0 split: if_splits)
  have nm: "take nlen (as_bytes name) = take 107 (as_bytes name)"
    by (simp add: nlen_def min_def)
  show ?thesis
    using fit L d0 ne raw sz e extra nl t nm
    by (simp add: DirEntry_parse_def idx_def Let_def sliceO_Ok min_def entry_of_def fx_def bslice_def)
qed

text \<open>
  C2. An entry built by the writer is parsed back from wherever it is stored in a block: every
  field as given, no comment, and the low 48 bits of the size.  A name of at most 107 ASCII
  characters comes back unchanged.
\<close>

theorem dir_entry_roundtrip:
  assumes "build_dir_entry now name ty an fsize pr = Ok e"
    and "off + length e \<le> length data" "bslice data off (length e) = e"
  shows "DirEntry_parse data off = Ok (Some (entry_of now name ty an fsize pr, off + length e)) \<and>
    file_size (entry_of now name ty an fsize pr) = take_bit 48 fsize \<and>
    (ascii_str name \<and> length name \<le> 107 \<longrightarrow> de_name (entry_of now name ty an fsize pr) = name)"
proof -
  have "de_name (entry_of now name ty an fsize pr) = name" if "ascii_str name" "length name \<le> 107"
    using that latin1_ascii [of name] as_bytes_ascii [of name]
    by (simp add: entry_of_def split: prod.splits)
  then show ?thesis
    using parse_built_entry [OF assms]
    by (simp add: file_size_def entry_of_def join_size_split split: prod.splits)
qed

theorem dir_entry_roundtrip_witness:
  "\<exists>e. build_dir_entry 1700000000 (rs ''S'') ST_FILE 7 600 0 = Ok e \<and> length e = 22 \<and>
     DirEntry_parse e 0 = Ok (Some (entry_of 1700000000 (rs ''S'') ST_FILE 7 600 0, 22)) \<and>
     de_name (entry_of 1700000000 (rs ''S'') ST_FILE 7 600 0) = rs ''S''"
proof -
  obtain d m t where "current_amiga_datestamp 1700000000 = (d, m, t)" by (metis prod_cases3)
  then obtain e where e: "build_dir_entry 1700000000 (rs ''S'') ST_FILE 7 600 0 = Ok e"
      "length e = entry_size_of (rs ''S'') 600"
    using build_dir_entry_layout [of 1700000000 d m t "rs ''S''" ST_FILE 7 600 0] by blast
  have len: "length e = 22"
    by (simp add: e(2) entry_size_of_def rs_def utf8_encode_def)
  have "0 + length e \<le> length e" "bslice e 0 (length e) = e" by (simp_all add: bslice_def)
  note r = dir_entry_roundtrip [OF e(1) this]
  have "ascii_str (rs ''S'')" "length (rs ''S'') \<le> 107" by (simp_all add: ascii_str_def rs_def)
  with r e(1) len show ?thesis by auto
qed

section \<open>Names that are not ASCII\<close>

lemma length_utf8_encode: "1 \<le> length (utf8_encode c)" "0x80 \<le> c \<Longrightarrow> 2 \<le> length (utf8_encode c)"
  by (auto simp: utf8_encode_def)

lemma length_as_bytes_latin1:
  "length bs \<le> length (as_bytes (latin1_to_string bs))"
  "b \<in> set bs \<Longrightarrow> 0x80 \<le> unat b \<Longrightarrow> length bs < length (as_bytes (latin1_to_string bs))"
proof -
  show len: "length bs \<le> length (as_bytes (latin1_to_string bs))" for bs :: bytes
  proof (induction bs)
    case (Cons b bs)
    then show ?case
      using length_utf8_encode(1) [of "unat b"] by (simp add: latin1_to_string_def)
  qed simp
  show "length bs < length (as_bytes (latin1_to_string bs))" if "b \<in> set bs" "0x80 \<le> unat b"
    using that
  proof (induction bs)
    case (Cons x bs)
    show ?case
    proof (cases "x = b")
      case True
      then show ?thesis
        using Cons.prems(2) length_utf8_encode(2) [of "unat b"] len [of bs]
        by (simp add: latin1_to_string_def)
    next
      case False
      then show ?thesis
        using Cons length_utf8_encode(1) [of "unat x"] by (simp add: latin1_to_string_def)
    qed
  qed simp
qed

lemma utf8_lead_byte:
  assumes "0x80 \<le> c" "c < 0x110000"
  shows "\<exists>b\<in>set (utf8_encode c). 0x80 \<le> unat b"
proof -
  have "c div 0x40 < 0x20" if "c < 0x800" using that by simp
  moreover have "c div 0x1000 < 0x10" if "c < 0x10000" using that by simp
  moreover have "c div 0x40000 < 5" using assms(2) by simp
  ultimately show ?thesis
    using assms by (auto simp: utf8_encode_def unat_of_nat simp del: of_nat_add)
qed

lemma as_bytes_high_byte:
  assumes "\<not> ascii_str s" "\<forall>c\<in>set s. c < 0x110000"
  shows "\<exists>b\<in>set (as_bytes s). 0x80 \<le> unat b"
proof -
  from assms obtain c where "c \<in> set s" "0x80 \<le> c" "c < 0x110000"
    by (auto simp: ascii_str_def list_all_iff not_less)
  with utf8_lead_byte [of c] show ?thesis by (auto simp: as_bytes_def)
qed

text \<open>
  The writer stores a name as UTF-8 and the reader decodes it as Latin-1, so a name with a
  character outside ASCII is not found again under the name it was created with.
\<close>

lemma non_ascii_name_lost:
  assumes "\<not> ascii_str name" "\<forall>c\<in>set name. c < 0x110000" "length (as_bytes name) \<le> 107"
  shows "\<not> name_eq_ci (de_name (entry_of now name ty an fsize pr)) name"
proof
  assume "name_eq_ci (de_name (entry_of now name ty an fsize pr)) name"
  then have "length (as_bytes (latin1_to_string (as_bytes name))) = length (as_bytes name)"
    using assms(3) by (auto simp: entry_of_def dest: name_eq_ci_length split: prod.splits)
  moreover obtain b where "b \<in> set (as_bytes name)" "0x80 \<le> unat b"
    using as_bytes_high_byte [OF assms(1,2)] by blast
  ultimately show False
    using length_as_bytes_latin1(2) [of b "as_bytes name"] by simp
qed

lemma non_ascii_name_lost_witness:
  "\<not> name_eq_ci (de_name (entry_of 0 [0xE9] ST_FILE 6 0 0)) [0xE9]"
  by (rule non_ascii_name_lost) (simp_all add: ascii_str_def utf8_encode_def)

end
