(* ===== verification/Dir.thy ===== *)
theory Dir
  imports Anodes Direntry
begin

text \<open>
  \<^verbatim>\<open>crates/libpfs3/src/dir.rs\<close>: listing a directory, looking a name up in it, and resolving paths.
  The \<open>_ref\<close> definitions give the contents of a directory on the device and what following a
  path means for any way of looking names up.
\<close>

function parse_entries_from :: "bytes \<Rightarrow> nat \<Rightarrow> dir_entry list outcome" where
  "parse_entries_from data offset =
     (if offset < length data
      then bindO (DirEntry_parse data offset) (\<lambda>r. case r of
             Some (entry, next) \<Rightarrow> bindO (parse_entries_from data next) (\<lambda>es. Ok (entry # es))
           | None \<Rightarrow> Ok [])
      else Ok [])"
  by pat_completeness auto
termination
proof (relation "measure (\<lambda>(data, offset). length data - offset)")
  fix data offset x p entry "next"
  assume "offset < length data" "DirEntry_parse data offset = Ok x" "x = Some p" "(entry, next) = p"
  then show "((data, next), data, offset) \<in> measure (\<lambda>(data, offset). length data - offset)"
    using DirEntry_parse_step [of data offset entry "next"] by auto
qed simp

declare parse_entries_from.simps [simp del]

definition parse_dirblock_entries :: "bytes \<Rightarrow> dir_entry list outcome" where
  "parse_dirblock_entries data = parse_entries_from data DIR_BLOCK_HEADER_SIZE"

definition list_entries ::
  "u32 \<Rightarrow> anode_reader \<Rightarrow> device \<Rightarrow> u16 \<Rightarrow> (block_cache, dir_entry list) rm" where
  "list_entries dir_anode anodes d reserved_blksize =
     bindM (get_chain anodes dir_anode d) (\<lambda>chain.
       foldM (\<lambda>entries an.
         foldM (\<lambda>entries i.
           let blk = unat (an_blocknr an) + i in
           bindM (read_reserved d blk reserved_blksize) (\<lambda>data.
             if length data < DIR_BLOCK_HEADER_SIZE + 1 then retM entries
             else bindM (liftO (be16 data 0)) (\<lambda>id.
               if id \<noteq> DBLKID then retM entries
               else bindM (liftO (parse_dirblock_entries data)) (\<lambda>es. retM (entries @ es)))))
           entries [0..<unat (an_clustersize an)])
         [] chain)"

text \<open>\<open>entries.into_iter().find(|e| name_eq_ci(&e.name, name))\<close>\<close>

definition find_entry :: "rstr \<Rightarrow> dir_entry list \<Rightarrow> dir_entry outcome" where
  "find_entry name entries =
     (case find (\<lambda>e. name_eq_ci (de_name e) name) entries of
        Some e \<Rightarrow> Ok e | None \<Rightarrow> Err (NotFound name))"

definition lookup :: "u32 \<Rightarrow> rstr \<Rightarrow> anode_reader \<Rightarrow> device \<Rightarrow> u16 \<Rightarrow> (block_cache, dir_entry) rm" where
  "lookup dir_anode name anodes d reserved_blksize =
     bindM (list_entries dir_anode anodes d reserved_blksize) (\<lambda>entries.
       liftO (find_entry name entries))"

text \<open>The \<open>match\<close> on the last component: \<open>NotFound\<close> becomes \<open>None\<close>.\<close>

fun not_found_none :: "'a outcome \<Rightarrow> 'a option outcome" where
  "not_found_none (Ok x) = Ok (Some x)"
| "not_found_none (Err (NotFound n)) = Ok None"
| "not_found_none (Err e) = Err e"
| "not_found_none Panic = Panic"

fun resolve_parts ::
  "rstr list \<Rightarrow> u32 \<Rightarrow> anode_reader \<Rightarrow> device \<Rightarrow> u16 \<Rightarrow> (block_cache, dir_entry option) rm" where
  "resolve_parts [] dir_anode anodes d rbs = retM None"
| "resolve_parts [part] dir_anode anodes d rbs =
     (\<lambda>c. case lookup dir_anode part anodes d rbs c of (r, c') \<Rightarrow> (not_found_none r, c'))"
| "resolve_parts (part # part' # rest) dir_anode anodes d rbs =
     bindM (lookup dir_anode part anodes d rbs) (\<lambda>entry.
       if \<not> is_dir entry then failM NotADirectory
       else resolve_parts (part' # rest) (de_anode entry) anodes d rbs)"

definition resolve_path ::
  "rstr \<Rightarrow> anode_reader \<Rightarrow> device \<Rightarrow> u16 \<Rightarrow> (block_cache, dir_entry option) rm" where
  "resolve_path path anodes d rbs = resolve_parts (path_parts path) ANODE_ROOTDIR anodes d rbs"

fun resolve_dir_parts ::
  "rstr list \<Rightarrow> u32 \<Rightarrow> anode_reader \<Rightarrow> device \<Rightarrow> u16 \<Rightarrow> (block_cache, u32) rm" where
  "resolve_dir_parts [] dir_anode anodes d rbs = retM dir_anode"
| "resolve_dir_parts (part # rest) dir_anode anodes d rbs =
     bindM (lookup dir_anode part anodes d rbs) (\<lambda>entry.
       if \<not> is_dir entry then failM NotADirectory
       else resolve_dir_parts rest (de_anode entry) anodes d rbs)"

definition resolve_dir_path :: "rstr \<Rightarrow> anode_reader \<Rightarrow> device \<Rightarrow> u16 \<Rightarrow> (block_cache, u32) rm" where
  "resolve_dir_path path anodes d rbs = resolve_dir_parts (path_parts path) ANODE_ROOTDIR anodes d rbs"

section \<open>Directories on the device\<close>

text \<open>The blocks an anode chain covers, in order.\<close>

definition chain_blocks :: "anode list \<Rightarrow> nat list" where
  "chain_blocks chain =
     concat (map (\<lambda>an. map (\<lambda>i. unat (an_blocknr an) + i) [0..<unat (an_clustersize an)]) chain)"

definition dirblock_entries :: "bytes \<Rightarrow> dir_entry list" where
  "dirblock_entries data =
     (if length data < 21 \<or> be16 data 0 \<noteq> Ok DBLKID then []
      else the_ok (parse_dirblock_entries data))"

definition dir_entries_ref :: "anode_reader \<Rightarrow> device \<Rightarrow> u16 \<Rightarrow> u32 \<Rightarrow> dir_entry list outcome" where
  "dir_entries_ref anodes d rbs dir_anode =
     bindO (chain_ref (anode_ref anodes d) dir_anode {} []) (\<lambda>chain.
     bindO (mapO (\<lambda>b. dev_reserved d b rbs) (chain_blocks chain)) (\<lambda>blocks.
       Ok (concat (map dirblock_entries blocks))))"

definition lookup_ref :: "anode_reader \<Rightarrow> device \<Rightarrow> u16 \<Rightarrow> u32 \<Rightarrow> rstr \<Rightarrow> dir_entry outcome" where
  "lookup_ref anodes d rbs dir_anode name =
     bindO (dir_entries_ref anodes d rbs dir_anode) (find_entry name)"

text \<open>Following a list of names through directories, for any lookup.\<close>

fun walk :: "(u32 \<Rightarrow> rstr \<Rightarrow> dir_entry outcome) \<Rightarrow> rstr list \<Rightarrow> u32 \<Rightarrow> u32 outcome" where
  "walk look [] dir = Ok dir"
| "walk look (p # ps) dir =
     bindO (look dir p) (\<lambda>e. if is_dir e then walk look ps (de_anode e) else Err NotADirectory)"

definition walk_entry ::
  "(u32 \<Rightarrow> rstr \<Rightarrow> dir_entry outcome) \<Rightarrow> rstr list \<Rightarrow> u32 \<Rightarrow> dir_entry option outcome" where
  "walk_entry look ps dir =
     (if ps = [] then Ok None
      else bindO (walk look (butlast ps) dir) (\<lambda>a. not_found_none (look a (last ps))))"

section \<open>Listing\<close>

lemma parse_entries_from_ok: "is_ok (parse_entries_from data offset)"
proof (induction data offset rule: parse_entries_from.induct)
  case (1 data offset)
  show ?case
  proof (cases "offset < length data")
    case True
    obtain r where r: "DirEntry_parse data offset = Ok r"
      using DirEntry_parse_ok by (auto simp: is_ok_iff)
    show ?thesis
    proof (cases r)
      case None
      with r show ?thesis by (simp add: parse_entries_from.simps)
    next
      case (Some p)
      obtain e n where "p = (e, n)" by (cases p)
      with "1.IH" [OF True r Some, of e n] r Some True show ?thesis
        by (subst parse_entries_from.simps) (auto simp: is_ok_iff)
    qed
  qed (simp add: parse_entries_from.simps)
qed

lemma parse_dirblock_entries_ok: "is_ok (parse_dirblock_entries data)"
  by (simp add: parse_dirblock_entries_def parse_entries_from_ok)

lemma parse_dirblock_entries_eq:
  "parse_dirblock_entries data = Ok (the_ok (parse_dirblock_entries data))"
  using parse_dirblock_entries_ok [of data] by (auto simp: is_ok_iff)

lemma foldM_append: "foldM f b (xs @ ys) = bindM (foldM f b xs) (\<lambda>b'. foldM f b' ys)"
  by (induction xs arbitrary: b) (simp_all add: bindM_assoc)

lemma foldM_map: "foldM f b (map g xs) = foldM (\<lambda>b x. f b (g x)) b xs"
  by (induction xs arbitrary: b) simp_all

lemma foldM_nested:
  "foldM (\<lambda>b x. foldM (\<lambda>b i. f b (g x i)) b (h x)) b xs =
   foldM f b (concat (map (\<lambda>x. map (g x) (h x)) xs))"
  by (induction xs arbitrary: b) (simp_all add: foldM_append foldM_map)

lemma transparent_collect:
  assumes "\<And>acc x. transparent P (f acc x) (bindO (rd x) (\<lambda>y. Ok (acc @ h y)))"
  shows "transparent P (foldM f acc xs)
     (bindO (mapO rd xs) (\<lambda>ys. Ok (acc @ concat (map h ys))))"
proof (induction xs arbitrary: acc)
  case Nil
  show ?case by (simp add: transparent_def)
next
  case (Cons x xs)
  have "transparent P (foldM f acc (x # xs))
     (bindO (bindO (rd x) (\<lambda>y. Ok (acc @ h y)))
       (\<lambda>acc'. bindO (mapO rd xs) (\<lambda>ys. Ok (acc' @ concat (map h ys)))))"
    unfolding foldM.simps by (intro transparent_bind assms Cons)
  then show ?case by (simp add: bindO_assoc)
qed

lemma list_entries_transparent:
  assumes "ar_reserved_blksize anodes = rbs"
  shows "transparent (coherent d rbs) (list_entries a anodes d rbs) (dir_entries_ref anodes d rbs a)"
proof -
  let ?f = "\<lambda>entries blk. bindM (read_reserved d blk rbs) (\<lambda>data.
       if length data < DIR_BLOCK_HEADER_SIZE + 1 then retM entries
       else bindM (liftO (be16 data 0)) (\<lambda>id.
         if id \<noteq> DBLKID then retM entries
         else bindM (liftO (parse_dirblock_entries data)) (\<lambda>es. retM (entries @ es))))"
  have flat: "list_entries a anodes d rbs =
      bindM (get_chain anodes a d) (\<lambda>chain. foldM ?f [] (chain_blocks chain))"
    unfolding list_entries_def chain_blocks_def Let_def
    by (simp only: foldM_nested [symmetric])
  have body: "(if length data < DIR_BLOCK_HEADER_SIZE + 1 then retM entries
       else bindM (liftO (be16 data 0)) (\<lambda>id.
         if id \<noteq> DBLKID then retM entries
         else bindM (liftO (parse_dirblock_entries data)) (\<lambda>es. retM (entries @ es)))) =
      retM (entries @ dirblock_entries data)" for entries data
  proof (cases "length data < 21")
    case False
    then obtain i where "be16 data 0 = Ok i" using be16_Ok [of 0 data] by auto
    moreover obtain es where "parse_dirblock_entries data = Ok es"
      using parse_dirblock_entries_ok by (auto simp: is_ok_iff)
    ultimately show ?thesis
      using False by (simp add: dirblock_entries_def DIR_BLOCK_HEADER_SIZE_def fun_eq_iff)
  qed (simp add: dirblock_entries_def DIR_BLOCK_HEADER_SIZE_def)
  have step: "transparent (coherent d rbs) (?f entries blk)
      (bindO (dev_reserved d blk rbs) (\<lambda>data. Ok (entries @ dirblock_entries data)))" for entries blk
    unfolding body by (rule cached.rd_bind_transparent) (rule transparent_ret)
  have "transparent (coherent d rbs) (foldM ?f [] (chain_blocks chain))
      (bindO (mapO (\<lambda>b. dev_reserved d b rbs) (chain_blocks chain))
        (\<lambda>blocks. Ok (concat (map dirblock_entries blocks))))" for chain
    using transparent_collect [OF step, where acc = "[]"] by simp
  then show ?thesis
    unfolding flat dir_entries_ref_def
    by (intro transparent_bind get_chain_transparent assms)
qed

lemma lookup_transparent:
  assumes "ar_reserved_blksize anodes = rbs"
  shows "transparent (coherent d rbs) (lookup a name anodes d rbs) (lookup_ref anodes d rbs a name)"
  unfolding lookup_def lookup_ref_def
  by (intro transparent_bind list_entries_transparent assms transparent_lift)

section \<open>Resolving paths\<close>

lemma resolve_dir_parts_transparent:
  assumes "ar_reserved_blksize anodes = rbs"
  shows "transparent (coherent d rbs) (resolve_dir_parts ps a anodes d rbs)
     (walk (lookup_ref anodes d rbs) ps a)"
proof (induction ps arbitrary: a)
  case Nil
  show ?case by (simp add: transparent_def)
next
  case (Cons p ps)
  have "transparent (coherent d rbs)
      (if \<not> is_dir e then failM NotADirectory else resolve_dir_parts ps (de_anode e) anodes d rbs)
      (if is_dir e then walk (lookup_ref anodes d rbs) ps (de_anode e) else Err NotADirectory)" for e
    using Cons transparent_fail by auto
  then show ?case
    unfolding resolve_dir_parts.simps walk.simps
    by (intro transparent_bind lookup_transparent assms)
qed

lemma transparent_post:
  assumes "transparent P m r"
  shows "transparent P (\<lambda>c. case m c of (x, c') \<Rightarrow> (h x, c')) (h r)"
proof -
  have "fst (case m c of (x, c') \<Rightarrow> (h x, c')) = h (fst (m c)) \<and>
      snd (case m c of (x, c') \<Rightarrow> (h x, c')) = snd (m c)" for c
    by (simp split: prod.split)
  with assms show ?thesis by (simp add: transparent_def)
qed

lemma resolve_parts_transparent:
  assumes "ar_reserved_blksize anodes = rbs"
  shows "transparent (coherent d rbs) (resolve_parts ps a anodes d rbs)
     (walk_entry (lookup_ref anodes d rbs) ps a)"
proof (induction ps arbitrary: a rule: induct_list012)
  case 1
  show ?case by (simp add: transparent_def walk_entry_def)
next
  case (2 p)
  show ?case
    using transparent_post [OF lookup_transparent [OF assms, of d a p], of not_found_none]
    by (simp add: walk_entry_def)
next
  case (3 p p' ps)
  let ?look = "lookup_ref anodes d rbs"
  have "transparent (coherent d rbs)
      (if \<not> is_dir e then failM NotADirectory else resolve_parts (p' # ps) (de_anode e) anodes d rbs)
      (if is_dir e then walk_entry ?look (p' # ps) (de_anode e) else Err NotADirectory)" for e
    using 3(2) transparent_fail by auto
  then have "transparent (coherent d rbs) (resolve_parts (p # p' # ps) a anodes d rbs)
     (bindO (?look a p) (\<lambda>e. if is_dir e then walk_entry ?look (p' # ps) (de_anode e) else Err NotADirectory))"
    unfolding resolve_parts.simps by (intro transparent_bind lookup_transparent assms)
  also have "bindO (?look a p)
       (\<lambda>e. if is_dir e then walk_entry ?look (p' # ps) (de_anode e) else Err NotADirectory) =
      walk_entry ?look (p # p' # ps) a"
    by (cases "?look a p") (simp_all add: walk_entry_def)
  finally show ?case .
qed

text \<open>
  C26. Listing a directory returns its entries as they lie on the device: the entries of all
  directory blocks of its anode chain, in chain order, blocks of another kind contributing
  none; an unreadable block is the error of the listing, and nothing panics that the chain
  and the device do not.
\<close>

theorem list_entries_correct:
  assumes "coherent d (ar_reserved_blksize anodes) c"
  shows "fst (list_entries a anodes d (ar_reserved_blksize anodes) c) =
      bindO (chain_ref (anode_ref anodes d) a {} []) (\<lambda>chain.
      bindO (mapO (\<lambda>b. dev_reserved d b (ar_reserved_blksize anodes)) (chain_blocks chain)) (\<lambda>blocks.
        Ok (concat (map dirblock_entries blocks)))) \<and>
    coherent d (ar_reserved_blksize anodes) (snd (list_entries a anodes d (ar_reserved_blksize anodes) c))"
  using list_entries_transparent [OF refl] assms
  by (simp add: transparent_def dir_entries_ref_def)

lemma walk_append: "walk look (ps @ qs) a = bindO (walk look ps a) (walk look qs)"
proof (induction ps arbitrary: a)
  case (Cons p ps)
  then show ?case by (cases "look a p") simp_all
qed simp

lemma walk_entry_dir:
  assumes "ps \<noteq> []"
  shows "walk look ps a = Ok b \<longleftrightarrow> (\<exists>e. walk_entry look ps a = Ok (Some e) \<and> is_dir e \<and> de_anode e = b)"
proof -
  have ps: "walk look ps a = bindO (walk look (butlast ps) a) (\<lambda>b. walk look [last ps] b)"
    using walk_append [of look "butlast ps" "[last ps]" a] assms by (simp del: walk.simps)
  have nf: "not_found_none m = Ok (Some x) \<longleftrightarrow> m = Ok x" for m :: "dir_entry outcome" and x
    by (cases m rule: not_found_none.cases) auto
  show ?thesis
    unfolding ps using assms by (auto simp: walk_entry_def bindO_eq_Ok nf split: if_splits)
qed

lemma resolve_path_ref:
  "coherent d (ar_reserved_blksize anodes) c \<Longrightarrow>
   fst (resolve_path p anodes d (ar_reserved_blksize anodes) c) =
     walk_entry (lookup_ref anodes d (ar_reserved_blksize anodes)) (path_parts p) ANODE_ROOTDIR"
  "coherent d (ar_reserved_blksize anodes) c \<Longrightarrow>
   fst (resolve_dir_path p anodes d (ar_reserved_blksize anodes) c) =
     walk (lookup_ref anodes d (ar_reserved_blksize anodes)) (path_parts p) ANODE_ROOTDIR"
  using resolve_parts_transparent [OF refl] resolve_dir_parts_transparent [OF refl]
  by (simp_all add: transparent_def resolve_path_def resolve_dir_path_def)

text \<open>
  The two ways of resolving a path agree: \<open>resolve_dir_path\<close> returns a directory's anode exactly
  when the path is the root or \<open>resolve_path\<close> finds a directory entry with that anode; and both
  are the same walk over the directories on the device whatever the cache holds.
\<close>

lemma path_resolution_agrees:
  assumes "coherent d (ar_reserved_blksize anodes) c" "coherent d (ar_reserved_blksize anodes) c'"
  shows "fst (resolve_dir_path p anodes d (ar_reserved_blksize anodes) c) = Ok a \<longleftrightarrow>
    (path_parts p = [] \<and> a = ANODE_ROOTDIR) \<or>
    (\<exists>e. fst (resolve_path p anodes d (ar_reserved_blksize anodes) c') = Ok (Some e) \<and>
         is_dir e \<and> de_anode e = a)"
  unfolding resolve_path_ref(1) [OF assms(2)] resolve_path_ref(2) [OF assms(1)]
  using walk_entry_dir [of "path_parts p"] by (cases "path_parts p = []") (auto simp: walk_entry_def)

lemma split_on_nonempty: "split_on c s \<noteq> []"
  by (cases s) (auto split: list.splits)

lemma split_on_append:
  "split_on c (s @ c # t) = split_on c s @ split_on c t"
proof (induction s)
  case (Cons x s)
  then show ?case
    using split_on_nonempty [of c s] by (cases "split_on c s") auto
qed simp

lemma path_parts_join:
  "path_parts (join_pfs3_path p n) = path_parts p @ path_parts n"
proof (cases "p \<noteq> [] \<and> last p = SLASH")
  case True
  then obtain q where p: "p = q @ [SLASH]" by (metis append_butlast_last_id)
  have "split_on SLASH (q @ [SLASH]) = split_on SLASH q @ [[]]"
    using split_on_append [of SLASH q "[]"] by simp
  then show ?thesis
    using split_on_append [of SLASH q n] by (simp add: p join_pfs3_path_def path_parts_def)
next
  case False
  then show ?thesis
    using split_on_append [of SLASH p n] by (auto simp: join_pfs3_path_def path_parts_def)
qed

text \<open>
  Paths compose: resolving \<open>parent/name\<close>, as \<open>join_pfs3_path\<close> writes it, is resolving the parent
  directory and looking the single name up in it.
\<close>

lemma resolve_joined_path:
  assumes "coherent d (ar_reserved_blksize anodes) c" "coherent d (ar_reserved_blksize anodes) c'"
    and "coherent d (ar_reserved_blksize anodes) c''"
    and "path_parts name = [name']"
  shows "fst (resolve_path (join_pfs3_path parent name) anodes d (ar_reserved_blksize anodes) c) =
    bindO (fst (resolve_dir_path parent anodes d (ar_reserved_blksize anodes) c'))
      (\<lambda>a. not_found_none (fst (lookup a name' anodes d (ar_reserved_blksize anodes) c'')))"
proof -
  have "fst (lookup a name' anodes d (ar_reserved_blksize anodes) c'') =
      lookup_ref anodes d (ar_reserved_blksize anodes) a name'" for a
    using lookup_transparent [OF refl] assms(3) by (simp add: transparent_def)
  then show ?thesis
    by (simp add: resolve_path_ref assms(1,2) path_parts_join assms(4) walk_entry_def)
qed

section \<open>A small volume\<close>

text \<open>
  Four blocks of 128 bytes: an index block, an anode block in which slot 5 is the root
  directory, and a directory block with the single directory entry \<open>d\<close>, anode 6.
\<close>

definition sample_dir_entry :: bytes where
  "sample_dir_entry = [22, 2, 0, 0, 0, 6, 0, 0, 0, 0, 0, 0, 0, 0, 0, 0, 0, 1, 100, 0, 0, 0]"

definition sample_dir_blocks :: "nat \<Rightarrow> bytes" where
  "sample_dir_blocks b =
     (if b = 1 then splice (splice (replicate 128 0) 0 (u16_to_be IBLKID)) 12 (u32_to_be 2)
      else if b = 2 then splice (splice (splice (replicate 128 0) 0 (u16_to_be ABLKID)) 76 (u32_to_be 1))
                           80 (u32_to_be 3)
      else if b = 3 then splice (splice (replicate 128 0) 0 (u16_to_be DBLKID)) 20 sample_dir_entry
      else replicate 128 0)"

definition sample_dir_device :: device where
  "sample_dir_device = (create 128 4)\<lparr>d_contents := concat (map sample_dir_blocks [0, 1, 2, 3])\<rparr>"

definition sample_dir_reader :: anode_reader where
  "sample_dir_reader = \<lparr>ar_reserved_blksize = 128, ar_anodes_per_block = 9, ar_index_per_block = 29,
     ar_split_mode = True, ar_is_large = False, ar_indexblocks = [1], ar_superindex = []\<rparr>"

lemma length_sample_dir_blocks [simp]: "length (sample_dir_blocks b) = 128"
  by (simp add: sample_dir_blocks_def)

lemma sample_dir_read: "b < 4 \<Longrightarrow> dev_reserved sample_dir_device b 128 = Ok (sample_dir_blocks b)"
proof -
  assume "b < 4"
  then consider "b = 0" | "b = 1" | "b = 2" | "b = 3" by linarith
  then show ?thesis
    by cases (simp_all add: dev_reserved_def divO_def block_size_def sample_dir_device_def create_def
      read_blocks_def byte_offset_def splice_replicate_full bslice_def)
qed

lemma be32_sample_dir:
  "be32 (sample_dir_blocks (Suc 0)) 12 = Ok 2" "be16 (sample_dir_blocks 2) 0 = Ok ABLKID"
  "be32 (sample_dir_blocks 2) 4 = Ok 0" "be32 (sample_dir_blocks 2) 8 = Ok 0"
  "be32 (sample_dir_blocks 2) 76 = Ok 1" "be32 (sample_dir_blocks 2) 80 = Ok 3"
  "be32 (sample_dir_blocks 2) 84 = Ok 0" "be16 (sample_dir_blocks 3) 0 = Ok DBLKID"
  by (simp_all add: sample_dir_blocks_def bytes_simps be32_replicate_0 sample_dir_entry_def)

lemma sample_dir_root:
  "anode_ref sample_dir_reader sample_dir_device 5 =
     Ok \<lparr>an_clustersize = 1, an_blocknr = 3, an_next = 0, an_nr = 5\<rparr>"
  by (simp add: anode_ref_def split_anodenr_def divO_def modO_def anode_block_ref_def
      index_entry_ref_def get_or_0_def sample_dir_reader_def sample_dir_read Let_def size_defs
      AnodeBlockHeader_parse_def parse_header_fields_def Anode_parse_def
      cur32_def sliceO_def bytes_simps be32_sample_dir)

definition sample_dir_dirent :: dir_entry where
  "sample_dir_dirent = \<lparr>de_entry_size = 22, de_entry_type = 2, de_anode = 6, de_fsize = 0,
     de_creation_day = 0, de_creation_minute = 0, de_creation_tick = 0, de_protection = 0,
     de_name = rs ''d'', de_comment = [], de_extra = ExtraFields_default\<rparr>"

lemma sample_dir_bytes:
  "sample_dir_blocks 3 ! 20 = 22" "sample_dir_blocks 3 ! 42 = 0"
  "bslice (sample_dir_blocks 3) 20 22 = sample_dir_entry" "length sample_dir_entry = 22"
  by (simp_all add: sample_dir_blocks_def sample_dir_entry_def bytes_simps)

lemma sample_dir_parse:
  "DirEntry_parse (sample_dir_blocks 3) 20 = Ok (Some (sample_dir_dirent, 42))"
  "DirEntry_parse (sample_dir_blocks 3) 42 = Ok None"
  by (simp_all add: DirEntry_parse_def idx_def sample_dir_bytes sliceO_def be32_def be16_def Let_def
      parse_extrafields_def extra32_def extra16_def)
    (simp add: sample_dir_entry_def u32_from_be_def u16_from_be_def bslice_def latin1_to_string_def
      sample_dir_dirent_def ExtraFields_default_def rs_def)

lemma sample_dir_entries: "dirblock_entries (sample_dir_blocks 3) = [sample_dir_dirent]"
  by (simp add: dirblock_entries_def be32_sample_dir parse_dirblock_entries_def DIR_BLOCK_HEADER_SIZE_def
      parse_entries_from.simps [of _ 20] parse_entries_from.simps [of _ 42] sample_dir_parse)


lemma sample_dir_chain:
  "chain_ref (anode_ref sample_dir_reader sample_dir_device) 5 {} [] =
     Ok [\<lparr>an_clustersize = 1, an_blocknr = 3, an_next = 0, an_nr = 5\<rparr>]"
  by (simp add: chain_ref_iff anode_chain_Cons anode_chain_Nil sample_dir_root ANODE_EOF_def
      MAX_CHAIN_LEN_def)

lemma sample_dir_lookup:
  "lookup_ref sample_dir_reader sample_dir_device 128 5 (rs ''D'') = Ok sample_dir_dirent"
proof -
  have "name_eq_ci (de_name sample_dir_dirent) (rs ''D'')"
    by (simp add: name_eq_ci_def sample_dir_dirent_def rs_def utf8_encode_def ascii_lower_def)
  then show ?thesis
    by (simp add: lookup_ref_def dir_entries_ref_def sample_dir_chain chain_blocks_def sample_dir_read
        sample_dir_entries find_entry_def)
qed

theorem list_entries_correct_witness:
  "coherent sample_dir_device (ar_reserved_blksize sample_dir_reader) BlockCache_new \<and>
   fst (list_entries 5 sample_dir_reader sample_dir_device (ar_reserved_blksize sample_dir_reader)
     BlockCache_new) = Ok [sample_dir_dirent]"
proof -
  have coh: "coherent sample_dir_device (ar_reserved_blksize sample_dir_reader) BlockCache_new"
    by (rule coherent_new)
  have rbs: "ar_reserved_blksize sample_dir_reader = 128" by (simp add: sample_dir_reader_def)
  from list_entries_correct [OF coh, of 5] coh show ?thesis
    unfolding rbs by (simp add: sample_dir_chain chain_blocks_def sample_dir_read sample_dir_entries)
qed

lemma sample_path_parts:
  "path_parts (rs ''/D'') = [rs ''D'']" "path_parts (rs ''D'') = [rs ''D'']" "path_parts [SLASH] = []"
  by (simp_all add: path_parts_def rs_def SLASH_def)

end
