(* ===== verification/Rdb.thy ===== *)
theory Rdb
  imports Util Ondisk
begin

text \<open>
  \<^verbatim>\<open>crates/libpfs3/src/rdb.rs\<close>: finding PFS3 partitions in an image with a rigid disk block.  The
  image file is its bytes; opening it is not modelled.  Offsets and sizes are 64-bit products.
\<close>

definition RDSK_MAGIC :: u32 where "RDSK_MAGIC = 0x5244534B"
definition PART_MAGIC :: u32 where "PART_MAGIC = 0x50415254"
definition RDB_HIGHBLOCK_OFF :: nat where "RDB_HIGHBLOCK_OFF = 0x0C"

definition RDB_PFS3_DOSTYPES :: "u32 list" where
  "RDB_PFS3_DOSTYPES = [0x50465301, 0x50465302, 0x50465303, 0x50445301, 0x50445302, 0x50445303]"

record partition_info =
  pi_name :: rstr
  pi_offset :: u64
  pi_blocks :: u64

text \<open>The body of the scan for one block: \<open>None\<close> is \<open>continue\<close>.\<close>

definition parse_part :: "bytes \<Rightarrow> partition_info option outcome" where
  "parse_part buf =
     bindO (be32 buf 0) (\<lambda>magic.
     if magic \<noteq> PART_MAGIC then Ok None
     else
       bindO (idx buf 0x24) (\<lambda>nl.
       bindO (sliceO buf 0x25 (0x25 + min (unat nl) 30)) (\<lambda>name.
       let env_off = 0x80 in
       if env_off + 0x44 > (512 :: nat) then Ok None
       else
         bindO (be32 buf (env_off + 0x0C)) (\<lambda>surfaces.
         bindO (be32 buf (env_off + 0x14)) (\<lambda>bpt.
         bindO (be32 buf (env_off + 0x24)) (\<lambda>low_cyl.
         bindO (be32 buf (env_off + 0x28)) (\<lambda>high_cyl.
         bindO (be32 buf (env_off + 0x40)) (\<lambda>dostype.
           if dostype \<in> set RDB_PFS3_DOSTYPES \<or> dostype \<in> set PFS_TYPES
           then Ok (Some \<lparr>pi_name = latin1_to_string name,
                  pi_offset = ucast low_cyl * ucast surfaces * ucast bpt * 512,
                  pi_blocks = ucast (high_cyl - low_cyl + 1) * ucast surfaces * ucast bpt\<rparr>)
           else Ok None)))))))) "

fun scan_parts :: "bytes \<Rightarrow> nat list \<Rightarrow> partition_info list outcome" where
  "scan_parts file [] = Ok []"
| "scan_parts file (blk # blks) =
     (if length file < blk * 512 + 512 then Ok []
      else bindO (parse_part (bslice file (blk * 512) 512)) (\<lambda>p.
           bindO (scan_parts file blks) (\<lambda>ps. Ok (case p of Some x \<Rightarrow> x # ps | None \<Rightarrow> ps))))"

definition detect_pfs3_partitions :: "bytes \<Rightarrow> partition_info list outcome" where
  "detect_pfs3_partitions file =
     (if length file < 512 then Err Io
      else let buf = bslice file 0 512 in
        bindO (be32 buf 0) (\<lambda>sig.
        if sig \<noteq> RDSK_MAGIC then Ok []
        else bindO (be32 buf RDB_HIGHBLOCK_OFF) (\<lambda>rdb_highblock.
          let scan_limit = min (unat rdb_highblock) 1023 + 1 in
          scan_parts file [1..<scan_limit])))"

definition detect_pfs3_partition :: "bytes \<Rightarrow> u64 outcome" where
  "detect_pfs3_partition file =
     bindO (detect_pfs3_partitions file) (\<lambda>parts.
       case parts of p # _ \<Rightarrow> Ok (pi_offset p)
       | [] \<Rightarrow> Err (InvalidPartition (rs ''no PFS3 partition found in RDB image'')))"

section \<open>The layout of a partition table\<close>

text \<open>
  The rigid disk block format, stated on the numbers in the file: block \<open>b\<close> of the file is a sequence of
  big-endian longwords, and tags are ASCII text.  A partition block starts with \<open>PART\<close>, has the name as a
  counted string at byte 36 and the environment of the drive from longword 32 on: surfaces (3), blocks per
  track (5), lowest and highest cylinder (9, 10) and the type of the file system (16).
\<close>

definition longword :: "bytes \<Rightarrow> nat \<Rightarrow> nat \<Rightarrow> nat" where
  "longword file b i = foldl (\<lambda>n k. n * 256 + unat (file ! (b * 512 + i * 4 + k))) 0 [0, 1, 2, 3]"

definition tag :: "string \<Rightarrow> nat" where
  "tag s = foldl (\<lambda>n c. n * 256 + of_char c) 0 s"

definition env :: "bytes \<Rightarrow> nat \<Rightarrow> nat \<Rightarrow> nat" where
  "env file b i = longword file b (32 + i)"

definition pfs3_dostype :: "nat \<Rightarrow> bool" where
  "pfs3_dostype n \<longleftrightarrow>
     n div 256 \<in> {tag ''PFS'', tag ''PDS''} \<and> n mod 256 \<in> {1, 2, 3} \<or>
     n \<in> {tag ''AFS'' * 256 + 1, tag ''muAF'', tag ''muPF''}"

definition is_pfs3_part :: "bytes \<Rightarrow> nat \<Rightarrow> bool" where
  "is_pfs3_part file b \<longleftrightarrow> longword file b 0 = tag ''PART'' \<and> pfs3_dostype (env file b 16)"

definition described :: "bytes \<Rightarrow> nat \<Rightarrow> partition_info" where
  "described file b =
     (let cylinder = env file b 3 * env file b 5;
          cylinders = nat ((int (env file b 10) - int (env file b 9) + 1) mod 2 ^ 32)
      in \<lparr>pi_name = map unat (take (min (unat (file ! (b * 512 + 36))) 30) (drop (b * 512 + 37) file)),
          pi_offset = of_nat (env file b 9 * cylinder * 512),
          pi_blocks = of_nat (cylinders * cylinder)\<rparr>)"

lemma bit_shifted_byte: "bit (push_bit k (ucast (x :: u8) :: u32)) n \<Longrightarrow> k \<le> n \<and> n < k + 8"
  by (auto simp: bit_simps dest: bit_imp_le_length)

lemma u32_from_be_sum:
  "u32_from_be a b c d = push_bit 24 (ucast a) + (push_bit 16 (ucast b) + (push_bit 8 (ucast c) + ucast d))"
proof -
  have d: "bit (ucast d :: u32) n \<Longrightarrow> n < 8" for n using bit_shifted_byte [of 0 d n] by simp
  have "push_bit 8 (ucast c) + ucast d = (push_bit 8 (ucast c) OR ucast d :: u32)"
    by (rule disjunctive_add) (use d bit_shifted_byte [of 8 c] in force)
  moreover have "push_bit 16 (ucast b) + (push_bit 8 (ucast c) OR ucast d) =
      (push_bit 16 (ucast b) OR (push_bit 8 (ucast c) OR ucast d) :: u32)"
    by (rule disjunctive_add) (use d bit_shifted_byte [of 8 c] bit_shifted_byte [of 16 b] in \<open>force simp: bit_or_iff\<close>)
  moreover have "push_bit 24 (ucast a) + (push_bit 16 (ucast b) OR (push_bit 8 (ucast c) OR ucast d)) =
      (push_bit 24 (ucast a) OR (push_bit 16 (ucast b) OR (push_bit 8 (ucast c) OR ucast d)) :: u32)"
    by (rule disjunctive_add)
      (use d bit_shifted_byte [of 8 c] bit_shifted_byte [of 16 b] bit_shifted_byte [of 24 a] in \<open>force simp: bit_or_iff\<close>)
  ultimately show ?thesis by (simp add: u32_from_be_def or.assoc)
qed

lemma unat_u32_from_be:
  "unat (u32_from_be a b c d) = ((unat a * 256 + unat b) * 256 + unat c) * 256 + unat d"
proof -
  let ?n = "((unat a * 256 + unat b) * 256 + unat c) * 256 + unat d"
  have "u32_from_be a b c d = of_nat ?n"
    by (simp add: u32_from_be_sum push_bit_eq_mult algebra_simps)
  moreover have "?n < 2 ^ 32"
    using unat_lt_2p [of a] unat_lt_2p [of b] unat_lt_2p [of c] unat_lt_2p [of d] by simp
  then have "unat (of_nat ?n :: u32) = ?n" by (intro unat_of_nat_lt) simp
  ultimately show ?thesis by (simp only:)
qed

lemma be32_longword:
  assumes "(b + 1) * 512 \<le> length file" "i < 128"
  obtains w where "be32 (bslice file (b * 512) 512) (i * 4) = Ok w" "unat w = longword file b i"
proof -
  let ?w = "u32_from_be (file ! (b * 512 + i * 4)) (file ! (b * 512 + i * 4 + 1)) (file ! (b * 512 + i * 4 + 2))
    (file ! (b * 512 + i * 4 + 3))"
  have "be32 (bslice file (b * 512) 512) (i * 4) = be32 file (b * 512 + i * 4)"
    using assms by (intro be32_slice) simp_all
  also have "\<dots> = Ok ?w" using assms by (simp add: be32_def)
  finally show thesis by (rule that) (simp add: unat_u32_from_be longword_def)
qed

lemma unat_in_set: "w \<in> set ws \<longleftrightarrow> unat w \<in> set (map unat ws)" for w :: u32
  by (simp add: inj_image_mem_iff [OF inj_unat])

lemma dostype_listed: "dostype \<in> set RDB_PFS3_DOSTYPES \<or> dostype \<in> set PFS_TYPES \<longleftrightarrow> pfs3_dostype (unat dostype)"
proof -
  have listed: "dostype \<in> set RDB_PFS3_DOSTYPES \<or> dostype \<in> set PFS_TYPES \<longleftrightarrow>
      unat dostype \<in> {0x50465301, 0x50465302, 0x50465303, 0x50445301, 0x50445302, 0x50445303,
        0x41465301, 0x6D754146, 0x6D755046}"
    unfolding unat_in_set by (simp add: RDB_PFS3_DOSTYPES_def PFS_TYPES_def ID_PFS_DISK_def ID_PFS2_DISK_def
        ID_AFS_DISK_def ID_MUAF_DISK_def ID_MUPFS_DISK_def) blast
  have "n div 256 = q \<and> n mod 256 = r \<longleftrightarrow> n = q * 256 + r" if "r < 256" for n q r :: nat
    using that by auto
  note split = this [of "Suc 0"] this [of 2] this [of 3]
  show ?thesis
    unfolding listed pfs3_dostype_def tag_def
    by (simp add: conj_disj_distribL conj_disj_distribR split) blast
qed

lemma cylinder_count: "unat (h - l + 1) = nat ((int (unat h) - int (unat l) + 1) mod 2 ^ 32)" for h l :: u32
proof -
  have "int (unat (h - l + 1)) = (int (unat h) - int (unat l) + 1) mod 2 ^ 32"
    by (simp add: uint_word_ariths mod_simps)
  then show ?thesis by (metis nat_int)
qed

lemma parse_part_layout:
  assumes "(b + 1) * 512 \<le> length file"
  shows "parse_part (bslice file (b * 512) 512) = Ok (if is_pfs3_part file b then Some (described file b) else None)"
proof -
  let ?buf = "bslice file (b * 512) 512"
  have len: "length ?buf = 512" using assms by simp
  obtain m s t l h y where
      r: "be32 ?buf (0 * 4) = Ok m" "be32 ?buf (35 * 4) = Ok s" "be32 ?buf (37 * 4) = Ok t" "be32 ?buf (41 * 4) = Ok l"
        "be32 ?buf (42 * 4) = Ok h" "be32 ?buf (48 * 4) = Ok y"
    and n: "unat m = longword file b 0" "unat s = env file b 3" "unat t = env file b 5" "unat l = env file b 9"
        "unat h = env file b 10" "unat y = env file b 16"
    using be32_longword [OF assms, of 0] be32_longword [OF assms, of 35] be32_longword [OF assms, of 37]
      be32_longword [OF assms, of 41] be32_longword [OF assms, of 42] be32_longword [OF assms, of 48]
    by (simp add: env_def) metis
  have magic: "m = PART_MAGIC \<longleftrightarrow> longword file b 0 = tag ''PART''"
    unfolding n(1) [symmetric] by (simp add: word_unat_eq_iff PART_MAGIC_def tag_def)
  have nl: "idx ?buf 0x24 = Ok (file ! (b * 512 + 36))" using assms by (simp add: idx_def nth_bslice)
  have "sliceO ?buf 0x25 (0x25 + k) = Ok (take k (drop (b * 512 + 37) file))" if "k \<le> 30" for k
    using that assms by (auto simp: sliceO_def bslice_def drop_take take_take min_def ac_simps)
  note name = this [of "min (unat (file ! (b * 512 + 36))) 30"]
  have offset: "ucast l * ucast s * ucast t * 512 = (of_nat (env file b 9 * (env file b 3 * env file b 5) * 512) :: u64)"
    by (simp add: n(2-5) [symmetric] ac_simps)
  have blocks: "ucast (h - l + 1) * ucast s * ucast t =
      (of_nat (nat ((int (env file b 10) - int (env file b 9) + 1) mod 2 ^ 32) * (env file b 3 * env file b 5)) :: u64)"
    unfolding n(4,5) [symmetric] cylinder_count [symmetric] n(2,3) [symmetric] by (simp add: ac_simps)
  show ?thesis
    using r magic nl name dostype_listed [of y] n(6) offset blocks
    by (simp add: parse_part_def Let_def is_pfs3_part_def described_def latin1_to_string_def)
qed

lemma scan_parts_eq:
  "sorted blks \<Longrightarrow> scan_parts file blks =
     Ok (map (described file) (filter (\<lambda>b. (b + 1) * 512 \<le> length file \<and> is_pfs3_part file b) blks))"
proof (induction blks)
  case (Cons b blks)
  show ?case
  proof (cases "(b + 1) * 512 \<le> length file")
    case True
    with Cons parse_part_layout [OF True] show ?thesis by simp
  next
    case False
    then have "filter (\<lambda>b. (b + 1) * 512 \<le> length file \<and> is_pfs3_part file b) (b # blks) = []"
      using Cons.prems by (auto simp: filter_empty_conv)
    with False show ?thesis by simp
  qed
qed simp

text \<open>
  C27. Partition detection finds exactly the partitions that the table describes and never panics, whatever the
  file holds: a file shorter than a block is an I/O error, a file that does not start with \<open>RDSK\<close> has no
  partitions, and otherwise the result lists, in block order, the name, offset and size (64-bit products)
  of the partition blocks with a PFS3 file system type among the complete blocks from 1 up to the last one
  the header names, at most 1023.
\<close>

theorem detect_partitions_spec:
  "detect_pfs3_partitions file =
     (if length file < 512 then Err Io
      else if longword file 0 0 \<noteq> tag ''RDSK'' then Ok []
      else Ok (map (described file)
        (filter (\<lambda>b. (b + 1) * 512 \<le> length file \<and> is_pfs3_part file b) [1..<min (longword file 0 3) 1023 + 1])))"
proof (cases "length file < 512")
  case False
  then have "(0 + 1) * 512 \<le> length file" by simp
  note header = be32_longword [OF this]
  obtain v where v: "be32 (bslice file (0 * 512) 512) (0 * 4) = Ok v" "unat v = longword file 0 0" by (rule header [of 0]) simp
  obtain h where h: "be32 (bslice file (0 * 512) 512) (3 * 4) = Ok h" "unat h = longword file 0 3" by (rule header [of 3]) simp
  have "v = RDSK_MAGIC \<longleftrightarrow> longword file 0 0 = tag ''RDSK''"
    unfolding v(2) [symmetric] by (simp add: word_unat_eq_iff RDSK_MAGIC_def tag_def)
  then show ?thesis
    using False v(1) h by (simp add: detect_pfs3_partitions_def RDB_HIGHBLOCK_OFF_def Let_def scan_parts_eq)
qed (simp add: detect_pfs3_partitions_def)

end
