(* ===== verification/Volume.thy ===== *)
theory Volume
  imports Dir Bitmap Rdb
begin

text \<open>
  \<^verbatim>\<open>crates/libpfs3/src/volume.rs\<close>: opening a volume and reading from it.  An image file is its
  bytes; opening the file and the memory its buffers take are not modelled.  Sizes and offsets
  within a file (\<open>u64\<close>) are words where the source computes with the caller's values, and \<open>nat\<close>
  for positions inside an anode chain, which stay below \<open>2 ^ 64\<close>: a chain has at most a million
  anodes of at most \<open>2 ^ 32\<close> blocks of 512 bytes.
\<close>

record volume =
  v_dev :: device
  v_cache :: block_cache
  v_rootblock :: rootblock
  v_rootblock_ext :: "rootblock_ext option"
  v_anodes :: anode_reader
  v_bitmap :: bitmap_reader

section \<open>Opening\<close>

definition validate_rbs :: "rootblock \<Rightarrow> unit outcome" where
  "validate_rbs rb =
     (if rb_reserved_blksize rb < 64
      then Err (Corrupt (rs ''reserved_blksize '' @ show_nat (unat (rb_reserved_blksize rb)) @
             rs '' too small (minimum 64)''))
      else Ok ())"

text \<open>The three parts of \<open>from_device\<close>: the rootblock cluster, the extension, the volume.\<close>

definition read_rootblock :: "device \<Rightarrow> rootblock outcome" where
  "read_rootblock dev =
     (let buf = replicate 512 0 in
      bindO (read_block dev ROOTBLOCK buf) (\<lambda>buf.
      bindO (Rootblock_parse buf) (\<lambda>rb.
      let rblk_bytes = (ucast (rb_rblkcluster rb) :: u32) * 512 in
      if rblk_bytes > 512
      then let big_buf = replicate (unat rblk_bytes) 0 in
           bindO (read_blocks dev ROOTBLOCK (unat (rb_rblkcluster rb)) big_buf) (\<lambda>big_buf.
             Rootblock_parse big_buf)
      else Ok rb)))"

definition load_extension :: "device \<Rightarrow> rootblock \<Rightarrow> (block_cache, rootblock_ext option) rm" where
  "load_extension dev rootblock =
     (if has_extension rootblock
      then let rbs = rb_reserved_blksize rootblock in
           bindM (read_reserved dev (unat (rb_extension rootblock)) rbs) (\<lambda>data.
           bindM (liftO (RootblockExt_parse data)) (\<lambda>e. retM (Some e)))
      else retM None)"

definition from_device :: "device \<Rightarrow> volume outcome" where
  "from_device dev =
     bindO (read_rootblock dev) (\<lambda>rootblock.
     bindO (validate_rbs rootblock) (\<lambda>_.
     case load_extension dev rootblock BlockCache_new of (r, cache) \<Rightarrow>
     bindO r (\<lambda>rootblock_ext.
       Ok \<lparr>v_dev = dev, v_cache = cache, v_rootblock = rootblock, v_rootblock_ext = rootblock_ext,
           v_anodes = AnodeReader_new rootblock rootblock_ext,
           v_bitmap = BitmapReader_new rootblock\<rparr>)))"

definition open_impl :: "bytes \<Rightarrow> nat \<Rightarrow> bool \<Rightarrow> volume outcome" where
  "open_impl file partition_offset writable =
     bindO (if writable then Device.open_rw file 512 partition_offset 0
            else Device.open_ro file 512 partition_offset 0) from_device"

definition vol_open :: "bytes \<Rightarrow> nat \<Rightarrow> volume outcome" where
  "vol_open file partition_offset = open_impl file partition_offset False"

definition vol_open_rw :: "bytes \<Rightarrow> nat \<Rightarrow> volume outcome" where
  "vol_open_rw file partition_offset = open_impl file partition_offset True"

text \<open>\<open>str::parse::<usize>()\<close>: an optional plus sign and decimal digits, below \<open>2 ^ 64\<close>.\<close>

fun digits_value :: "nat \<Rightarrow> rstr \<Rightarrow> nat option" where
  "digits_value acc [] = Some acc"
| "digits_value acc (c # cs) =
     (if 48 \<le> c \<and> c \<le> 57 \<and> acc * 10 + (c - 48) < 2 ^ 64 then digits_value (acc * 10 + (c - 48)) cs
      else None)"

definition parse_usize :: "rstr \<Rightarrow> nat option" where
  "parse_usize s =
     (let ds = (case s of c # cs \<Rightarrow> if c = of_char CHR ''+'' then cs else s | [] \<Rightarrow> s) in
      if ds = [] then None else digits_value 0 ds)"

definition find_partition_offset :: "bytes \<Rightarrow> rstr \<Rightarrow> u64 outcome" where
  "find_partition_offset file name =
     bindO (detect_pfs3_partitions file) (\<lambda>parts.
       let by_name = find (\<lambda>p. name_eq_ci (pi_name p) name) parts;
           part = (case by_name of Some p \<Rightarrow> Some p
                   | None \<Rightarrow> (case parse_usize name of
                        Some i \<Rightarrow> if i < length parts then Some (parts ! i) else None
                      | None \<Rightarrow> None))
       in case part of Some p \<Rightarrow> Ok (pi_offset p)
          | None \<Rightarrow> Err (NotFound (rs ''partition '' @ [39] @ name @ [39] @ rs '' not found (available: '' @
               join_with (rs '', '') (map pi_name parts) @ rs '')'')))"

definition open_rdb :: "bytes \<Rightarrow> volume outcome" where
  "open_rdb file = bindO (detect_pfs3_partition file) (\<lambda>offset. vol_open file (unat offset))"

definition open_rdb_rw :: "bytes \<Rightarrow> volume outcome" where
  "open_rdb_rw file = bindO (detect_pfs3_partition file) (\<lambda>offset. vol_open_rw file (unat offset))"

definition open_partition :: "bytes \<Rightarrow> rstr \<Rightarrow> volume outcome" where
  "open_partition file name = bindO (find_partition_offset file name) (\<lambda>off. vol_open file (unat off))"

definition open_partition_rw :: "bytes \<Rightarrow> rstr \<Rightarrow> volume outcome" where
  "open_partition_rw file name =
     bindO (find_partition_offset file name) (\<lambda>off. vol_open_rw file (unat off))"

definition open_auto :: "bytes \<Rightarrow> nat \<Rightarrow> rstr option \<Rightarrow> bool \<Rightarrow> volume outcome" where
  "open_auto file offset part_name writable =
     (let open_fn = (if writable then vol_open_rw else vol_open) in
      case part_name of
        Some name \<Rightarrow> bindO (find_partition_offset file name) (\<lambda>off. open_fn file (unat off))
      | None \<Rightarrow>
          if offset = 0
          then (case detect_pfs3_partition file of
                  Ok off \<Rightarrow> open_fn file (unat off)
                | Err _ \<Rightarrow> open_fn file 0
                | Panic \<Rightarrow> Panic)
          else open_fn file offset)"

section \<open>Information\<close>

definition vol_name :: "volume \<Rightarrow> rstr" where
  "vol_name v = rb_diskname (v_rootblock v)"

definition vol_total_blocks :: "volume \<Rightarrow> u32" where
  "vol_total_blocks v = rb_disksize (v_rootblock v)"

definition vol_free_blocks :: "volume \<Rightarrow> u32" where
  "vol_free_blocks v = rb_blocksfree (v_rootblock v)"

definition vol_block_size :: "volume \<Rightarrow> u32" where
  "vol_block_size v = block_size (v_dev v)"

definition fnsize :: "volume \<Rightarrow> u16" where
  "fnsize v = (case v_rootblock_ext v of None \<Rightarrow> 32 | Some e \<Rightarrow> rx_fnsize e)"

text \<open>Run a reader on the volume's device and cache.\<close>

definition on_cache :: "(volume \<Rightarrow> (block_cache, 'a) rm) \<Rightarrow> (volume, 'a) rm" where
  "on_cache m v = zoomM v_cache (\<lambda>c v. v\<lparr>v_cache := c\<rparr>) (m v) v"

definition bitmap_count_free :: "(volume, u32) rm" where
  "bitmap_count_free =
     on_cache (\<lambda>v. count_free (v_bitmap v) (v_dev v) (rb_disksize (v_rootblock v)))"

definition get_anode_chain :: "u32 \<Rightarrow> (volume, anode list) rm" where
  "get_anode_chain anodenr = on_cache (\<lambda>v. get_chain (v_anodes v) anodenr (v_dev v))"

text \<open>The loop over the words of the reserved bitmap.\<close>

function count_words :: "bytes \<Rightarrow> nat \<Rightarrow> u32 \<Rightarrow> u32 outcome" where
  "count_words cluster i free =
     (if i + 4 \<le> length cluster
      then bindO (be32 cluster i) (\<lambda>word. count_words cluster (i + 4) (free + count_ones word))
      else Ok free)"
  by pat_completeness auto
termination
  by (relation "measure (\<lambda>(cluster, i, _). length cluster - i)") auto

declare count_words.simps [simp del]

definition reserved_count_free :: "volume \<Rightarrow> u32 outcome" where
  "reserved_count_free v =
     (let bs = unat (vol_block_size v);
          rblkcluster = unat (rb_rblkcluster (v_rootblock v));
          cluster = replicate (rblkcluster * bs) 0
      in bindO (read_blocks (v_dev v) (unat (rb_firstreserved (v_rootblock v))) rblkcluster cluster)
           (\<lambda>cluster. count_words cluster (bs + 12) 0))"

section \<open>Directories and files\<close>

definition list_dir_by_anode :: "u32 \<Rightarrow> (volume, dir_entry list) rm" where
  "list_dir_by_anode dir_anode =
     on_cache (\<lambda>v. list_entries dir_anode (v_anodes v) (v_dev v) (rb_reserved_blksize (v_rootblock v)))"

definition list_dir :: "rstr \<Rightarrow> (volume, dir_entry list) rm" where
  "list_dir path =
     bindM (on_cache (\<lambda>v. resolve_dir_path path (v_anodes v) (v_dev v) (rb_reserved_blksize (v_rootblock v))))
       list_dir_by_anode"

definition vol_lookup :: "rstr \<Rightarrow> (volume, dir_entry option) rm" where
  "vol_lookup path =
     on_cache (\<lambda>v. resolve_path path (v_anodes v) (v_dev v) (rb_reserved_blksize (v_rootblock v)))"

text \<open>
  One extent of \<open>read_file_data\<close>, given by its block numbers: appends to \<open>data\<close> and returns it with
  what remains.  An empty remainder is the \<open>break\<close>.
\<close>

fun read_extent :: "device \<Rightarrow> nat list \<Rightarrow> bytes \<times> nat \<Rightarrow> (bytes \<times> nat) outcome" where
  "read_extent d [] (data, remaining) = Ok (data, remaining)"
| "read_extent d (blk # blks) (data, remaining) =
     (if remaining = 0 then Ok (data, remaining)
      else let bs = unat (block_size d) in
        bindO (read_block d blk (replicate bs 0)) (\<lambda>block_buf.
        let chunk = min remaining bs in
        bindO (sliceO block_buf 0 chunk) (\<lambda>part.
          read_extent d blks (data @ part, remaining - chunk))))"

fun read_extents :: "device \<Rightarrow> anode list \<Rightarrow> bytes \<times> nat \<Rightarrow> (bytes \<times> nat) outcome" where
  "read_extents d [] st = Ok st"
| "read_extents d (an # chain) st =
     bindO (read_extent d (map (\<lambda>i. unat (an_blocknr an) + i) [0..<unat (an_clustersize an)]) st)
       (read_extents d chain)"

definition read_file_data :: "u32 \<Rightarrow> u64 \<Rightarrow> (volume, bytes) rm" where
  "read_file_data anodenr sz =
     bindM (get_anode_chain anodenr) (\<lambda>chain.
     bindM (getM v_dev) (\<lambda>d.
     bindM (liftO (read_extents d chain ([], unat sz))) (\<lambda>(data, _). retM data)))"

definition read_file :: "rstr \<Rightarrow> (volume, bytes) rm" where
  "read_file path =
     bindM (vol_lookup path) (\<lambda>r. case r of
       None \<Rightarrow> failM (NotFound path)
     | Some entry \<Rightarrow>
         if is_dir entry then failM NotADirectory
         else read_file_data (de_anode entry) (file_size entry))"

text \<open>The blocks of one extent in \<open>read_file_range\<close>.\<close>

fun range_extent ::
  "device \<Rightarrow> nat \<Rightarrow> nat \<Rightarrow> nat \<Rightarrow> anode \<Rightarrow> nat list \<Rightarrow> bytes \<Rightarrow> bytes outcome" where
  "range_extent d offset end block_pos an [] result = Ok result"
| "range_extent d offset end block_pos an (i # is) result =
     (let bs = unat (block_size d);
          blk_start = block_pos + i * bs;
          blk_end = blk_start + bs
      in if blk_end \<le> offset then range_extent d offset end block_pos an is result
         else if blk_start \<ge> end then Ok result
         else
           bindO (read_block d (unat (an_blocknr an) + i) (replicate bs 0)) (\<lambda>block_buf.
           let slice_start = (if offset > blk_start then offset - blk_start else 0);
               slice_end = (if end < blk_end then end - blk_start else bs) in
           bindO (sliceO block_buf slice_start slice_end) (\<lambda>part.
             range_extent d offset end block_pos an is (result @ part))))"

fun range_extents :: "device \<Rightarrow> nat \<Rightarrow> nat \<Rightarrow> nat \<Rightarrow> anode list \<Rightarrow> bytes \<Rightarrow> bytes outcome" where
  "range_extents d offset end block_pos [] result = Ok result"
| "range_extents d offset end block_pos (an # chain) result =
     (let extent_bytes = unat (an_clustersize an) * unat (block_size d);
          extent_end = block_pos + extent_bytes
      in if extent_end \<le> offset then range_extents d offset end extent_end chain result
         else if block_pos \<ge> end then Ok result
         else
           bindO (range_extent d offset end block_pos an [0..<unat (an_clustersize an)] result)
             (range_extents d offset end extent_end chain))"

definition read_file_range :: "u32 \<Rightarrow> u64 \<Rightarrow> u64 \<Rightarrow> u32 \<Rightarrow> (volume, bytes) rm" where
  "read_file_range anodenr fsize offset len =
     (if offset \<ge> fsize then retM []
      else
        let end = min (offset + ucast len) fsize in
        bindM (get_anode_chain anodenr) (\<lambda>chain.
        bindM (getM v_dev) (\<lambda>d.
          liftO (range_extents d (unat offset) (unat end) 0 chain []))))"

definition validate_anode_chain :: "u32 \<Rightarrow> (volume, nat list) rm" where
  "validate_anode_chain anodenr =
     bindM (get_anode_chain anodenr) (\<lambda>chain. retM (chain_blocks chain))"

text \<open>The slots of one block of deleted files.\<close>

definition deldir_block_entries :: "bytes \<Rightarrow> u16 \<Rightarrow> deldir_entry list outcome" where
  "deldir_block_entries data rbs =
     bindO (mapO (\<lambda>i.
         let off = DELDIR_HEADER_SIZE + i * DELDIR_ENTRY_SIZE in
         if off + DELDIR_ENTRY_SIZE \<le> length data
         then bindO (sliceO data off (off + DELDIR_ENTRY_SIZE)) DelDirEntry_parse
         else Ok None)
       [0..<deldir_entries_per_block rbs]) (\<lambda>slots. Ok (List.map_filter id slots))"

definition list_deldir :: "(volume, deldir_entry list) rm" where
  "list_deldir v =
     (if \<not> has_flag (v_rootblock v) MODE_DELDIR then (Ok [], v)
      else (case v_rootblock_ext v of
          None \<Rightarrow> (Ok [], v)
        | Some rext \<Rightarrow>
            let rbs = rb_reserved_blksize (v_rootblock v) in
            foldM (\<lambda>result blk.
              if blk = 0 then retM result
              else bindM (on_cache (\<lambda>v. read_reserved (v_dev v) (unat blk) rbs)) (\<lambda>data.
                   bindM (liftO (be16 data 0)) (\<lambda>id.
                   if id \<noteq> DELDIRID then retM result
                   else bindM (liftO (deldir_block_entries data rbs)) (\<lambda>es. retM (result @ es)))))
              [] (rx_deldirblocks rext) v))"

section \<open>An open volume\<close>

text \<open>
  What every volume returned by \<open>from_device\<close> satisfies: the readers belong to its rootblock,
  the geometry is usable and the cache agrees with the device.
\<close>

definition vol_wf :: "volume \<Rightarrow> bool" where
  "vol_wf v \<longleftrightarrow>
     64 \<le> rb_reserved_blksize (v_rootblock v) \<and> d_block_bytes (v_dev v) \<noteq> 0 \<and>
     v_anodes v = AnodeReader_new (v_rootblock v) (v_rootblock_ext v) \<and>
     v_bitmap v = BitmapReader_new (v_rootblock v) \<and>
     coherent (v_dev v) (rb_reserved_blksize (v_rootblock v)) (v_cache v)"

lemma Rootblock_parse_not_Panic: "Rootblock_parse data \<noteq> Panic"
  and RootblockExt_parse_not_Panic: "RootblockExt_parse data \<noteq> Panic"
  by (subst Rootblock_parse_cases, simp, subst RootblockExt_parse_cases, simp)

lemma read_blocks_not_Panic: "read_blocks d b n buf \<noteq> Panic"
  by (simp add: read_blocks_def Let_def)

lemma read_block_not_Panic: "read_block d b buf \<noteq> Panic"
  by (simp add: read_block_def read_blocks_not_Panic)

lemma read_rootblock_block_bytes:
  assumes "read_rootblock d = Ok rb"
  shows "d_block_bytes d \<noteq> 0"
proof
  assume z: "d_block_bytes d = 0"
  have "read_block d ROOTBLOCK (replicate 512 0) = Ok buf \<Longrightarrow> buf = replicate 512 0" for buf
    using z by (auto simp: read_block_def read_blocks_def Let_def splice_eq bslice_def split: if_splits)
  moreover have "be32 (replicate 512 0) 0 = Ok 0" by (simp add: be32_replicate_0)
  moreover have "(0 :: u32) \<notin> set PFS_TYPES" by (simp add: PFS_TYPES_def const_defs)
  ultimately show False
    using assms Rootblock_parse_cases [of "replicate 512 0"]
    by (auto simp: read_rootblock_def Let_def bindO_eq_Ok)
qed

lemma read_rootblock_not_Panic: "read_rootblock d \<noteq> Panic"
  by (auto simp: read_rootblock_def Let_def bindO_eq_Panic read_block_not_Panic read_blocks_not_Panic
      Rootblock_parse_not_Panic)

lemma load_extension_transparent:
  "transparent (coherent d (rb_reserved_blksize rb)) (load_extension d rb)
     (if has_extension rb
      then bindO (dev_reserved d (unat (rb_extension rb)) (rb_reserved_blksize rb)) (\<lambda>data.
           bindO (RootblockExt_parse data) (\<lambda>e. Ok (Some e)))
      else Ok None)"
  unfolding load_extension_def Let_def
  by (intro transparent_if cached.rd_bind_transparent transparent_bind transparent_lift transparent_ret)

lemma from_device_wf:
  assumes "from_device d = Ok v"
  shows "vol_wf v" "v_dev v = d"
proof -
  let ?ext = "\<lambda>rb. load_extension d rb BlockCache_new"
  from assms obtain rb e where p: "read_rootblock d = Ok rb" "validate_rbs rb = Ok ()"
      "v = \<lparr>v_dev = d, v_cache = snd (?ext rb), v_rootblock = rb, v_rootblock_ext = e,
           v_anodes = AnodeReader_new rb e, v_bitmap = BitmapReader_new rb\<rparr>"
    by (auto simp: from_device_def bindO_eq_Ok case_prod_beta)
  have "64 \<le> rb_reserved_blksize rb"
    using p(2) by (auto simp: validate_rbs_def not_less split: if_splits)
  moreover have "coherent d (rb_reserved_blksize rb) (snd (?ext rb))"
    by (rule transparentD2 [OF load_extension_transparent coherent_new])
  ultimately show "vol_wf v" "v_dev v = d"
    using p(3) read_rootblock_block_bytes [OF p(1)] by (simp_all add: vol_wf_def)
qed

lemma open_impl_device:
  assumes "open_impl img off wr = Ok v"
  shows "vol_wf v" "d_contents (v_dev v) = img"
proof -
  obtain d where d: "new_impl img 512 off 0 wr = Ok d" "from_device d = Ok v"
    using assms by (auto simp: open_impl_def open_rw_def open_ro_def bindO_eq_Ok split: if_splits)
  have "v_dev v = d" "vol_wf v" using from_device_wf [OF d(2)] by auto
  moreover have "d_contents d = img" using d(1) by (auto simp: new_impl_def Let_def split: if_splits)
  ultimately show "vol_wf v" "d_contents (v_dev v) = img" by simp_all
qed

lemma open_auto_device:
  assumes "open_auto img off part wr = Ok v"
  shows "vol_wf v" "d_contents (v_dev v) = img"
proof -
  obtain off' where "open_impl img off' wr = Ok v"
    using assms
    by (auto simp: open_auto_def vol_open_def vol_open_rw_def Let_def bindO_eq_Ok split: if_splits outcome.splits option.splits)
  from open_impl_device [OF this] show "vol_wf v" "d_contents (v_dev v) = img" by blast+
qed

lemma from_device_not_Panic: "from_device d \<noteq> Panic"
proof
  assume "from_device d = Panic"
  then obtain rb where rb: "read_rootblock d = Ok rb" "fst (load_extension d rb BlockCache_new) = Panic"
    by (auto simp: from_device_def bindO_eq_Panic read_rootblock_not_Panic validate_rbs_def
        case_prod_beta split: if_splits)
  then show False
    using transparentD1 [OF load_extension_transparent coherent_new, of d rb]
      dev_reserved_not_Panic [OF read_rootblock_block_bytes [OF rb(1)]]
    by (auto simp: bindO_eq_Panic RootblockExt_parse_not_Panic split: if_splits)
qed

section \<open>Reading does not change the volume\<close>

text \<open>The same volume up to its cache.\<close>

definition same_volume :: "volume \<Rightarrow> volume \<Rightarrow> bool" where
  "same_volume v0 v \<longleftrightarrow>
     v = v0\<lparr>v_cache := v_cache v\<rparr> \<and>
     coherent (v_dev v0) (rb_reserved_blksize (v_rootblock v0)) (v_cache v)"

lemma same_volume_refl: "vol_wf v \<Longrightarrow> same_volume v v"
  by (simp add: vol_wf_def same_volume_def)

lemma same_volume_fields:
  assumes "same_volume v0 v"
  shows "v_dev v = v_dev v0" "v_rootblock v = v_rootblock v0" "v_rootblock_ext v = v_rootblock_ext v0"
    "v_anodes v = v_anodes v0" "v_bitmap v = v_bitmap v0"
  using assms by (metis same_volume_def volume.select_convs(1-6) volume.surjective
      volume.update_convs(2))+

lemma same_volume_coherent:
  "same_volume v0 v \<Longrightarrow> coherent (v_dev v0) (rb_reserved_blksize (v_rootblock v0)) (v_cache v)"
  unfolding same_volume_def by blast

lemma same_volume_wf:
  assumes "vol_wf v0" "same_volume v0 v"
  shows "vol_wf v"
  using assms(1) same_volume_coherent [OF assms(2)]
  by (simp add: vol_wf_def same_volume_fields [OF assms(2)])

lemma on_cache_transparent:
  assumes "transparent (coherent (v_dev v0) (rb_reserved_blksize (v_rootblock v0))) (m v0) r"
    and "\<And>c. m (v0\<lparr>v_cache := c\<rparr>) = m v0"
  shows "transparent (same_volume v0) (on_cache m) r"
proof -
  have "fst (on_cache m v) = r \<and> same_volume v0 (snd (on_cache m v))" if sv: "same_volume v0 v" for v
  proof -
    obtain c where v: "v = v0\<lparr>v_cache := c\<rparr>"
        "coherent (v_dev v0) (rb_reserved_blksize (v_rootblock v0)) c"
      using sv unfolding same_volume_def by blast
    then show ?thesis
      using assms by (auto simp: on_cache_def zoomM_def same_volume_def transparent_def split: prod.splits)
  qed
  then show ?thesis by (simp add: transparent_def)
qed

lemma vol_value: "vol_wf v \<Longrightarrow> transparent (same_volume v) m r \<Longrightarrow> fst (m v) = r"
  by (simp add: transparent_def same_volume_refl)

lemma transparent_dev: "transparent (same_volume v0) (getM v_dev) (Ok (v_dev v0))"
  by (simp add: transparent_def same_volume_fields)

lemma vol_reader_rbs: "vol_wf v \<Longrightarrow> ar_reserved_blksize (v_anodes v) = rb_reserved_blksize (v_rootblock v)"
  and vol_bitmap_rbs: "vol_wf v \<Longrightarrow> br_reserved_blksize (v_bitmap v) = rb_reserved_blksize (v_rootblock v)"
  by (simp_all add: vol_wf_def AnodeReader_new_def BitmapReader_new_def)

definition vol_chain :: "volume \<Rightarrow> u32 \<Rightarrow> anode list outcome" where
  "vol_chain v nr = chain_ref (anode_ref (v_anodes v) (v_dev v)) nr {} []"

lemma get_anode_chain_transparent:
  "vol_wf v \<Longrightarrow> transparent (same_volume v) (get_anode_chain nr) (vol_chain v nr)"
  unfolding get_anode_chain_def vol_chain_def
  by (rule on_cache_transparent) (simp_all add: get_chain_transparent vol_reader_rbs)

lemma vol_chain_not_Panic: "vol_wf v \<Longrightarrow> vol_chain v nr \<noteq> Panic"
  unfolding vol_chain_def
  by (rule chain_ref_not_Panic) (auto simp: vol_wf_def anode_ref_not_Panic)

section \<open>File contents\<close>

text \<open>What a data block holds, zeros when it cannot be read, and the contents of an extent list.\<close>

definition block_content :: "device \<Rightarrow> nat \<Rightarrow> bytes" where
  "block_content d b =
     (case read_block d b (replicate (unat (block_size d)) 0) of
        Ok x \<Rightarrow> x | _ \<Rightarrow> replicate (unat (block_size d)) 0)"

definition blocks_content :: "device \<Rightarrow> nat list \<Rightarrow> bytes" where
  "blocks_content d bl = concat (map (block_content d) bl)"

abbreviation read_data_block :: "device \<Rightarrow> nat \<Rightarrow> bytes outcome" where
  "read_data_block d b \<equiv> read_block d b (replicate (unat (block_size d)) 0)"

lemma length_read_block: "read_block d b buf = Ok x \<Longrightarrow> length x = length buf"
  by (auto simp: read_block_def read_blocks_def Let_def split: if_splits)

lemma length_block_content [simp]: "length (block_content d b) = unat (block_size d)"
  by (auto simp: block_content_def dest: length_read_block split: outcome.split)

lemma block_content_Ok: "read_data_block d b = Ok x \<Longrightarrow> block_content d b = x"
  by (simp add: block_content_def)

lemma blocks_content_simps [simp]:
  "blocks_content d [] = []" "blocks_content d (b # bl) = block_content d b @ blocks_content d bl"
  "blocks_content d (bl @ bl') = blocks_content d bl @ blocks_content d bl'"
  by (simp_all add: blocks_content_def)

lemma length_blocks_content [simp]: "length (blocks_content d bl) = length bl * unat (block_size d)"
  by (induction bl) simp_all

lemma read_extent_append:
  "read_extent d (xs @ ys) st = bindO (read_extent d xs st) (read_extent d ys)"
proof (induction d xs st rule: read_extent.induct)
  case (1 d data remaining)
  show ?case by simp
next
  case (2 d blk blks data remaining)
  show ?case
  proof (cases "remaining = 0")
    case True
    then show ?thesis by (cases ys) simp_all
  next
    case False
    with 2 show ?thesis
      by (cases "read_data_block d blk") (simp_all add: Let_def sliceO_def)
  qed
qed

lemma read_extents_flat: "read_extents d chain st = read_extent d (chain_blocks chain) st"
proof (induction chain arbitrary: st)
  case Nil
  show ?case by (cases st) (simp add: chain_blocks_def)
next
  case (Cons an chain)
  show ?case
    by (simp add: chain_blocks_def read_extent_append)
      (rule bindO_cong, simp_all add: Cons chain_blocks_def)
qed

text \<open>A successful read returns the contents of the extents up to the size, and has read every block below it.\<close>

lemma read_extent_Ok:
  assumes "read_extent d bl (data, remaining) = Ok (data', rem')"
  shows "data' = data @ take remaining (blocks_content d bl) \<and>
    (\<forall>i < length bl. i * unat (block_size d) < remaining \<longrightarrow> is_ok (read_data_block d (bl ! i)))"
  using assms
proof (induction bl arbitrary: data remaining)
  case Nil
  then show ?case by simp
next
  case (Cons b bl)
  let ?bs = "unat (block_size d)"
  show ?case
  proof (cases "remaining = 0")
    case True
    with Cons.prems show ?thesis by simp
  next
    case False
    with Cons.prems obtain x where x: "read_data_block d b = Ok x"
        "read_extent d bl (data @ take (min remaining ?bs) x, remaining - min remaining ?bs) = Ok (data', rem')"
      by (auto simp: Let_def bindO_eq_Ok sliceO_def bslice_def split: if_splits)
    have len: "length x = ?bs" using length_read_block [OF x(1)] by simp
    note IH = Cons.IH [OF x(2)]
    have "is_ok (read_data_block d ((b # bl) ! i))" if "i < length (b # bl)" "i * ?bs < remaining" for i
    proof (cases i)
      case (Suc j)
      then have "j * ?bs < remaining - min remaining ?bs" using that(2) by auto
      with IH Suc that(1) show ?thesis by simp
    qed (simp add: x(1))
    moreover have "data' = data @ take remaining (blocks_content d (b # bl))"
      using IH len block_content_Ok [OF x(1)] by (simp add: min_def)
    ultimately show ?thesis by blast
  qed
qed

lemma read_extent_not_Panic: "read_extent d bl st \<noteq> Panic"
proof (induction d bl st rule: read_extent.induct)
  case (2 d blk blks data remaining)
  then show ?case
    by (auto simp: Let_def bindO_eq_Panic read_block_not_Panic sliceO_def dest: length_read_block)
qed simp

section \<open>Byte ranges\<close>

text \<open>The part of \<open>xs\<close>, which starts at position \<open>p\<close> of a file, that lies in \<open>[off, end)\<close>.\<close>

definition in_range :: "nat \<Rightarrow> nat \<Rightarrow> nat \<Rightarrow> bytes \<Rightarrow> bytes" where
  "in_range off end p xs = take (end - max p off) (drop (off - p) xs)"

lemma in_range_append:
  "in_range off end p (xs @ ys) = in_range off end p xs @ in_range off end (p + length xs) ys"
proof -
  have "end - max p off - (length xs - (off - p)) = end - max (p + length xs) off"
    by (auto simp: max_def)
  then show ?thesis by (simp add: in_range_def)
qed

lemma in_range_before: "p + length xs \<le> off \<Longrightarrow> in_range off end p xs = []"
  and in_range_after: "end \<le> p \<Longrightarrow> in_range off end p xs = []"
  by (simp_all add: in_range_def)

lemma in_range_slice:
  assumes "off < p + length xs" "p < end" "off \<le> end"
  shows "sliceO xs (if off > p then off - p else 0) (if end < p + length xs then end - p else length xs) =
    Ok (in_range off end p xs)"
  using assms by (auto simp: sliceO_def bslice_def in_range_def max_def)

text \<open>Every block that meets the range can be read.\<close>

definition range_readable :: "device \<Rightarrow> nat \<Rightarrow> nat \<Rightarrow> nat \<Rightarrow> nat list \<Rightarrow> bool" where
  "range_readable d off end p bl \<longleftrightarrow>
     (\<forall>i < length bl. off < p + Suc i * unat (block_size d) \<and> p + i * unat (block_size d) < end \<longrightarrow>
        is_ok (read_data_block d (bl ! i)))"

lemma range_readable_Cons:
  "range_readable d off end p (b # bl) \<longleftrightarrow>
     (off < p + unat (block_size d) \<and> p < end \<longrightarrow> is_ok (read_data_block d b)) \<and>
     range_readable d off end (p + unat (block_size d)) bl"
  by (auto simp: range_readable_def less_Suc_eq_0_disj add.assoc)


lemma range_readable_append:
  "range_readable d off end p (xs @ ys) \<longleftrightarrow>
     range_readable d off end p xs \<and> range_readable d off end (p + length xs * unat (block_size d)) ys"
proof (induction xs arbitrary: p)
  case Nil
  show ?case by (simp add: range_readable_def)
next
  case (Cons x xs)
  then show ?case by (simp add: range_readable_Cons add.assoc)
qed

lemma range_extent_Ok:
  assumes "off \<le> end" "j \<le> n"
    and "range_readable d off end (pos + j * unat (block_size d)) (map (\<lambda>i. unat (an_blocknr an) + i) [j..<n])"
  shows "range_extent d off end pos an [j..<n] result =
    Ok (result @ in_range off end (pos + j * unat (block_size d))
      (blocks_content d (map (\<lambda>i. unat (an_blocknr an) + i) [j..<n])))"
  using assms(2,3)
proof (induction "n - j" arbitrary: j result)
  case 0
  then show ?case by (simp add: in_range_def)
next
  case (Suc m)
  let ?bs = "unat (block_size d)"
  let ?p = "pos + j * ?bs"
  let ?b = "unat (an_blocknr an) + j"
  let ?c = "\<lambda>j. blocks_content d (map (\<lambda>i. unat (an_blocknr an) + i) [j..<n])"
  have j: "[j..<n] = j # [Suc j..<n]" using Suc(2) by (simp add: upt_rec)
  have p': "pos + Suc j * ?bs = ?p + ?bs" by simp
  have rr: "range_readable d off end (pos + Suc j * ?bs) (map (\<lambda>i. unat (an_blocknr an) + i) [Suc j..<n])"
      and here: "off < ?p + ?bs \<and> ?p < end \<longrightarrow> is_ok (read_data_block d ?b)"
    using Suc.prems(2) unfolding j p' by (simp_all add: range_readable_Cons)
  have IH: "range_extent d off end pos an [Suc j..<n] r = Ok (r @ in_range off end (?p + ?bs) (?c (Suc j)))" for r
    using Suc(1) [of "Suc j" r] Suc(2) rr unfolding p' by simp
  have split: "in_range off end ?p (?c j) =
      in_range off end ?p (block_content d ?b) @ in_range off end (?p + ?bs) (?c (Suc j))"
    unfolding j by (simp add: in_range_append)
  consider "?p + ?bs \<le> off" | "off < ?p + ?bs" "end \<le> ?p" | "off < ?p + ?bs" "?p < end" by linarith
  then show ?case
  proof cases
    case 1
    then show ?thesis unfolding split unfolding j by (simp add: Let_def IH in_range_before)
  next
    case 2
    then show ?thesis unfolding split unfolding j by (simp add: Let_def in_range_after)
  next
    case 3
    then obtain x where x: "read_data_block d ?b = Ok x" using here by (auto simp: is_ok_iff)
    have len: "length x = ?bs" using length_read_block [OF x] by simp
    have "sliceO x (if off > ?p then off - ?p else 0) (if end < ?p + ?bs then end - ?p else ?bs) =
        Ok (in_range off end ?p (block_content d ?b))"
      using in_range_slice [of off ?p x "end", unfolded len, OF 3 assms(1)]
      unfolding block_content_Ok [OF x] .
    then show ?thesis
      using 3 x IH unfolding split unfolding j by (simp add: Let_def)
  qed
qed

lemma range_extents_Ok:
  assumes "off \<le> end" "range_readable d off end pos (chain_blocks chain)"
  shows "range_extents d off end pos chain result =
    Ok (result @ in_range off end pos (blocks_content d (chain_blocks chain)))"
  using assms(2)
proof (induction chain arbitrary: pos result)
  case Nil
  show ?case by (simp add: chain_blocks_def in_range_def)
next
  case (Cons an chain)
  let ?bl = "map (\<lambda>i. unat (an_blocknr an) + i) [0..<unat (an_clustersize an)]"
  let ?e = "pos + unat (an_clustersize an) * unat (block_size d)"
  have cb: "chain_blocks (an # chain) = ?bl @ chain_blocks chain" by (simp add: chain_blocks_def)
  have rr: "range_readable d off end pos ?bl" "range_readable d off end ?e (chain_blocks chain)"
    using Cons.prems unfolding cb range_readable_append by simp_all
  have split: "in_range off end pos (blocks_content d (chain_blocks (an # chain))) =
      in_range off end pos (blocks_content d ?bl) @
      in_range off end ?e (blocks_content d (chain_blocks chain))"
    unfolding cb by (simp add: in_range_append)
  consider "?e \<le> off" | "off < ?e" "end \<le> pos" | "off < ?e" "pos < end" by linarith
  then show ?case
  proof cases
    case 1
    then show ?thesis unfolding split using rr Cons.IH by (simp add: Let_def in_range_before)
  next
    case 2
    then show ?thesis unfolding split by (simp add: Let_def in_range_after)
  next
    case 3
    have "range_extent d off end pos an [0..<unat (an_clustersize an)] result =
        Ok (result @ in_range off end pos (blocks_content d ?bl))"
      using range_extent_Ok [OF assms(1), of 0 "unat (an_clustersize an)" d pos an result] rr(1) by simp
    with 3 show ?thesis unfolding split using rr(2) Cons.IH by (simp add: Let_def)
  qed
qed

section \<open>Properties\<close>

definition file_data_ref :: "volume \<Rightarrow> u32 \<Rightarrow> u64 \<Rightarrow> bytes outcome" where
  "file_data_ref v nr sz =
     bindO (vol_chain v nr) (\<lambda>chain.
     bindO (read_extents (v_dev v) chain ([], unat sz)) (\<lambda>(data, _). Ok data))"

lemma read_file_data_transparent:
  assumes "vol_wf v"
  shows "transparent (same_volume v) (read_file_data nr sz) (file_data_ref v nr sz)"
proof -
  have "transparent (same_volume v) (read_file_data nr sz)
     (bindO (vol_chain v nr) (\<lambda>chain. bindO (Ok (v_dev v)) (\<lambda>d.
      bindO (read_extents d chain ([], unat sz)) (\<lambda>(data, _). Ok data))))"
    unfolding read_file_data_def
    by (intro transparent_bind get_anode_chain_transparent assms transparent_dev transparent_lift)
      (auto intro: transparent_ret)
  then show ?thesis by (simp add: file_data_ref_def)
qed

lemma read_file_range_transparent:
  assumes "vol_wf v" "offset < fsize"
  shows "transparent (same_volume v) (read_file_range nr fsize offset len)
    (bindO (vol_chain v nr) (\<lambda>chain.
       range_extents (v_dev v) (unat offset) (unat (min (offset + ucast len) fsize)) 0 chain []))"
proof -
  have eq: "read_file_range nr fsize offset len =
      bindM (get_anode_chain nr) (\<lambda>chain. bindM (getM v_dev) (\<lambda>d.
        liftO (range_extents d (unat offset) (unat (min (offset + ucast len) fsize)) 0 chain [])))"
    using assms(2) by (simp add: read_file_range_def Let_def not_le [symmetric])
  have "transparent (same_volume v) (read_file_range nr fsize offset len)
     (bindO (vol_chain v nr) (\<lambda>chain. bindO (Ok (v_dev v)) (\<lambda>d.
       range_extents d (unat offset) (unat (min (offset + ucast len) fsize)) 0 chain [])))"
    unfolding eq
    by (intro transparent_bind get_anode_chain_transparent assms(1) transparent_dev transparent_lift)
  then show ?thesis by simp
qed

lemma unat_range_end:
  assumes "unat offset + unat len < 2 ^ 64"
  shows "unat (min (offset + ucast (len :: u32)) (fsize :: u64)) = min (unat offset + unat len) (unat fsize)"
proof -
  have "unat (offset + ucast len) = unat offset + unat len"
    using assms by (subst unat_add_lt) (simp_all add: unat_ucast_up_simp)
  then show ?thesis by (simp add: min_def word_le_nat_alt)
qed

lemma file_data_range_readable:
  assumes "read_extent d bl ([], sz) = Ok st" "end \<le> sz"
  shows "range_readable d off end 0 bl"
proof -
  obtain data rem where "st = (data, rem)" by (cases st)
  with read_extent_Ok [of d bl "[]" sz] assms show ?thesis
    by (auto simp: range_readable_def)
qed

lemma read_range_slice:
  assumes "vol_wf v" "fst (read_file_data nr fsize v) = Ok data" "unat offset + unat len < 2 ^ 64"
  shows "fst (read_file_range nr fsize offset len v) = Ok (take (unat len) (drop (unat offset) data))"
proof -
  have "file_data_ref v nr fsize = Ok data"
    using read_file_data_transparent [OF assms(1)] same_volume_refl [OF assms(1)] assms(2)
    by (auto simp: transparent_def)
  then obtain chain rem where c: "vol_chain v nr = Ok chain"
      "read_extent (v_dev v) (chain_blocks chain) ([], unat fsize) = Ok (data, rem)"
    by (auto simp: file_data_ref_def bindO_eq_Ok read_extents_flat)
  have data: "data = take (unat fsize) (blocks_content (v_dev v) (chain_blocks chain))"
    using read_extent_Ok [OF c(2)] by simp
  show ?thesis
  proof (cases "offset < fsize")
    case True
    then have le: "unat offset < unat fsize" by (simp add: word_less_nat_alt)
    let ?fin = "min (unat offset + unat len) (unat fsize)"
    have "fst (read_file_range nr fsize offset len v) =
        range_extents (v_dev v) (unat offset) ?fin 0 chain []"
      using transparentD1 [OF read_file_range_transparent [OF assms(1) True] same_volume_refl [OF assms(1)]]
        c(1) unat_range_end [OF assms(3)] by simp
    also have "\<dots> = Ok (in_range (unat offset) ?fin 0 (blocks_content (v_dev v) (chain_blocks chain)))"
      using range_extents_Ok [of "unat offset" ?fin "v_dev v" 0 chain "[]"]
        file_data_range_readable [OF c(2), of ?fin] le by simp
    also have "in_range (unat offset) ?fin 0 (blocks_content (v_dev v) (chain_blocks chain)) =
        take (unat len) (drop (unat offset) data)"
      using le by (simp add: in_range_def data drop_take min_def)
    finally show ?thesis .
  next
    case False
    then have "unat fsize \<le> unat offset" by (simp add: word_le_nat_alt not_less)
    with False show ?thesis by (simp add: read_file_range_def data not_less)
  qed
qed

text \<open>
  C4. Reading a byte range returns exactly that slice of the whole file: whenever reading the file
  with its size succeeds, \<open>read_file_range\<close> returns the \<open>len\<close> bytes from \<open>offset\<close> on of that data,
  cut off at its end, although it reads only the blocks that overlap the range.
\<close>

theorem read_file_range_slice:
  assumes "vol_wf v" "fst (read_file_data nr fsize v) = Ok data" "unat offset + unat len < 2 ^ 64"
  shows "fst (read_file_range nr fsize offset len v) = Ok (take (unat len) (drop (unat offset) data))"
  using assms by (rule read_range_slice)

section \<open>No panic\<close>

lemma range_extent_not_Panic:
  "off \<le> end \<Longrightarrow> range_extent d off end pos an is result \<noteq> Panic"
proof (induction "is" arbitrary: result)
  case (Cons i "is")
  let ?p = "pos + i * unat (block_size d)"
  have "sliceO x (if off > ?p then off - ?p else 0) (if end < ?p + unat (block_size d) then end - ?p
      else unat (block_size d)) \<noteq> Panic"
    if "off < ?p + unat (block_size d)" "?p < end" "read_data_block d b = Ok x" for x b
  proof -
    have len: "length x = unat (block_size d)" using length_read_block [OF that(3)] by simp
    show ?thesis
      unfolding in_range_slice [of off ?p x "end", unfolded len, OF that(1,2) Cons.prems] by simp
  qed
  with Cons show ?case
    by (auto simp: Let_def bindO_eq_Panic read_block_not_Panic not_le)
qed simp

lemma range_extents_not_Panic:
  "off \<le> end \<Longrightarrow> range_extents d off end pos chain result \<noteq> Panic"
  by (induction chain arbitrary: pos result) (auto simp: Let_def bindO_eq_Panic range_extent_not_Panic)

lemma dir_entries_ref_not_Panic:
  assumes "vol_wf v"
  shows "dir_entries_ref (v_anodes v) (v_dev v) rbs a \<noteq> Panic"
proof -
  have "d_block_bytes (v_dev v) \<noteq> 0" using assms by (simp add: vol_wf_def)
  then have "mapO (\<lambda>b. dev_reserved (v_dev v) b rbs) bl \<noteq> Panic" for bl
    by (intro mapO_not_Panic) (simp add: dev_reserved_not_Panic)
  then show ?thesis
    using vol_chain_not_Panic [OF assms, of a]
    by (auto simp: dir_entries_ref_def bindO_eq_Panic vol_chain_def)
qed

lemma lookup_ref_not_Panic:
  "vol_wf v \<Longrightarrow> lookup_ref (v_anodes v) (v_dev v) rbs a name \<noteq> Panic"
  by (auto simp: lookup_ref_def bindO_eq_Panic dir_entries_ref_not_Panic find_entry_def split: option.splits)

lemma walk_not_Panic: "(\<And>a p. look a p \<noteq> Panic) \<Longrightarrow> walk look ps a \<noteq> Panic"
  by (induction ps arbitrary: a) (auto simp: bindO_eq_Panic)

lemma not_found_none_Panic: "not_found_none r = Panic \<longleftrightarrow> r = Panic"
  by (cases r rule: not_found_none.cases) auto

lemma walk_entry_not_Panic: "(\<And>a p. look a p \<noteq> Panic) \<Longrightarrow> walk_entry look ps a \<noteq> Panic"
  by (auto simp: walk_entry_def bindO_eq_Panic walk_not_Panic not_found_none_Panic)

lemma vol_lookup_transparent:
  "vol_wf v \<Longrightarrow> transparent (same_volume v) (vol_lookup p)
     (walk_entry (lookup_ref (v_anodes v) (v_dev v) (rb_reserved_blksize (v_rootblock v)))
        (path_parts p) ANODE_ROOTDIR)"
  unfolding vol_lookup_def resolve_path_def
  by (rule on_cache_transparent) (simp_all add: resolve_parts_transparent vol_reader_rbs)

lemma list_dir_by_anode_transparent:
  "vol_wf v \<Longrightarrow> transparent (same_volume v) (list_dir_by_anode a)
     (dir_entries_ref (v_anodes v) (v_dev v) (rb_reserved_blksize (v_rootblock v)) a)"
  unfolding list_dir_by_anode_def
  by (rule on_cache_transparent) (simp_all add: list_entries_transparent vol_reader_rbs)

lemma list_dir_transparent:
  assumes "vol_wf v"
  shows "transparent (same_volume v) (list_dir p)
     (bindO (walk (lookup_ref (v_anodes v) (v_dev v) (rb_reserved_blksize (v_rootblock v)))
        (path_parts p) ANODE_ROOTDIR)
      (dir_entries_ref (v_anodes v) (v_dev v) (rb_reserved_blksize (v_rootblock v))))"
  unfolding list_dir_def resolve_dir_path_def
  by (intro transparent_bind list_dir_by_anode_transparent assms on_cache_transparent)
    (simp_all add: resolve_dir_parts_transparent vol_reader_rbs assms)

lemma read_file_transparent:
  assumes "vol_wf v"
  shows "transparent (same_volume v) (read_file p)
     (bindO (walk_entry (lookup_ref (v_anodes v) (v_dev v) (rb_reserved_blksize (v_rootblock v)))
        (path_parts p) ANODE_ROOTDIR)
      (\<lambda>r. case r of None \<Rightarrow> Err (NotFound p)
        | Some e \<Rightarrow> if is_dir e then Err NotADirectory else file_data_ref v (de_anode e) (file_size e)))"
  unfolding read_file_def
  using read_file_data_transparent [OF assms]
  by (intro transparent_bind vol_lookup_transparent assms)
    (auto intro: transparent_fail split: option.split)

lemma file_data_ref_not_Panic: "vol_wf v \<Longrightarrow> file_data_ref v a n \<noteq> Panic"
  by (auto simp: file_data_ref_def bindO_eq_Panic vol_chain_not_Panic read_extents_flat
      read_extent_not_Panic)

lemma deldir_block_entries_not_Panic: "deldir_block_entries data rbs \<noteq> Panic"
proof -
  have "mapO (\<lambda>i. let off = DELDIR_HEADER_SIZE + i * DELDIR_ENTRY_SIZE in
         if off + DELDIR_ENTRY_SIZE \<le> length data
         then bindO (sliceO data off (off + DELDIR_ENTRY_SIZE)) DelDirEntry_parse
         else Ok None) is \<noteq> Panic" for "is"
    by (rule mapO_not_Panic)
      (auto simp: Let_def bindO_eq_Panic sliceO_def DelDirEntry_parse_not_Panic)
  then show ?thesis by (simp add: deldir_block_entries_def bindO_eq_Panic)
qed

definition deldir_ref :: "volume \<Rightarrow> u32 \<Rightarrow> deldir_entry list outcome" where
  "deldir_ref v blk =
     (let rbs = rb_reserved_blksize (v_rootblock v) in
      if blk = 0 then Ok []
      else bindO (dev_reserved (v_dev v) (unat blk) rbs) (\<lambda>data.
           bindO (be16 data 0) (\<lambda>id.
           if id \<noteq> DELDIRID then Ok [] else deldir_block_entries data rbs)))"

lemma deldir_ref_not_Panic:
  assumes "vol_wf v"
  shows "deldir_ref v blk \<noteq> Panic"
proof -
  have "64 \<le> unat (rb_reserved_blksize (v_rootblock v))" "d_block_bytes (v_dev v) \<noteq> 0"
    using assms by (simp_all add: vol_wf_def word_le_nat_alt)
  then show ?thesis
    by (auto simp: deldir_ref_def Let_def bindO_eq_Panic dev_reserved_not_Panic
        deldir_block_entries_not_Panic dest: length_dev_reserved)
qed

lemma list_deldir_ref:
  assumes "vol_wf v"
  shows "fst (list_deldir v) =
    (case v_rootblock_ext v of
       Some rext \<Rightarrow>
         if has_flag (v_rootblock v) MODE_DELDIR
         then bindO (mapO (deldir_ref v) (rx_deldirblocks rext)) (\<lambda>ess. Ok (concat ess)) else Ok []
     | None \<Rightarrow> Ok []) \<and> same_volume v (snd (list_deldir v))"
proof -
  let ?rbs = "rb_reserved_blksize (v_rootblock v)"
  let ?f = "\<lambda>result blk.
      if blk = 0 then retM result
      else bindM (on_cache (\<lambda>v. read_reserved (v_dev v) (unat blk) ?rbs)) (\<lambda>data.
           bindM (liftO (be16 data 0)) (\<lambda>id.
           if id \<noteq> DELDIRID then retM result
           else bindM (liftO (deldir_block_entries data ?rbs)) (\<lambda>es. retM (result @ es))))"
  have rd: "transparent (same_volume v) (on_cache (\<lambda>v. read_reserved (v_dev v) (unat blk) ?rbs))
      (dev_reserved (v_dev v) (unat blk) ?rbs)" for blk
    by (rule on_cache_transparent) (simp_all add: cached.rd_transparent)
  have step: "transparent (same_volume v) (?f result blk)
      (bindO (deldir_ref v blk) (\<lambda>es. Ok (result @ es)))" for result blk
  proof -
    have "bindO (deldir_ref v blk) (\<lambda>es. Ok (result @ es)) =
      (if blk = 0 then Ok result else bindO (dev_reserved (v_dev v) (unat blk) ?rbs) (\<lambda>data.
         bindO (be16 data 0) (\<lambda>id. if id \<noteq> DELDIRID then Ok result
           else bindO (deldir_block_entries data ?rbs) (\<lambda>es. Ok (result @ es)))))"
      by (auto simp: deldir_ref_def Let_def bindO_assoc intro!: bindO_cong)
    then show ?thesis
      by (simp only:) (intro transparent_if transparent_bind transparent_ret transparent_lift rd)
  qed
  have "transparent (same_volume v) (foldM ?f [] bl)
      (bindO (mapO (deldir_ref v) bl) (\<lambda>ess. Ok (concat ess)))" for bl
    using transparent_collect [where h = "\<lambda>es. es" and acc = "[]", OF step] by simp
  then show ?thesis
    using same_volume_refl [OF assms]
    by (auto simp: list_deldir_def Let_def transparent_def split: option.splits)
qed

lemma bitmap_block_ref_not_Panic:
  assumes "vol_wf v"
  shows "bitmap_block_ref (v_bitmap v) (v_dev v) s \<noteq> Panic"
proof -
  have d: "d_block_bytes (v_dev v) \<noteq> 0" and i: "br_index_per_block (v_bitmap v) \<noteq> 0"
    using assms index_per_block_square(1) by (auto simp: vol_wf_def BitmapReader_new_def)
  have "bitmap_block_nr_ref (v_bitmap v) (v_dev v) s \<noteq> Panic"
    using i by (auto simp: bitmap_block_nr_ref_def Let_def divO_def modO_def bindO_eq_Panic
        dev_reserved_not_Panic [OF d])
  then show ?thesis
    by (auto simp: bitmap_block_ref_def bindO_eq_Panic dev_reserved_not_Panic [OF d] split: option.splits)
qed

lemma count_free_ref_not_Panic:
  assumes "vol_wf v" "unat rem < fuel"
  shows "count_free_ref fuel (v_bitmap v) (v_dev v) s free rem \<noteq> Panic"
  using assms(2)
proof (induction fuel arbitrary: s free rem)
  case (Suc fuel)
  have step: "count_free_ref fuel (v_bitmap v) (v_dev v) s' f' r' \<noteq> Panic"
    if data: "bitmap_block_ref (v_bitmap v) (v_dev v) s = Ok (Some data)"
      and scan: "scan_words data BITMAP_BLOCK_HEADER_SIZE free rem = Ok (f', r')"
      and "rem \<noteq> 0" for data s' f' r'
  proof -
    have "64 \<le> length data"
      using bitmap_block_ref_length [OF data] vol_bitmap_rbs [OF assms(1)] assms(1)
      by (simp add: vol_wf_def word_le_nat_alt BitmapReader_new_def)
    then have "0 < block_words (length data)" by (simp add: block_words_def)
    moreover have "unat r' = unat rem - 32 * block_words (length data)"
      using scan_words_count [of 0 data free rem] scan by (simp add: BITMAP_BLOCK_HEADER_SIZE_def)
    moreover have "0 < unat rem" using that(3) by (simp add: unat_gt_0)
    ultimately show ?thesis using Suc.prems by (intro Suc.IH) linarith
  qed
  have "scan_words data BITMAP_BLOCK_HEADER_SIZE free rem \<noteq> Panic" for data
    using scan_words_count [of 0 data free rem] by (auto simp: BITMAP_BLOCK_HEADER_SIZE_def)
  then show ?case
    using step bitmap_block_ref_not_Panic [OF assms(1)]
    by (auto simp: bindO_eq_Panic split: option.splits)
qed simp

lemma bitmap_count_free_not_Panic:
  assumes "vol_wf v"
  shows "fst (bitmap_count_free v) \<noteq> Panic"
proof -
  have "transparent (same_volume v) bitmap_count_free
     (count_free_ref (unat (rb_disksize (v_rootblock v)) + 1) (v_bitmap v) (v_dev v) 0 0
        (rb_disksize (v_rootblock v)))"
    unfolding bitmap_count_free_def count_free_def
    by (rule on_cache_transparent)
      (use count_free_loop_transparent [of "v_dev v" "v_bitmap v"] vol_bitmap_rbs [OF assms] in
        \<open>simp_all del: count_free_loop.simps count_free_ref.simps\<close>)
  from vol_value [OF assms this] show ?thesis
    using count_free_ref_not_Panic [OF assms, of _ "_ + 1"] by (simp del: count_free_ref.simps)
qed

lemma count_words_not_Panic: "count_words cluster i free \<noteq> Panic"
proof (induction cluster i free rule: count_words.induct)
  case (1 cluster i free)
  then show ?case by (subst count_words.simps) (auto simp: bindO_eq_Panic)
qed

text \<open>
  C17. Opening a volume never panics, for any device contents, and a volume that opens is
  well formed: reserved blocks of at least 64 bytes, non-empty sectors, readers that match the
  rootblock and a coherent cache.
\<close>

theorem from_device_safe:
  "case from_device d of Ok v \<Rightarrow> vol_wf v \<and> v_dev v = d | Err e \<Rightarrow> True | Panic \<Rightarrow> False"
  using from_device_wf [of d] from_device_not_Panic [of d] by (auto split: outcome.split)

text \<open>
  C18. Reading a well-formed volume never panics, whatever the bytes on the device: listing,
  looking up and reading by path or by anode, byte ranges (sizes up to \<open>2 ^ 63\<close>), deleted files and
  both free-block counts return a value or an error.
\<close>

theorem volume_reads_never_panic:
  assumes "vol_wf v" "unat fsize \<le> 2 ^ 63"
  shows "fst (list_dir p v) \<noteq> Panic \<and> fst (vol_lookup p v) \<noteq> Panic \<and> fst (read_file p v) \<noteq> Panic \<and>
    fst (read_file_data nr fsize v) \<noteq> Panic \<and> fst (read_file_range nr fsize offset len v) \<noteq> Panic \<and>
    fst (list_deldir v) \<noteq> Panic \<and> fst (bitmap_count_free v) \<noteq> Panic \<and> reserved_count_free v \<noteq> Panic"
proof -
  note T = vol_value [OF assms(1)]
  note look = lookup_ref_not_Panic [OF assms(1)]
  have "fst (list_dir p v) \<noteq> Panic"
    unfolding T [OF list_dir_transparent [OF assms(1)]]
    by (simp add: bindO_eq_Panic walk_not_Panic look dir_entries_ref_not_Panic [OF assms(1)])
  moreover have "fst (vol_lookup p v) \<noteq> Panic"
    unfolding T [OF vol_lookup_transparent [OF assms(1)]] by (simp add: walk_entry_not_Panic look)
  moreover have "fst (read_file p v) \<noteq> Panic"
    unfolding T [OF read_file_transparent [OF assms(1)]]
    by (auto simp: bindO_eq_Panic walk_entry_not_Panic look file_data_ref_not_Panic [OF assms(1)]
        split: option.splits)
  moreover have "fst (read_file_data nr fsize v) \<noteq> Panic"
    unfolding T [OF read_file_data_transparent [OF assms(1)]]
    by (rule file_data_ref_not_Panic [OF assms(1)])
  moreover have "fst (read_file_range nr fsize offset len v) \<noteq> Panic"
  proof (cases "offset < fsize")
    case True
    have "unat len < 2 ^ 32" using unat_lt_2p [of len] by simp
    then have "unat offset + unat len < 2 ^ 64"
      using True assms(2) by (simp add: word_less_nat_alt)
    from unat_range_end [OF this, of fsize] True
    have "unat offset \<le> unat (min (offset + ucast len) fsize)" by (simp add: word_less_nat_alt)
    then show ?thesis
      unfolding T [OF read_file_range_transparent [OF assms(1) True]]
      by (simp add: bindO_eq_Panic vol_chain_not_Panic [OF assms(1)] range_extents_not_Panic)
  qed (simp add: read_file_range_def not_less)
  moreover have "fst (list_deldir v) \<noteq> Panic"
    using list_deldir_ref [OF assms(1)] mapO_not_Panic [of _ "deldir_ref v"] deldir_ref_not_Panic [OF assms(1)]
    by (auto simp: bindO_eq_Panic split: option.splits)
  moreover have "reserved_count_free v \<noteq> Panic"
    by (simp add: reserved_count_free_def Let_def bindO_eq_Panic read_blocks_not_Panic count_words_not_Panic)
  ultimately show ?thesis using bitmap_count_free_not_Panic [OF assms(1)] by blast
qed

section \<open>A small volume\<close>

definition sample_volume :: volume where
  "sample_volume =
     (let rb = sample_rootblock\<lparr>rb_reserved_blksize := 128, rb_options := 2, rb_indexblocks := [1]\<rparr>
      in \<lparr>v_dev = sample_dir_device, v_cache = BlockCache_new, v_rootblock = rb, v_rootblock_ext = None,
          v_anodes = AnodeReader_new rb None, v_bitmap = BitmapReader_new rb\<rparr>)"

lemma sample_volume_wf: "vol_wf sample_volume"
  by (simp add: vol_wf_def sample_volume_def coherent_new sample_dir_device_def create_def Let_def)

lemma sample_volume_reader: "v_anodes sample_volume = sample_dir_reader" "v_dev sample_volume = sample_dir_device"
  by (simp_all add: sample_volume_def Let_def AnodeReader_new_def sample_dir_reader_def sample_rootblock_def
      anodes_per_block_def index_per_block_def sat_sub32_def size_defs is_splitted_anodes_def is_large_def
      has_flag_def mode_defs)

theorem volume_reads_never_panic_witness:
  "vol_wf sample_volume \<and> fst (read_file (rs ''/x'') sample_volume) \<noteq> Panic \<and>
   fst (list_dir (rs ''/D'') sample_volume) \<noteq> Panic"
proof -
  have "unat (0 :: u64) \<le> 2 ^ 63" by simp
  from volume_reads_never_panic [OF sample_volume_wf this] sample_volume_wf show ?thesis by blast
qed

lemma sample_volume_data:
  "fst (read_file_data 5 30 sample_volume) = Ok (take 30 (sample_dir_blocks 3))"
proof -
  have "read_block sample_dir_device 3 (replicate 128 0) = Ok (sample_dir_blocks 3)"
    using sample_dir_read [of 3]
    by (simp add: dev_reserved_def divO_def block_size_def sample_dir_device_def create_def read_block_def)
  moreover have "unat (block_size sample_dir_device) = 128"
    by (simp add: block_size_def sample_dir_device_def create_def)
  ultimately have "file_data_ref sample_volume 5 30 = Ok (take 30 (sample_dir_blocks 3))"
    by (simp add: file_data_ref_def vol_chain_def sample_volume_reader sample_dir_chain sliceO_def bslice_def)
  with vol_value [OF sample_volume_wf read_file_data_transparent [OF sample_volume_wf]]
  show ?thesis by simp
qed

theorem read_file_range_slice_witness:
  "vol_wf sample_volume \<and> fst (read_file_data 5 30 sample_volume) = Ok (take 30 (sample_dir_blocks 3)) \<and>
   fst (read_file_range 5 30 20 1 sample_volume) = Ok [22]"
proof -
  have "take 1 (drop 20 (take 30 (sample_dir_blocks 3))) = [22 :: u8]"
    using sample_dir_bytes(1) by (simp add: take_Suc_conv_app_nth take_Suc hd_drop_conv_nth)
  then show ?thesis
    using read_file_range_slice [OF sample_volume_wf sample_volume_data, of 20 1] sample_volume_wf
      sample_volume_data by simp
qed

section \<open>Reading keeps the device\<close>

text \<open>Every operation on a volume changes nothing but its cache; in particular the device stays what it is.\<close>

abbreviation on_device :: "device \<Rightarrow> volume \<Rightarrow> bool" where
  "on_device d v \<equiv> v_dev v = d"

lemma on_cache_keeps [keeps]: "preserves (on_device d) (on_cache m)"
  by (auto simp: preserves_def on_cache_def zoomM_def split: prod.split)

lemma chain_keeps [keeps]: "preserves (on_device d) (get_anode_chain nr)" "preserves (on_device d) (validate_anode_chain nr)"
  "preserves (on_device d) bitmap_count_free"
  unfolding get_anode_chain_def validate_anode_chain_def bitmap_count_free_def by (intro keeps)+

lemma list_keeps [keeps]: "preserves (on_device d) (list_dir_by_anode a)" "preserves (on_device d) (list_dir p)"
  "preserves (on_device d) (vol_lookup p)"
  unfolding list_dir_def list_dir_by_anode_def vol_lookup_def by (intro keeps)+

lemma read_keeps [keeps]: "preserves (on_device d) (read_file_data a n)" "preserves (on_device d) (read_file p)"
  unfolding read_file_def read_file_data_def by (intro keeps)+

lemma list_deldir_keeps [keeps]: "preserves (on_device d) list_deldir"
proof -
  have "preserves (on_device d) (foldM (\<lambda>result blk.
      if blk = 0 then retM result
      else bindM (on_cache (\<lambda>v. read_reserved (v_dev v) (unat blk) rbs)) (\<lambda>data.
           bindM (liftO (be16 data 0)) (\<lambda>id.
           if id \<noteq> DELDIRID then retM result
           else bindM (liftO (deldir_block_entries data rbs)) (\<lambda>es. retM (result @ es))))) xs bs)" for rbs xs bs
    by (intro keeps)
  then show ?thesis by (auto simp: preserves_def list_deldir_def Let_def split: option.splits)
qed

section \<open>A small image\<close>

definition sample_boot_block :: bytes where
  "sample_boot_block = splice (splice (replicate 512 0) 0 (u32_to_be ID_PFS_DISK)) (RB_OFF_LASTRESERVED + 12) (u16_to_be 1024)"

definition sample_image :: bytes where
  "sample_image = replicate 1536 0 @ sample_boot_block"

lemma sample_boot_parse:
  "\<exists>rb. Rootblock_parse sample_boot_block = Ok rb \<and> rb_reserved_blksize rb = 1024 \<and> rb_rblkcluster rb = 0 \<and>
     rb_options rb = 0"
proof -
  have "be32 sample_boot_block 0 = Ok ID_PFS_DISK"
    by (simp add: sample_boot_block_def bytes_simps rb_off_defs)
  then have "the_ok (be32 sample_boot_block 0) \<in> set PFS_TYPES"
    by (simp add: PFS_TYPES_def)
  moreover have "length sample_boot_block = 512" by (simp add: sample_boot_block_def)
  ultimately obtain rb where rb: "Rootblock_parse sample_boot_block = Ok rb"
    using Rootblock_parse_cases [of sample_boot_block] by auto
  have "cur32 sample_boot_block 4 = Ok 0" "cur16 sample_boot_block (RB_OFF_LASTRESERVED + 12) = Ok 1024"
    "cur16 sample_boot_block (RB_OFF_LASTRESERVED + 14) = Ok 0"
    by (simp_all add: sample_boot_block_def bytes_simps rb_off_defs cur32_def cur16_def be32_def be16_def u32_from_be_def u16_from_be_def
       nth_splice u16_to_be_def)
  with Rootblock_parse_fields [OF rb] rb show ?thesis by auto
qed

lemma sample_image_opens: "\<exists>v. open_auto sample_image 512 None False = Ok v"
proof -
  obtain rb where rb: "Rootblock_parse sample_boot_block = Ok rb" "rb_reserved_blksize rb = 1024"
      "rb_rblkcluster rb = 0" "rb_options rb = 0"
    using sample_boot_parse by blast
  have len: "length sample_boot_block = 512" by (simp add: sample_boot_block_def)
  obtain d where d: "open_ro sample_image 512 512 0 = Ok d" "d_contents d = sample_image" "d_block_bytes d = 512"
      "d_partition_offset d = 512"
    by (simp add: open_ro_def new_impl_def Let_def)
  have "read_block d ROOTBLOCK (replicate 512 0) = Ok sample_boot_block"
    using len by (simp add: read_block_def read_blocks_def byte_offset_def d ROOTBLOCK_def Let_def sample_image_def
        bslice_def splice_eq)
  then have "read_rootblock d = Ok rb" using rb by (simp add: read_rootblock_def Let_def)
  then have "\<exists>v. from_device d = Ok v"
    using rb by (simp add: from_device_def validate_rbs_def load_extension_def has_extension_def has_flag_def
        split: prod.split)
  then show ?thesis using d(1) by (simp add: open_auto_def vol_open_def open_impl_def)
qed

end
