(* ===== verification/Alloc.thy ===== *)
theory Alloc
  imports Prelude
begin

text \<open>
  Bit vectors stored as big-endian words, most significant bit first, as the reserved bitmap and the
  data bitmap keep them, and the contract of an allocator of blocks.  The formatter's
  \<open>ReservedAllocator\<close> and the writer's reserved bitmap are both instances of the contract.
\<close>

section \<open>Bit vectors\<close>

text \<open>\<open>0x8000_0000 >> bit\<close>\<close>

definition bm_mask :: "nat \<Rightarrow> u32" where
  "bm_mask b = drop_bit b 0x80000000"

definition bm_get :: "u32 list \<Rightarrow> nat \<Rightarrow> bool" where
  "bm_get ws n \<longleftrightarrow> n div 32 < length ws \<and> bit (ws ! (n div 32)) (31 - n mod 32)"

lemma top_bit_word: "(0x80000000 :: u32) = push_bit 31 1"
  by simp

lemma bit_bm_mask: "b < 32 \<Longrightarrow> bit (bm_mask b) m \<longleftrightarrow> m = 31 - b"
  unfolding bm_mask_def bit_drop_bit_eq top_bit_word by (auto simp: bit_simps simp del: push_bit_of_1)

lemma bm_mask_test: "b < 32 \<Longrightarrow> w AND bm_mask b \<noteq> 0 \<longleftrightarrow> bit w (31 - b)"
proof
  assume b: "b < 32" and "w AND bm_mask b \<noteq> 0"
  then obtain m where "bit (w AND bm_mask b) m" using bit_word_eqI [of "w AND bm_mask b" 0] by auto
  with b show "bit w (31 - b)" by (auto simp: bit_and_iff bit_bm_mask)
next
  assume "b < 32" "bit w (31 - b)"
  then have "bit (w AND bm_mask b) (31 - b)" by (simp add: bit_and_iff bit_bm_mask)
  then show "w AND bm_mask b \<noteq> 0" by auto
qed

lemma bit_clear_mask:
  "b < 32 \<Longrightarrow> m < 32 \<Longrightarrow> bit (w AND NOT (bm_mask b)) m \<longleftrightarrow> bit (w :: u32) m \<and> m \<noteq> 31 - b"
  by (auto simp: bit_and_iff bit_not_iff bit_bm_mask)

lemma bit_set_mask: "b < 32 \<Longrightarrow> bit (w OR bm_mask b) m \<longleftrightarrow> bit (w :: u32) m \<or> m = 31 - b"
  by (auto simp: bit_or_iff bit_bm_mask)

lemma same_word: "(m :: nat) div 32 = n div 32 \<Longrightarrow> m = n \<longleftrightarrow> 31 - m mod 32 = 31 - n mod 32"
proof -
  assume "m div 32 = n div 32"
  moreover have "m mod 32 \<le> 31" "n mod 32 \<le> 31" by simp_all
  ultimately show ?thesis
    using div_mult_mod_eq [of m 32] div_mult_mod_eq [of n 32] by linarith
qed

lemma bm_get_clear:
  assumes "n div 32 < length ws"
  shows "bm_get (ws[n div 32 := ws ! (n div 32) AND NOT (bm_mask (n mod 32))]) m \<longleftrightarrow> bm_get ws m \<and> m \<noteq> n"
proof (cases "m div 32 = n div 32")
  case True
  then have "m = n \<longleftrightarrow> 31 - m mod 32 = 31 - n mod 32"
    by (rule same_word)
  with True assms show ?thesis by (simp add: bm_get_def bit_clear_mask)
next
  case False
  then show ?thesis using assms by (auto simp: bm_get_def)
qed

lemma bm_get_set:
  assumes "n div 32 < length ws"
  shows "bm_get (ws[n div 32 := ws ! (n div 32) OR bm_mask (n mod 32)]) m \<longleftrightarrow> bm_get ws m \<or> m = n"
proof (cases "m div 32 = n div 32")
  case True
  then have "m = n \<longleftrightarrow> 31 - m mod 32 = 31 - n mod 32"
    by (rule same_word)
  with True assms show ?thesis by (simp add: bm_get_def bit_set_mask)
next
  case False
  then show ?thesis using assms by (auto simp: bm_get_def)
qed

lemma bm_get_bound: "bm_get ws n \<Longrightarrow> n < 32 * length ws"
  by (auto simp: bm_get_def)

section \<open>The contract of an allocator\<close>

text \<open>
  \<open>free s\<close> is the set of free indices, \<open>nr\<close> the name under which an index is handed out.  A successful
  allocation takes exactly one free index away; it fails only when none is left and then
  changes nothing; it never panics.
\<close>

locale block_allocator =
  fixes inv :: "'s \<Rightarrow> bool"
    and free :: "'s \<Rightarrow> nat set"
    and nr :: "nat \<Rightarrow> 'b"
    and alloc :: "('s, 'b) rm"
  assumes free_finite: "inv s \<Longrightarrow> finite (free s)"
    and alloc_Ok: "inv s \<Longrightarrow> alloc s = (Ok b, s') \<Longrightarrow>
      inv s' \<and> (\<exists>i \<in> free s. b = nr i \<and> free s' = free s - {i})"
    and alloc_Err: "inv s \<Longrightarrow> alloc s = (Err e, s') \<Longrightarrow> free s = {} \<and> s' = s"
    and alloc_Panic: "inv s \<Longrightarrow> fst (alloc s) \<noteq> Panic"
begin

lemma alloc_succeeds:
  assumes "inv s" "free s \<noteq> {}"
  obtains b s' i where "alloc s = (Ok b, s')" "inv s'" "i \<in> free s" "b = nr i" "free s' = free s - {i}"
proof -
  have "\<exists>b s'. alloc s = (Ok b, s')"
    using alloc_Err [OF assms(1)] alloc_Panic [OF assms(1)] assms(2)
    by (cases "alloc s"; cases "fst (alloc s)") auto
  then show thesis using alloc_Ok [OF assms(1)] that by blast
qed

lemma alloc_card: "inv s \<Longrightarrow> alloc s = (Ok b, s') \<Longrightarrow> card (free s) = Suc (card (free s'))"
  using alloc_Ok free_finite by (metis card.remove)

text \<open>Repeated allocation.\<close>

fun alloc_n :: "nat \<Rightarrow> ('s, 'b list) rm" where
  "alloc_n 0 s = (Ok [], s)"
| "alloc_n (Suc n) s = bindM alloc (\<lambda>b. bindM (alloc_n n) (\<lambda>bs. retM (b # bs))) s"

lemma alloc_n_Ok:
  "inv s \<Longrightarrow> alloc_n n s = (Ok bs, s') \<Longrightarrow>
   inv s' \<and> (\<exists>is. distinct is \<and> length is = n \<and> bs = map nr is \<and> set is \<subseteq> free s \<and> free s' = free s - set is)"
proof (induction n arbitrary: s bs)
  case 0
  then show ?case by auto
next
  case (Suc n)
  then obtain b t bs' where b: "alloc s = (Ok b, t)" "alloc_n n t = (Ok bs', s')" "bs = b # bs'"
    by (auto simp: bindM_eq_Ok)
  obtain i where i: "inv t" "i \<in> free s" "b = nr i" "free t = free s - {i}"
    using alloc_Ok [OF Suc.prems(1) b(1)] by blast
  obtain "is" where "is": "inv s'" "distinct is" "length is = n" "bs' = map nr is"
      "set is \<subseteq> free t" "free s' = free t - set is"
    using Suc.IH [OF i(1) b(2)] by blast
  with i b show ?case by (intro conjI exI [of _ "i # is"]) auto
qed

lemma alloc_n_enough: "inv s \<Longrightarrow> n \<le> card (free s) \<Longrightarrow> \<exists>bs s'. alloc_n n s = (Ok bs, s')"
proof (induction n arbitrary: s)
  case (Suc n)
  then have "free s \<noteq> {}" by auto
  with Suc.prems(1) obtain b t where b: "alloc s = (Ok b, t)" "inv t"
    by (metis alloc_succeeds)
  with alloc_card [OF Suc.prems(1) b(1)] Suc obtain bs s' where "alloc_n n t = (Ok bs, s')" by fastforce
  with b show ?case by (auto simp: bindM_def)
qed simp

end

end
