(* ===== verification/Format.thy ===== *)
theory Format
  imports Volume Alloc
begin

text \<open>
  \<^verbatim>\<open>crates/libpfs3/src/format.rs\<close>: creating a PFS3 file system.  \<open>format_with_size\<close> is split where
  the source numbers its steps: the geometry, the allocation of the metadata blocks, the
  contents of each kind of block, and the writes.  The clock is the argument \<open>now\<close>;
  \<open>total_blocks\<close> (\<open>u64\<close>) is \<open>nat\<close>.
\<close>

section \<open>Size of the reserved area\<close>

definition MAXSMALLDISK :: nat where "MAXSMALLDISK = (MAXSMALLBITMAPINDEX + 1) * 253 * 253 * 32"
definition MAXNUMRESERVED :: nat where "MAXNUMRESERVED = 4096 + 255 * 1024 * 8"

text \<open>
  The loop runs over powers of two: \<open>i = 2 ^ k\<close>.  \<open>checked_shl(1)\<close> always succeeds and drops the top
  bit, so \<open>i\<close> becomes 0 when \<open>k\<close> reaches 64.
\<close>

function reserved_loop :: "nat \<Rightarrow> u32 \<Rightarrow> nat \<Rightarrow> u32" where
  "reserved_loop total_blocks taken k =
     (if k < 64 \<and> 2 ^ k div 2 < total_blocks
      then let m = (if (2 :: nat) ^ k \<ge> 512 * 2048 then 10 else 14) in
           reserved_loop total_blocks (taken + taken * m div 16) (k + 1)
      else taken)"
  by pat_completeness auto
termination
  by (relation "measure (\<lambda>(_, _, k). 64 - k)") auto

declare reserved_loop.simps [simp del]

definition calc_num_reserved :: "nat \<Rightarrow> u32 \<Rightarrow> u32 outcome" where
  "calc_num_reserved total_blocks resblocksize =
     (let taken = reserved_loop total_blocks 32 11 in
      bindO (divO taken (resblocksize div 1024)) (\<lambda>taken.
        let taken = min (sat_sub32 taken 1) (of_nat MAXNUMRESERVED);
            taken = (taken + 31) AND NOT 0x1F
        in Ok (max taken 32)))"

section \<open>Reserved block allocator\<close>

record reserved_allocator =
  ra_bitmap :: "bool list"
  ra_numreserved :: u32
  ra_roving :: u32

definition ReservedAllocator_new :: "u32 \<Rightarrow> u32 \<Rightarrow> reserved_allocator" where
  "ReservedAllocator_new numreserved rblkcluster_resblocks =
     \<lparr>ra_bitmap = map (\<lambda>i. unat rblkcluster_resblocks \<le> i) [0..<unat numreserved],
      ra_numreserved = numreserved, ra_roving = rblkcluster_resblocks\<rparr>"

fun ra_scan :: "u32 list \<Rightarrow> (reserved_allocator, u32) rm" where
  "ra_scan [] a = (Err (DiskFull (rs ''out of reserved blocks'')), a)"
| "ra_scan (i # is) a =
     (case modO (ra_roving a + i) (ra_numreserved a) of
        Ok ix \<Rightarrow>
          (case idx (ra_bitmap a) (unat ix) of
             Ok True \<Rightarrow>
               (case modO (ix + 1) (ra_numreserved a) of
                  Ok roving \<Rightarrow> (Ok ix, a\<lparr>ra_bitmap := (ra_bitmap a)[unat ix := False], ra_roving := roving\<rparr>)
                | _ \<Rightarrow> (Panic, a))
           | Ok False \<Rightarrow> ra_scan is a
           | _ \<Rightarrow> (Panic, a))
      | _ \<Rightarrow> (Panic, a))"

definition ra_alloc :: "(reserved_allocator, u32) rm" where
  "ra_alloc a = ra_scan (map of_nat [0..<unat (ra_numreserved a)]) a"

definition ra_free_count :: "reserved_allocator \<Rightarrow> u32" where
  "ra_free_count a = of_nat (length (filter (\<lambda>b. b) (ra_bitmap a)))"

text \<open>\<open>for i in (0..numreserved).step_by(32)\<close>, one word each.\<close>

definition build_word :: "reserved_allocator \<Rightarrow> nat \<Rightarrow> u32" where
  "build_word a i =
     fold (\<lambda>b val. if i + b < unat (ra_numreserved a) \<and> ra_bitmap a ! (i + b) then val OR bm_mask b else val)
       [0..<32] 0"

definition build_bitmap :: "reserved_allocator \<Rightarrow> u32 list" where
  "build_bitmap a = map (\<lambda>k. build_word a (32 * k)) [0..<div_ceil (unat (ra_numreserved a)) 32]"

section \<open>Geometry\<close>

record format_options =
  fo_volume_name :: rstr
  fo_enable_deldir :: bool

record format_result =
  fr_volume_name :: rstr
  fr_total_blocks :: nat
  fr_data_blocks :: nat
  fr_blocks_free :: nat
  fr_num_reserved :: u32
  fr_reserved_blksize :: u32

definition FormatOptions_default :: format_options where
  "FormatOptions_default = \<lparr>fo_volume_name = rs ''Untitled'', fo_enable_deldir = False\<rparr>"

record format_geometry =
  fg_bs :: nat
  fg_supermode :: bool
  fg_resblocksize :: u32
  fg_rescluster :: u32
  fg_numreserved :: u32
  fg_resbm_resblocks :: u32
  fg_rblkcluster :: u32
  fg_firstreserved :: u32
  fg_lastreserved :: u32
  fg_index_per_block :: u32

definition u32_div_ceil :: "u32 \<Rightarrow> u32 \<Rightarrow> u32 outcome" where
  "u32_div_ceil a b =
     (if b = 0 then Panic else Ok (if a mod b = 0 then a div b else a div b + 1))"

text \<open>The loop that sizes the reserved bitmap in units of 1 KiB.\<close>

function resbm_loop :: "u32 \<Rightarrow> u32 \<Rightarrow> u32 \<Rightarrow> u32" where
  "resbm_loop numreserved resbm_1k i =
     (if i < numreserved div 32 then resbm_loop numreserved (resbm_1k + 1) (i + 256) else resbm_1k)"
  by pat_completeness auto
termination
proof (relation "measure (\<lambda>(n, _, i). unat (n div 32) - unat i)")
  fix n r i :: u32
  assume lt: "i < n div 32"
  have "unat (n div 32) < 2 ^ 27"
    using unat_lt_2p [of n] by (simp add: unat_div)
  moreover have "unat i < unat (n div 32)" using lt by (simp add: word_less_nat_alt)
  ultimately have "unat (i + 256) = unat i + 256"
    by (subst unat_add_lt) simp_all
  with \<open>unat i < unat (n div 32)\<close>
  show "((n, r + 1, i + 256), n, r, i) \<in> measure (\<lambda>(n, _, i). unat (n div 32) - unat i)" by simp
qed simp

declare resbm_loop.simps [simp del]

definition format_geometry_of :: "u32 \<Rightarrow> nat \<Rightarrow> format_geometry outcome" where
  "format_geometry_of bs total_blocks =
     (let supermode = (total_blocks > MAXSMALLDISK);
          max_1k = (MAXBITMAPINDEX + 1) * 253 * 253 * 32;
          max_2k = (MAXBITMAPINDEX + 1) * 509 * 509 * 32;
          resblocksize = (1024 :: u32);
          resblocksize = (if supermode \<and> total_blocks > max_1k then 2048 else resblocksize);
          resblocksize = (if supermode \<and> total_blocks > max_2k then 4096 else resblocksize);
          resblocksize = (if resblocksize < bs then bs else resblocksize)
      in bindO (divO resblocksize bs) (\<lambda>rescluster.
         bindO (calc_num_reserved total_blocks resblocksize) (\<lambda>numreserved.
         let resbm_1k = resbm_loop numreserved 1 125 in
         bindO (u32_div_ceil (1024 * resbm_1k) resblocksize) (\<lambda>resbm_resblocks.
         let firstreserved = 2 in
         Ok \<lparr>fg_bs = unat bs, fg_supermode = supermode, fg_resblocksize = resblocksize,
             fg_rescluster = rescluster, fg_numreserved = numreserved,
             fg_resbm_resblocks = resbm_resblocks, fg_rblkcluster = rescluster * resbm_resblocks,
             fg_firstreserved = firstreserved,
             fg_lastreserved = rescluster * numreserved + firstreserved - 1,
             fg_index_per_block = sat_sub32 (resblocksize div 4) 3\<rparr>))))"

definition format_options_word :: "bool \<Rightarrow> u32" where
  "format_options_word supermode =
     (let options = MODE_HARDDISK OR MODE_SPLITTED_ANODES OR MODE_DIR_EXTENSION OR MODE_SIZEFIELD OR
          MODE_DATESTAMP OR MODE_EXTROVING OR MODE_LONGFN OR MODE_EXTENSION
      in if supermode then options OR MODE_SUPERINDEX else options)"

text \<open>\<open>firstreserved + alloc.alloc()? * rescluster\<close>, and \<open>n\<close> of them in a row.\<close>

definition alloc_block :: "format_geometry \<Rightarrow> (reserved_allocator, u32) rm" where
  "alloc_block g = bindM ra_alloc (\<lambda>ix. retM (fg_firstreserved g + ix * fg_rescluster g))"

fun alloc_list :: "format_geometry \<Rightarrow> nat \<Rightarrow> (reserved_allocator, u32 list) rm" where
  "alloc_list g 0 = retM []"
| "alloc_list g (Suc n) = bindM (alloc_block g) (\<lambda>b. bindM (alloc_list g n) (\<lambda>bs. retM (b # bs)))"

record format_blocks =
  fb_bm :: "u32 list"
  fb_bmi :: "u32 list"
  fb_anidx :: u32
  fb_anode :: u32
  fb_rootdir :: u32

definition alloc_metadata :: "format_geometry \<Rightarrow> u32 \<Rightarrow> u32 \<Rightarrow> (reserved_allocator, format_blocks) rm" where
  "alloc_metadata g no_bmb no_bmi =
     bindM (alloc_list g (unat no_bmb)) (\<lambda>bm.
     bindM (alloc_list g (unat no_bmi)) (\<lambda>bmi.
     bindM (alloc_block g) (\<lambda>anidx.
     bindM (alloc_block g) (\<lambda>anode.
     bindM (alloc_block g) (\<lambda>rootdir.
       retM \<lparr>fb_bm = bm, fb_bmi = bmi, fb_anidx = anidx, fb_anode = anode, fb_rootdir = rootdir\<rparr>)))))"

section \<open>Contents of the blocks\<close>

text \<open>\<open>for (i, &val) in vals.iter().enumerate() { put_u32(buf, base + i * 4, val) }\<close>\<close>

fun put_u32s :: "nat \<Rightarrow> u32 list \<Rightarrow> bytes \<Rightarrow> bytes outcome" where
  "put_u32s base [] buf = Ok buf"
| "put_u32s base (v # vs) buf = bindO (put_u32 buf base v) (put_u32s (base + 4) vs)"

text \<open>The same with the guard \<open>if off + 4 <= buf.len()\<close>.\<close>

fun put_u32s_within :: "nat \<Rightarrow> u32 list \<Rightarrow> bytes \<Rightarrow> bytes outcome" where
  "put_u32s_within base [] buf = Ok buf"
| "put_u32s_within base (v # vs) buf =
     bindO (if base + 4 \<le> length buf then put_u32 buf base v else Ok buf) (put_u32s_within (base + 4) vs)"

definition format_rootblock ::
  "nat \<Rightarrow> format_options \<Rightarrow> nat \<Rightarrow> format_geometry \<Rightarrow> u32 \<Rightarrow> reserved_allocator \<Rightarrow> format_blocks \<Rightarrow> u32 \<Rightarrow> bytes outcome" where
  "format_rootblock now opts total_blocks g rext_blk a fb data_blocks =
     (let (cday, cmin, ctick) = current_amiga_datestamp now;
          rb_data = replicate (unat (fg_rblkcluster g) * fg_bs g) 0;
          name = as_bytes (fo_volume_name opts);
          namelen = min (length name) 30;
          rbm_off = fg_bs g
      in chainO
        [\<lambda>b. put_u32 b 0x00 ID_PFS_DISK,
         \<lambda>b. put_u32 b 0x04 (format_options_word (fg_supermode g)),
         \<lambda>b. put_u32 b 0x08 1,
         \<lambda>b. put_u16 b 0x0C cday,
         \<lambda>b. put_u16 b 0x0E cmin,
         \<lambda>b. put_u16 b 0x10 ctick,
         \<lambda>b. put_u16 b 0x12 0xF0,
         \<lambda>b. set_idx b 0x14 (of_nat namelen),
         \<lambda>b. copy_at b 0x15 (take namelen name),
         \<lambda>b. put_u32 b 0x34 (fg_lastreserved g),
         \<lambda>b. put_u32 b 0x38 (fg_firstreserved g),
         \<lambda>b. put_u32 b 0x3C (ra_free_count a),
         \<lambda>b. put_u16 b 0x40 (ucast (fg_resblocksize g)),
         \<lambda>b. put_u16 b 0x42 (ucast (fg_rblkcluster g)),
         \<lambda>b. put_u32 b 0x44 data_blocks,
         \<lambda>b. put_u32 b 0x48 (data_blocks div 20),
         \<lambda>b. put_u32 b 0x54 (of_nat total_blocks),
         \<lambda>b. put_u32 b 0x58 rext_blk,
         \<lambda>b. if fg_supermode g then put_u32s 0x60 (fb_bmi fb) b
             else bindO (put_u32s 0x60 (take (MAXSMALLBITMAPINDEX + 1) (fb_bmi fb)) b) (\<lambda>b.
                    put_u32 b (0x60 + (MAXSMALLBITMAPINDEX + 1) * 4) (fb_anidx fb)),
         \<lambda>b. put_u16 b rbm_off BMBLKID,
         \<lambda>b. put_u32 b (rbm_off + 8) 0,
         \<lambda>b. put_u32s_within (rbm_off + 12) (build_bitmap a) b] rb_data)"

definition format_rext :: "nat \<Rightarrow> format_geometry \<Rightarrow> format_blocks \<Rightarrow> bytes outcome" where
  "format_rext now g fb =
     (let (cday, cmin, ctick) = current_amiga_datestamp now in
      chainO
        [\<lambda>b. put_u16 b 0x00 EXTENSIONID,
         \<lambda>b. put_u32 b 0x08 1,
         \<lambda>b. put_u32 b 0x0C 0x00130002,
         \<lambda>b. put_u16 b 0x10 cday,
         \<lambda>b. put_u16 b 0x12 cmin,
         \<lambda>b. put_u16 b 0x14 ctick,
         \<lambda>b. put_u16 b 0x38 32,
         \<lambda>b. if fg_supermode g then put_u32 b 0x40 (fb_anidx fb) else Ok b]
        (replicate (unat (fg_resblocksize g)) 0))"

definition format_bmi :: "format_geometry \<Rightarrow> format_blocks \<Rightarrow> nat \<Rightarrow> bytes outcome" where
  "format_bmi g fb seq =
     (let ipb = unat (fg_index_per_block g) in
      chainO
        [\<lambda>b. put_u16 b 0 BMIBLKID, \<lambda>b. put_u32 b 4 1, \<lambda>b. put_u32 b 8 (of_nat seq),
         \<lambda>b. put_u32s 12 (take ipb (drop (seq * ipb) (fb_bm fb))) b]
        (replicate (unat (fg_resblocksize g)) 0))"

text \<open>A word of the data bitmap, 0 where the source leaves the zeroed buffer as it is.\<close>

definition format_bm_word :: "format_geometry \<Rightarrow> u32 \<Rightarrow> nat \<Rightarrow> nat \<Rightarrow> u32" where
  "format_bm_word g data_blocks seq j =
     (let bits_per_bmb = fg_index_per_block g * 32;
          block_idx = of_nat seq * bits_per_bmb + of_nat j * 32
      in if block_idx < data_blocks
         then let remaining = min (data_blocks - block_idx) 32 in
              if remaining \<ge> 32 then 0xFFFFFFFF else push_bit (unat (32 - remaining)) 0xFFFFFFFF
         else 0)"

definition format_bm :: "format_geometry \<Rightarrow> u32 \<Rightarrow> nat \<Rightarrow> bytes outcome" where
  "format_bm g data_blocks seq =
     chainO
       [\<lambda>b. put_u16 b 0 BMBLKID, \<lambda>b. put_u32 b 4 1, \<lambda>b. put_u32 b 8 (of_nat seq),
        \<lambda>b. put_u32s 12 (map (format_bm_word g data_blocks seq) [0..<unat (fg_index_per_block g)]) b]
       (replicate (unat (fg_resblocksize g)) 0)"

definition format_anidx :: "format_geometry \<Rightarrow> format_blocks \<Rightarrow> bytes outcome" where
  "format_anidx g fb =
     chainO
       [\<lambda>b. put_u16 b 0 IBLKID, \<lambda>b. put_u32 b 4 1, \<lambda>b. put_u32 b 8 0, \<lambda>b. put_u32 b 12 (fb_anode fb)]
       (replicate (unat (fg_resblocksize g)) 0)"

definition format_anode_block :: "format_geometry \<Rightarrow> format_blocks \<Rightarrow> bytes outcome" where
  "format_anode_block g fb =
     (let an_off = ANODE_BLOCK_HEADER_SIZE + unat ANODE_ROOTDIR * ANODE_SIZE in
      chainO
       [\<lambda>b. put_u16 b 0 ABLKID, \<lambda>b. put_u32 b 4 1, \<lambda>b. put_u32 b 8 0,
        \<lambda>b. put_u32 b an_off 1, \<lambda>b. put_u32 b (an_off + 4) (fb_rootdir fb), \<lambda>b. put_u32 b (an_off + 8) 0]
       (replicate (unat (fg_resblocksize g)) 0))"

definition format_rootdir :: "format_geometry \<Rightarrow> bytes outcome" where
  "format_rootdir g =
     chainO
       [\<lambda>b. put_u16 b 0x00 DBLKID, \<lambda>b. put_u32 b 0x04 1, \<lambda>b. put_u32 b 0x0C ANODE_ROOTDIR,
        \<lambda>b. put_u32 b 0x10 ANODE_ROOTDIR]
       (replicate (unat (fg_resblocksize g)) 0)"

section \<open>Formatting\<close>

text \<open>\<open>let mut x = ..; ..; write_reserved_blocks(dev, blk, &x, rescluster, bs)?\<close>\<close>

definition put_block :: "format_geometry \<Rightarrow> u32 \<Rightarrow> bytes outcome \<Rightarrow> (device, unit) rm" where
  "put_block g blk content =
     bindM (liftO content) (\<lambda>data.
       write_reserved_blocks write_block (unat blk) data (unat (fg_rescluster g)) (fg_bs g))"

definition write_rootblock_cluster :: "format_geometry \<Rightarrow> bytes \<Rightarrow> (device, unit) rm" where
  "write_rootblock_cluster g rb_data =
     forM [0..<unat (fg_rblkcluster g)] (\<lambda>i.
       bindM (liftO (sliceO rb_data (i * fg_bs g) ((i + 1) * fg_bs g))) (\<lambda>sector.
         write_block (unat (fg_firstreserved g + of_nat i)) sector))"

definition format_with_size :: "nat \<Rightarrow> nat \<Rightarrow> format_options \<Rightarrow> (device, format_result) rm" where
  "format_with_size now total_blocks opts =
     bindM (getM block_size) (\<lambda>bs.
     bindM (liftO (format_geometry_of bs total_blocks)) (\<lambda>g.
     let a0 = ReservedAllocator_new (fg_numreserved g) (fg_resbm_resblocks g) in
     case alloc_block g a0 of (r, a1) \<Rightarrow>
     bindM (liftO r) (\<lambda>rext_blk.
     let reserved_area = (fg_lastreserved g - fg_firstreserved g + 1) + fg_firstreserved g in
     if (of_nat total_blocks :: u32) \<le> reserved_area
     then failM (DiskFull (rs ''disk too small: '' @ show_nat total_blocks @ rs '' blocks, need at least '' @
            show_nat (unat (reserved_area + 1)) @ rs '' for reserved area''))
     else
     let data_blocks = of_nat total_blocks - reserved_area;
         bits_per_bmb = fg_index_per_block g * 32 in
     bindM (liftO (u32_div_ceil data_blocks bits_per_bmb)) (\<lambda>no_bmb.
     bindM (liftO (u32_div_ceil no_bmb (fg_index_per_block g))) (\<lambda>no_bmi.
     bindM (liftO (copy_at (replicate (fg_bs g) 0) 0 (u32_to_be ID_PFS_DISK))) (\<lambda>boot.
     bindM (write_block 0 boot) (\<lambda>_.
     bindM (write_block 1 (replicate (fg_bs g) 0)) (\<lambda>_.
     case alloc_metadata g no_bmb no_bmi a1 of (r2, a2) \<Rightarrow>
     bindM (liftO r2) (\<lambda>fb.
     bindM (liftO (format_rootblock now opts total_blocks g rext_blk a2 fb data_blocks)) (\<lambda>rb_data.
     bindM (write_rootblock_cluster g rb_data) (\<lambda>_.
     bindM (put_block g rext_blk (format_rext now g fb)) (\<lambda>_.
     bindM (forM [0..<length (fb_bmi fb)] (\<lambda>seq. put_block g (fb_bmi fb ! seq) (format_bmi g fb seq))) (\<lambda>_.
     bindM (forM [0..<length (fb_bm fb)] (\<lambda>seq. put_block g (fb_bm fb ! seq) (format_bm g data_blocks seq))) (\<lambda>_.
     bindM (put_block g (fb_anidx fb) (format_anidx g fb)) (\<lambda>_.
     bindM (put_block g (fb_anode fb) (format_anode_block g fb)) (\<lambda>_.
     bindM (put_block g (fb_rootdir fb) (format_rootdir g)) (\<lambda>_.
     bindM flush (\<lambda>_.
       retM \<lparr>fr_volume_name = fo_volume_name opts, fr_total_blocks = total_blocks,
             fr_data_blocks = unat data_blocks, fr_blocks_free = unat data_blocks,
             fr_num_reserved = fg_numreserved g, fr_reserved_blksize = fg_resblocksize g\<rparr>))))))))))))))))))"

section \<open>The allocator keeps its contract\<close>

definition ra_inv :: "reserved_allocator \<Rightarrow> bool" where
  "ra_inv a \<longleftrightarrow> length (ra_bitmap a) = unat (ra_numreserved a) \<and> 0 < unat (ra_numreserved a) \<and>
     unat (ra_numreserved a) \<le> 2 ^ 31 \<and> unat (ra_roving a) + unat (ra_numreserved a) \<le> 2 ^ 32"

definition ra_free :: "reserved_allocator \<Rightarrow> nat set" where
  "ra_free a = {i. i < length (ra_bitmap a) \<and> ra_bitmap a ! i}"

definition ra_at :: "reserved_allocator \<Rightarrow> nat \<Rightarrow> nat" where
  "ra_at a i = (unat (ra_roving a) + i) mod unat (ra_numreserved a)"

lemma ra_probe:
  assumes "ra_inv a" "i < unat (ra_numreserved a)"
  shows "modO (ra_roving a + of_nat i) (ra_numreserved a) = Ok (of_nat (ra_at a i))"
    "ra_at a i < unat (ra_numreserved a)" "unat (of_nat (ra_at a i) :: u32) = ra_at a i"
proof -
  have n: "0 < unat (ra_numreserved a)" using assms(1) by (simp add: ra_inv_def)
  show lt: "ra_at a i < unat (ra_numreserved a)" using n by (simp add: ra_at_def)
  then have "ra_at a i < 2 ^ LENGTH(32)" using assms(1) by (simp add: ra_inv_def)
  then show u: "unat (of_nat (ra_at a i) :: u32) = ra_at a i" by (rule unat_of_nat_lt)
  have i: "unat (of_nat i :: u32) = i"
    using assms by (intro unat_of_nat_lt) (simp add: ra_inv_def)
  have "unat (ra_roving a + of_nat i) = unat (ra_roving a) + i"
    using assms i by (subst unat_add_lt) (simp_all add: ra_inv_def)
  then have "unat ((ra_roving a + of_nat i) mod ra_numreserved a) = unat (of_nat (ra_at a i) :: u32)"
    unfolding u by (simp add: unat_mod ra_at_def)
  then have "(ra_roving a + of_nat i) mod ra_numreserved a = of_nat (ra_at a i)"
    by (rule word_unat_eq_iff [THEN iffD2])
  moreover have "ra_numreserved a \<noteq> 0" using n by auto
  ultimately show "modO (ra_roving a + of_nat i) (ra_numreserved a) = Ok (of_nat (ra_at a i))"
    by (simp only: modO_def if_False)
qed

definition ra_take :: "nat \<Rightarrow> reserved_allocator \<Rightarrow> reserved_allocator" where
  "ra_take j a = a\<lparr>ra_bitmap := (ra_bitmap a)[j := False],
     ra_roving := (of_nat j + 1) mod ra_numreserved a\<rparr>"

lemma ra_scan_result:
  assumes "ra_inv a" "\<forall>i \<in> set is. i < unat (ra_numreserved a)"
  shows "(\<exists>i \<in> set is. ra_bitmap a ! ra_at a i \<and>
      ra_scan (map of_nat is) a = (Ok (of_nat (ra_at a i)), ra_take (ra_at a i) a)) \<or>
    (\<forall>i \<in> set is. \<not> ra_bitmap a ! ra_at a i) \<and>
      ra_scan (map of_nat is) a = (Err (DiskFull (rs ''out of reserved blocks'')), a)"
  using assms(2)
proof (induction "is")
  case (Cons i "is")
  note pr = ra_probe [OF assms(1), of i]
  have b: "idx (ra_bitmap a) (unat (of_nat (ra_at a i) :: u32)) = Ok (ra_bitmap a ! ra_at a i)"
    using pr assms(1) Cons.prems by (simp add: idx_def ra_inv_def)
  have m: "modO (of_nat (ra_at a i) + 1) (ra_numreserved a) =
      Ok ((of_nat (ra_at a i) + 1) mod ra_numreserved a)"
    using assms(1) by (auto simp: modO_def ra_inv_def)
  show ?case
  proof (cases "ra_bitmap a ! ra_at a i")
    case True
    then show ?thesis using pr Cons.prems b m by (simp add: ra_take_def)
  next
    case False
    then have "ra_scan (map of_nat (i # is)) a = ra_scan (map of_nat is) a"
      using pr Cons.prems b by simp
    with False Cons show ?thesis by auto
  qed
qed simp

lemma ra_at_surj:
  assumes "j < unat (ra_numreserved a)"
  shows "\<exists>i < unat (ra_numreserved a). ra_at a i = j"
proof -
  let ?n = "unat (ra_numreserved a)"
  let ?r = "unat (ra_roving a)"
  let ?i = "(j + (?n - ?r mod ?n)) mod ?n"
  have "(?r + ?i) mod ?n = (?r mod ?n + (j + (?n - ?r mod ?n))) mod ?n"
    by (metis mod_add_eq mod_mod_trivial)
  also have "?r mod ?n + (j + (?n - ?r mod ?n)) = j + ?n"
    using assms mod_less_divisor [of ?n ?r] by linarith
  finally show ?thesis using assms by (intro exI [of _ ?i]) (simp add: ra_at_def)
qed

lemma ra_take_free:
  assumes "ra_inv a" "j < unat (ra_numreserved a)"
  shows "ra_inv (ra_take j a)" "ra_free (ra_take j a) = ra_free a - {j}"
proof -
  have n: "ra_numreserved a \<noteq> 0" using assms(2) by auto
  have "unat ((of_nat j + 1) mod ra_numreserved a) < unat (ra_numreserved a)"
    using n by (simp add: unat_mod unat_gt_0)
  then show "ra_inv (ra_take j a)" using assms(1) by (simp add: ra_inv_def ra_take_def)
  show "ra_free (ra_take j a) = ra_free a - {j}"
    using assms by (auto simp: ra_free_def ra_take_def ra_inv_def nth_list_update split: if_splits)
qed

interpretation reserved: block_allocator ra_inv ra_free "of_nat :: nat \<Rightarrow> u32" ra_alloc
proof
  fix s :: reserved_allocator
  show "finite (ra_free s)" by (simp add: ra_free_def)
next
  fix s b s'
  assume inv: "ra_inv s" and a: "ra_alloc s = (Ok b, s')"
  then obtain i where i: "i < unat (ra_numreserved s)" "ra_bitmap s ! ra_at s i"
      "b = of_nat (ra_at s i)" "s' = ra_take (ra_at s i) s"
    using ra_scan_result [OF inv, of "[0..<unat (ra_numreserved s)]"] by (auto simp: ra_alloc_def)
  have lt: "ra_at s i < unat (ra_numreserved s)" by (rule ra_probe(2) [OF inv i(1)])
  then have "ra_at s i \<in> ra_free s" using i(2) inv by (simp add: ra_free_def ra_inv_def)
  then show "ra_inv s' \<and> (\<exists>i \<in> ra_free s. b = of_nat i \<and> ra_free s' = ra_free s - {i})"
    using ra_take_free [OF inv lt] i(3,4) by blast
next
  fix s e s'
  assume inv: "ra_inv s" and a: "ra_alloc s = (Err e, s')"
  then have "s' = s" "\<forall>i < unat (ra_numreserved s). \<not> ra_bitmap s ! ra_at s i"
    using ra_scan_result [OF inv, of "[0..<unat (ra_numreserved s)]"] by (auto simp: ra_alloc_def)
  then show "ra_free s = {} \<and> s' = s"
    using ra_at_surj [of _ s] inv by (fastforce simp: ra_free_def ra_inv_def)
next
  fix s
  assume inv: "ra_inv s"
  then show "fst (ra_alloc s) \<noteq> Panic"
    using ra_scan_result [OF inv, of "[0..<unat (ra_numreserved s)]"] by (auto simp: ra_alloc_def)
qed

lemma ra_inv_new:
  assumes "0 < n" "unat n \<le> 2 ^ 31" "unat k \<le> 2 ^ 31"
  shows "ra_inv (ReservedAllocator_new n k)" "ra_free (ReservedAllocator_new n k) = {unat k..<unat n}"
  using assms by (auto simp: ra_inv_def ReservedAllocator_new_def ra_free_def word_less_nat_alt)

section \<open>Properties of the allocation\<close>

lemma alloc_list_eq:
  "alloc_list g n a =
     (case reserved.alloc_n n a of (r, a') \<Rightarrow>
        (bindO r (\<lambda>is. Ok (map (\<lambda>ix. fg_firstreserved g + ix * fg_rescluster g) is)), a'))"
proof (induction n arbitrary: a)
  case (Suc n)
  show ?case
    by (simp add: alloc_block_def bindM_assoc)
      (auto simp: bindM_def Suc split: prod.splits outcome.splits)
qed simp

text \<open>
  C28. The formatter never hands out a reserved block twice.  Allocating \<open>n\<close> blocks returns \<open>n\<close> different
  free indices, scaled to block numbers, and takes exactly those from the free set; it fails
  only when fewer than \<open>n\<close> are free, and never panics.
\<close>

theorem reserved_allocation:
  assumes "ra_inv a"
  shows "case alloc_list g n a of
      (Ok bs, a') \<Rightarrow> ra_inv a' \<and> (\<exists>is. distinct is \<and> length is = n \<and> set is \<subseteq> ra_free a \<and>
          bs = map (\<lambda>i. fg_firstreserved g + of_nat i * fg_rescluster g) is \<and>
          ra_free a' = ra_free a - set is)
    | (Err e, a') \<Rightarrow> card (ra_free a) < n
    | (Panic, a') \<Rightarrow> False"
proof -
  obtain r a' where r: "reserved.alloc_n n a = (r, a')" by fastforce
  have np: "fst (reserved.alloc_n n s) \<noteq> Panic" if "ra_inv s" for s
    using that
  proof (induction n arbitrary: s)
    case (Suc n)
    show ?case
      using reserved.alloc_Panic [OF Suc.prems] reserved.alloc_Ok [OF Suc.prems] Suc.IH
      by (force simp: bindM_def split: prod.splits outcome.splits)
  qed simp
  show ?thesis
  proof (cases r)
    case (Ok bs)
    from reserved.alloc_n_Ok [OF assms r [unfolded Ok]] obtain "is" where
      "ra_inv a'" "distinct is" "length is = n" "bs = map of_nat is" "set is \<subseteq> ra_free a"
      "ra_free a' = ra_free a - set is" by blast
    with r Ok show ?thesis by (auto simp: alloc_list_eq intro!: exI [of _ "is"])
  next
    case (Err e)
    with r reserved.alloc_n_enough [OF assms, of n] show ?thesis
      by (fastforce simp: alloc_list_eq not_less)
  next
    case Panic
    with r np [OF assms] show ?thesis by simp
  qed
qed

definition sample_geometry :: format_geometry where
  "sample_geometry = \<lparr>fg_bs = 512, fg_supermode = False, fg_resblocksize = 1024, fg_rescluster = 2,
     fg_numreserved = 64, fg_resbm_resblocks = 1, fg_rblkcluster = 2, fg_firstreserved = 2,
     fg_lastreserved = 129, fg_index_per_block = 253\<rparr>"

theorem reserved_allocation_witness:
  "ra_inv (ReservedAllocator_new 64 1) \<and>
   (\<exists>bs a'. alloc_list sample_geometry 5 (ReservedAllocator_new 64 1) = (Ok bs, a') \<and> length bs = 5 \<and>
      card (ra_free a') = 58)"
proof -
  have inv: "ra_inv (ReservedAllocator_new 64 1)" by (rule ra_inv_new) simp_all
  have free: "ra_free (ReservedAllocator_new 64 1) = {1..<64}" using ra_inv_new(2) [of 64 1] by simp
  obtain r a' where r: "alloc_list sample_geometry 5 (ReservedAllocator_new 64 1) = (r, a')" by fastforce
  with reserved_allocation [OF inv, where g = sample_geometry and n = 5] free
  obtain bs "is" where "r = Ok bs" "distinct is" "length is = 5" "set is \<subseteq> {1..<64}"
      "bs = map (\<lambda>i. fg_firstreserved sample_geometry + of_nat i * fg_rescluster sample_geometry) is"
      "ra_free a' = {1..<64} - set is"
    by (cases r) auto
  with inv r show ?thesis by (simp add: card_Diff_subset distinct_card)
qed

lemma build_word_bits:
  assumes "\<forall>b \<in> set bs. b < 32"
  shows "bit (fold (\<lambda>b val. if P b then val OR bm_mask b else val) bs (v :: u32)) m \<longleftrightarrow>
    bit v m \<or> (\<exists>b \<in> set bs. P b \<and> m = 31 - b)"
  using assms by (induction bs arbitrary: v) (auto simp: bit_set_mask)

text \<open>
  C29. The reserved bitmap that the formatter writes says exactly what its allocator knows: bit \<open>n\<close>, most
  significant first, is set if and only if reserved block \<open>n\<close> exists and is free.
\<close>

theorem build_bitmap_correct:
  "bm_get (build_bitmap a) n \<longleftrightarrow> n < unat (ra_numreserved a) \<and> ra_bitmap a ! n"
proof -
  have len: "n div 32 < length (build_bitmap a)" if "n < unat (ra_numreserved a)"
    using that by (auto simp: build_bitmap_def div_ceil_def)
  have "bit (build_word a (32 * (n div 32))) (31 - n mod 32) \<longleftrightarrow>
      n < unat (ra_numreserved a) \<and> ra_bitmap a ! n"
  proof -
    have "31 - n mod 32 = 31 - b \<longleftrightarrow> b = n mod 32" if "b < 32" for b
      using that by (auto simp: less_Suc_eq_le)
    then have "bit (build_word a (32 * (n div 32))) (31 - n mod 32) \<longleftrightarrow>
        32 * (n div 32) + n mod 32 < unat (ra_numreserved a) \<and> ra_bitmap a ! (32 * (n div 32) + n mod 32)"
      unfolding build_word_def by (subst build_word_bits) auto
    then show ?thesis by simp
  qed
  with len show ?thesis by (auto simp: bm_get_def build_bitmap_def)
qed

text \<open>
  The number of reserved blocks is a multiple of 32, at least 32 and at most the format's limit
  rounded up, for every disk size and every reserved block size of at least 1 KiB: the loop
  always ends, also where its 32-bit estimate wraps around.
\<close>

lemma calc_num_reserved_bounds:
  assumes "1024 \<le> resblocksize"
  shows "\<exists>n. calc_num_reserved n_blocks resblocksize = Ok n \<and> n AND 0x1F = 0 \<and>
    32 \<le> n \<and> unat n \<le> MAXNUMRESERVED + 31"
proof -
  have nz: "resblocksize div 1024 \<noteq> 0"
    using assms by (simp add: word_le_nat_alt unat_eq_0 [symmetric] unat_div div_eq_0_iff)
  define t where "t = min (sat_sub32 (reserved_loop n_blocks 32 11 div (resblocksize div 1024)) 1) (of_nat MAXNUMRESERVED)"
  let ?n = "(t + 31) AND NOT (0x1F :: u32)"
  have "unat t \<le> MAXNUMRESERVED"
    by (simp add: t_def min_def word_le_nat_alt MAXNUMRESERVED_def)
  then have "unat (t + 31) \<le> MAXNUMRESERVED + 31"
    by (subst unat_add_lt) (simp_all add: MAXNUMRESERVED_def)
  moreover have "?n \<le> t + 31" by (rule word_and_le2)
  ultimately have "unat ?n \<le> MAXNUMRESERVED + 31" by (simp add: word_le_nat_alt)
  moreover have "?n AND 0x1F = 0" by (simp add: and.assoc)
  moreover have "calc_num_reserved n_blocks resblocksize = Ok (max ?n 32)"
    using nz by (simp add: calc_num_reserved_def Let_def divO_def t_def)
  ultimately show ?thesis by (auto simp: max_def MAXNUMRESERVED_def)
qed

lemma calc_num_reserved_bounds_witness:
  "\<exists>n. calc_num_reserved 1760 1024 = Ok n \<and> n AND 0x1F = 0 \<and> 32 \<le> n"
  using calc_num_reserved_bounds [of 1024 1760] by auto

section \<open>Blocks of the metadata\<close>

lemma format_anidx_bytes:
  assumes "100 \<le> unat (fg_resblocksize g)" "format_anidx g fb = Ok data"
  shows "length data = unat (fg_resblocksize g)" "be32 data 12 = Ok (fb_anode fb)"
  using assms by (auto simp: format_anidx_def bytes_simps)

lemma format_anode_block_bytes:
  assumes "100 \<le> unat (fg_resblocksize g)" "format_anode_block g fb = Ok data"
  shows "length data = unat (fg_resblocksize g)" "be32 data 12 = Ok 0"
    "be16 data 0 = Ok ABLKID" "be32 data 76 = Ok 1" "be32 data 80 = Ok (fb_rootdir fb)" "be32 data 84 = Ok 0"
  using assms
  by (auto simp: format_anode_block_def Let_def size_defs ANODE_ROOTDIR_def bytes_simps be32_replicate_0)

lemma format_rext_bytes:
  assumes "100 \<le> unat (fg_resblocksize g)" "format_rext now g fb = Ok data"
  shows "length data = unat (fg_resblocksize g)" "be16 data 0 = Ok EXTENSIONID"
    "fg_supermode g \<Longrightarrow> be32 data 0x40 = Ok (fb_anidx fb)"
proof -
  obtain x y z where d: "current_amiga_datestamp now = (x, y, z)" by (cases "current_amiga_datestamp now")
  show "length data = unat (fg_resblocksize g)" "be16 data 0 = Ok EXTENSIONID"
    "fg_supermode g \<Longrightarrow> be32 data 0x40 = Ok (fb_anidx fb)"
    using assms by (auto simp: format_rext_def d bytes_simps split: if_splits)
qed

end
