(* ===== verification/Format_Open.thy ===== *)
theory Format_Open
  imports Format
begin

text \<open>
  The formatter and the reader (\<^verbatim>\<open>format.rs\<close>, \<^verbatim>\<open>ondisk/rootblock.rs\<close>, \<^verbatim>\<open>volume.rs\<close>): the rootblock that
  formatting writes is parsed back with the geometry it was written for, and what the reader makes of the
  metadata of a large volume.
\<close>

section \<open>Changes above an offset\<close>

definition same_below :: "nat \<Rightarrow> bytes \<Rightarrow> bytes \<Rightarrow> bool" where
  "same_below n a b \<longleftrightarrow> length a = length b \<and> (\<forall>i<n. i < length a \<longrightarrow> a ! i = b ! i)"

lemma same_below_refl: "same_below n a a"
  and same_below_trans: "same_below n a b \<Longrightarrow> same_below n b c \<Longrightarrow> same_below n a c"
  by (auto simp: same_below_def)

lemma same_below_reads:
  assumes "same_below n a b"
  shows "q + 4 \<le> n \<Longrightarrow> be32 b q = be32 a q" "q + 2 \<le> n \<Longrightarrow> be16 b q = be16 a q" "q < n \<Longrightarrow> idx b q = idx a q"
  using assms by (auto simp: same_below_def be32_def be16_def idx_def)

lemma same_below_slice:
  assumes "same_below n a b" "y \<le> n" "y \<le> length a" "x \<le> y"
  shows "sliceO b x y = sliceO a x y"
proof -
  have "bslice b x (y - x) = bslice a x (y - x)"
    using assms by (intro nth_equalityI) (auto simp: same_below_def bslice_def)
  then show ?thesis using assms by (simp add: sliceO_def same_below_def)
qed

lemma same_below_put:
  "put_u32 b q v = Ok b' \<Longrightarrow> n \<le> q \<Longrightarrow> same_below n b b'"
  "put_u16 b q h = Ok b' \<Longrightarrow> n \<le> q \<Longrightarrow> same_below n b b'"
  by (auto simp: put_u32_def put_u16_def copy_at_def same_below_def nth_splice split: if_splits)

lemma same_below_put_u32s: "put_u32s q vs b = Ok b' \<Longrightarrow> n \<le> q \<Longrightarrow> same_below n b b'"
proof (induction q vs b rule: put_u32s.induct)
  case (2 q v vs b)
  then obtain b1 where "put_u32 b q v = Ok b1" "put_u32s (q + 4) vs b1 = Ok b'" by (auto simp: bindO_eq_Ok)
  with 2 show ?case by (meson le_add1 order.trans same_below_put(1) same_below_trans)
qed (simp add: same_below_refl)

lemma same_below_put_within: "put_u32s_within q vs b = Ok b' \<Longrightarrow> n \<le> q \<Longrightarrow> same_below n b b'"
proof (induction q vs b rule: put_u32s_within.induct)
  case (2 q v vs b)
  then obtain b1 where b1: "(if q + 4 \<le> length b then put_u32 b q v else Ok b) = Ok b1"
      "put_u32s_within (q + 4) vs b1 = Ok b'" by (auto simp: bindO_eq_Ok)
  then have "same_below n b b1"
    using 2(3) same_below_put(1) [of b q v b1 n] same_below_refl by (auto split: if_splits)
  with 2 b1 show ?case by (meson le_add1 order.trans same_below_trans)
qed (simp add: same_below_refl)

lemma chainO_append: "chainO (fs @ gs) x = bindO (chainO fs x) (chainO gs)"
proof (induction fs arbitrary: x)
  case (Cons f fs)
  then show ?case by (cases "f x") simp_all
qed simp

lemma same_below_chain:
  assumes "\<And>f x y. f \<in> set fs \<Longrightarrow> f x = Ok y \<Longrightarrow> same_below n x y" "chainO fs x = Ok y"
  shows "same_below n x y"
  using assms
proof (induction fs arbitrary: x)
  case (Cons f fs)
  then obtain x1 where "f x = Ok x1" "chainO fs x1 = Ok y" by (auto simp: bindO_eq_Ok)
  with Cons show ?case by (meson list.set_intros same_below_trans)
qed (simp add: same_below_refl)

section \<open>The rootblock\<close>

text \<open>The fields of the rootblock, and what formatting puts behind them.\<close>

definition rootblock_header ::
  "nat \<Rightarrow> format_options \<Rightarrow> nat \<Rightarrow> format_geometry \<Rightarrow> u32 \<Rightarrow> reserved_allocator \<Rightarrow> u32 \<Rightarrow> (bytes \<Rightarrow> bytes outcome) list" where
  "rootblock_header now opts total_blocks g rext_blk a data_blocks =
     (let (cday, cmin, ctick) = current_amiga_datestamp now;
          name = as_bytes (fo_volume_name opts);
          namelen = min (length name) 30
      in [\<lambda>b. put_u32 b 0x00 ID_PFS_DISK,
         \<lambda>b. put_u32 b 0x04 (format_options_word (fg_supermode g)),
         \<lambda>b. put_u32 b 0x08 1,
         \<lambda>b. put_u16 b 0x0C cday,
         \<lambda>b. put_u16 b 0x0E cmin,
         \<lambda>b. put_u16 b 0x10 ctick,
         \<lambda>b. put_u16 b 0x12 0xF0,
         \<lambda>b. set_idx b 0x14 (of_nat namelen),
         \<lambda>b. copy_at b 0x15 (take namelen name),
         \<lambda>b. put_u32 b 0x34 (fg_lastreserved g),
         \<lambda>b. put_u32 b 0x38 (fg_firstreserved g),
         \<lambda>b. put_u32 b 0x3C (ra_free_count a),
         \<lambda>b. put_u16 b 0x40 (ucast (fg_resblocksize g)),
         \<lambda>b. put_u16 b 0x42 (ucast (fg_rblkcluster g)),
         \<lambda>b. put_u32 b 0x44 data_blocks,
         \<lambda>b. put_u32 b 0x48 (data_blocks div 20),
         \<lambda>b. put_u32 b 0x54 (of_nat total_blocks),
         \<lambda>b. put_u32 b 0x58 rext_blk])"

definition rootblock_rest :: "format_geometry \<Rightarrow> reserved_allocator \<Rightarrow> format_blocks \<Rightarrow> (bytes \<Rightarrow> bytes outcome) list" where
  "rootblock_rest g a fb =
     [\<lambda>b. if fg_supermode g then put_u32s 0x60 (fb_bmi fb) b
             else bindO (put_u32s 0x60 (take (MAXSMALLBITMAPINDEX + 1) (fb_bmi fb)) b) (\<lambda>b.
                    put_u32 b (0x60 + (MAXSMALLBITMAPINDEX + 1) * 4) (fb_anidx fb)),
         \<lambda>b. put_u16 b (fg_bs g) BMBLKID,
         \<lambda>b. put_u32 b (fg_bs g + 8) 0,
         \<lambda>b. put_u32s_within (fg_bs g + 12) (build_bitmap a) b]"

lemma format_rootblock_split:
  "format_rootblock now opts total_blocks g rext_blk a fb data_blocks =
     bindO (chainO (rootblock_header now opts total_blocks g rext_blk a data_blocks)
              (replicate (unat (fg_rblkcluster g) * fg_bs g) 0))
       (chainO (rootblock_rest g a fb))"
proof -
  obtain x y z where d: "current_amiga_datestamp now = (x, y, z)" by (cases "current_amiga_datestamp now")
  show ?thesis
    by (simp only: chainO_append [symmetric])
      (simp only: format_rootblock_def rootblock_header_def rootblock_rest_def d Let_def prod.case append.simps)
qed

lemma rootblock_rest_below:
  assumes "chainO (rootblock_rest g a fb) x = Ok y" "0x60 \<le> fg_bs g"
  shows "same_below 0x60 x y"
proof (rule same_below_chain [OF _ assms(1)])
  fix f x y assume f: "f \<in> set (rootblock_rest g a fb)" "f x = Ok y"
  have small: "same_below 0x60 x y" if "put_u32s 0x60 vs x = Ok z" "put_u32 z (0x60 + k) v = Ok y" for vs z k v
    by (rule same_below_trans [OF same_below_put_u32s [OF that(1)] same_below_put(1) [OF that(2)]]) simp_all
  have super: "same_below 0x60 x y" if "put_u32s 0x60 vs x = Ok y" for vs
    by (rule same_below_put_u32s [OF that]) simp
  consider "put_u32s 0x60 (fb_bmi fb) x = Ok y"
    | z where "put_u32s 0x60 (take (MAXSMALLBITMAPINDEX + 1) (fb_bmi fb)) x = Ok z"
        "put_u32 z (0x60 + (MAXSMALLBITMAPINDEX + 1) * 4) (fb_anidx fb) = Ok y"
    | "put_u16 x (fg_bs g) BMBLKID = Ok y" | "put_u32 x (fg_bs g + 8) 0 = Ok y"
    | "put_u32s_within (fg_bs g + 12) (build_bitmap a) x = Ok y"
    using f unfolding rootblock_rest_def by (cases "fg_supermode g") (auto simp: bindO_eq_Ok)
  then show "same_below 0x60 x y"
  proof cases
    case 1 then show ?thesis by (rule super)
  next
    case 2 then show ?thesis by (rule small)
  next
    case 3 then show ?thesis by (rule same_below_put(2)) (rule assms(2))
  next
    case 4 then show ?thesis by (rule same_below_put(1)) (use assms(2) in simp)
  next
    case 5 then show ?thesis by (rule same_below_put_within) (use assms(2) in simp)
  qed
qed

lemma rootblock_header_fields:
  assumes "chainO (rootblock_header now opts total_blocks g rext_blk a data_blocks) (replicate n 0) = Ok h" "0x60 \<le> n"
  shows "length h = n" "be32 h 0x00 = Ok ID_PFS_DISK" "be32 h 0x04 = Ok (format_options_word (fg_supermode g))"
    "idx h 0x14 = Ok (of_nat (min (length (as_bytes (fo_volume_name opts))) 30))"
    "sliceO h 0x15 (0x15 + min (length (as_bytes (fo_volume_name opts))) 30) =
       Ok (take 30 (as_bytes (fo_volume_name opts)))"
    "be32 h 0x34 = Ok (fg_lastreserved g)" "be32 h 0x38 = Ok (fg_firstreserved g)" "be32 h 0x3C = Ok (ra_free_count a)"
    "be16 h 0x40 = Ok (ucast (fg_resblocksize g))" "be16 h 0x42 = Ok (ucast (fg_rblkcluster g))"
    "be32 h 0x44 = Ok data_blocks" "be32 h 0x54 = Ok (of_nat total_blocks)" "be32 h 0x58 = Ok rext_blk"
proof -
  obtain x y z where d: "current_amiga_datestamp now = (x, y, z)" by (cases "current_amiga_datestamp now")
  let ?name = "as_bytes (fo_volume_name opts)" 
  let ?nl = "min (length ?name) 30"
  have nl: "0x15 + length (take ?nl ?name) \<le> 0x34" by simp
  define h0 where "h0 = splice (splice (splice (splice (splice (splice (splice (splice (splice (replicate n 0)
      0x00 (u32_to_be ID_PFS_DISK)) 0x04 (u32_to_be (format_options_word (fg_supermode g)))) 0x08 (u32_to_be 1))
      0x0C (u16_to_be x)) 0x0E (u16_to_be y)) 0x10 (u16_to_be z)) 0x12 (u16_to_be 0xF0)) 0x14 [of_nat ?nl])
      0x15 (take ?nl ?name)"
  have len0: "length h0 = n" by (simp add: h0_def)
  have h: "h = splice (splice (splice (splice (splice (splice (splice (splice (splice h0
      0x34 (u32_to_be (fg_lastreserved g))) 0x38 (u32_to_be (fg_firstreserved g))) 0x3C (u32_to_be (ra_free_count a)))
      0x40 (u16_to_be (ucast (fg_resblocksize g)))) 0x42 (u16_to_be (ucast (fg_rblkcluster g))))
      0x44 (u32_to_be data_blocks)) 0x48 (u32_to_be (data_blocks div 20))) 0x54 (u32_to_be (of_nat total_blocks)))
      0x58 (u32_to_be rext_blk)"
    using assms nl by (simp add: rootblock_header_def d Let_def set_idx_Ok copy_at_def h0_def)
  show "length h = n" by (simp add: h len0)
  show "be32 h 0x34 = Ok (fg_lastreserved g)" "be32 h 0x38 = Ok (fg_firstreserved g)" "be32 h 0x3C = Ok (ra_free_count a)"
    "be16 h 0x40 = Ok (ucast (fg_resblocksize g))" "be16 h 0x42 = Ok (ucast (fg_rblkcluster g))"
    "be32 h 0x44 = Ok data_blocks" "be32 h 0x54 = Ok (of_nat total_blocks)" "be32 h 0x58 = Ok rext_blk"
    using assms(2) by (simp_all add: h bytes_simps len0)
  have low: "be32 h q = be32 h0 q" if "q + 4 \<le> 0x34" for q using that by (simp add: h bytes_simps)
  show "be32 h 0x00 = Ok ID_PFS_DISK" "be32 h 0x04 = Ok (format_options_word (fg_supermode g))"
    using assms(2) by (simp_all add: low h0_def bytes_simps)
  show "idx h 0x14 = Ok (of_nat ?nl)"
    using assms(2) by (simp add: idx_Ok h len0 bytes_simps) (simp add: h0_def bytes_simps)
  have "sliceO h 0x15 (0x15 + ?nl) = Ok (bslice h 0x15 ?nl)" using assms(2) by (simp add: sliceO_def h len0)
  moreover have "bslice h 0x15 ?nl = bslice h0 0x15 ?nl" using assms(2) by (simp add: h len0 bytes_simps)
  moreover have "bslice h0 0x15 ?nl = take ?nl ?name" using assms(2) by (simp add: h0_def bytes_simps)
  ultimately show "sliceO h 0x15 (0x15 + ?nl) = Ok (take 30 ?name)" by (simp add: min_def)
qed

lemma rootblock_roundtrip:
  assumes "format_rootblock now opts total_blocks g rext_blk a fb data_blocks = Ok b" "0x60 \<le> fg_bs g"
    "fg_rblkcluster g \<noteq> 0"
  shows "\<exists>rb. Rootblock_parse b = Ok rb \<and> rb_options rb = format_options_word (fg_supermode g) \<and>
    rb_diskname rb = latin1_to_string (take 30 (as_bytes (fo_volume_name opts))) \<and>
    rb_lastreserved rb = fg_lastreserved g \<and> rb_firstreserved rb = fg_firstreserved g \<and>
    rb_reserved_free rb = ra_free_count a \<and> rb_reserved_blksize rb = ucast (fg_resblocksize g) \<and>
    rb_rblkcluster rb = ucast (fg_rblkcluster g) \<and> rb_blocksfree rb = data_blocks \<and>
    rb_disksize rb = of_nat total_blocks \<and> rb_extension rb = rext_blk"
proof -
  let ?n = "unat (fg_rblkcluster g) * fg_bs g" and ?name = "as_bytes (fo_volume_name opts)"
  obtain h where h: "chainO (rootblock_header now opts total_blocks g rext_blk a data_blocks) (replicate ?n 0) = Ok h"
      and r: "chainO (rootblock_rest g a fb) h = Ok b"
    using assms(1) by (auto simp: format_rootblock_split bindO_eq_Ok)
  have n: "0x60 \<le> ?n"
    using assms(2,3) by (metis le_trans mult_le_mono1 nat_mult_1 One_nat_def Suc_leI unat_gt_0)
  note hd = rootblock_header_fields [OF h n]
  note sb = rootblock_rest_below [OF r assms(2)]
  have len: "length b = ?n" using sb hd(1) by (simp add: same_below_def)
  note rd = same_below_reads [OF sb]
  have "the_ok (be32 b 0) \<in> set PFS_TYPES" using hd(2) by (simp add: rd PFS_TYPES_def)
  then obtain rb where rb: "Rootblock_parse b = Ok rb" using Rootblock_parse_cases [of b] n len by auto
  have "sliceO b 0x15 (0x15 + min (length ?name) 30) = Ok (take 30 ?name)"
    using same_below_slice [OF sb, of "0x15 + min (length ?name) 30" "0x15"] n hd(1,5) by simp
  moreover have "idx b 0x14 = Ok (of_nat (min (length ?name) 30))" using hd(4) by (simp add: rd)
  moreover have "unat (of_nat (min (length ?name) 30) :: u8) = min (length ?name) 30" by (rule unat_of_nat_lt) simp
  ultimately have "rb_diskname rb = latin1_to_string (take 30 ?name)"
    using Rootblock_parse_fields(10) [OF rb] by (auto simp: rb_off_defs)
  then show ?thesis
    using rb hd n len Rootblock_parse_fields(1-9) [OF rb] by (simp add: rb_off_defs cur32_def cur16_def rd)
qed

text \<open>
  C35. A formatted volume is recognised as what was formatted: the rootblock that the formatter builds is
  accepted by the parser and read back with the options, the bounds of the reserved area, both
  free counters, the reserved block size, the disk size, the extension block and the first thirty
  bytes of the volume name.
\<close>

theorem format_rootblock_roundtrip:
  assumes "format_rootblock now opts total_blocks g rext_blk a fb data_blocks = Ok b" "0x60 \<le> fg_bs g"
    "fg_rblkcluster g \<noteq> 0"
  shows "\<exists>rb. Rootblock_parse b = Ok rb \<and> rb_options rb = format_options_word (fg_supermode g) \<and>
    rb_diskname rb = latin1_to_string (take 30 (as_bytes (fo_volume_name opts))) \<and>
    rb_lastreserved rb = fg_lastreserved g \<and> rb_firstreserved rb = fg_firstreserved g \<and>
    rb_reserved_free rb = ra_free_count a \<and> rb_reserved_blksize rb = ucast (fg_resblocksize g) \<and>
    rb_rblkcluster rb = ucast (fg_rblkcluster g) \<and> rb_blocksfree rb = data_blocks \<and>
    rb_disksize rb = of_nat total_blocks \<and> rb_extension rb = rext_blk"
  by (rule rootblock_roundtrip [OF assms])

lemma put_within_Ok: "\<exists>b'. put_u32s_within q vs b = Ok b'"
proof (induction q vs b rule: put_u32s_within.induct)
  case (2 q v vs b)
  then show ?case by (cases "q + 4 \<le> length b") (simp_all add: put_u32_def copy_at_def)
qed simp

lemma sample_format_rootblock:
  "\<exists>b. format_rootblock 0 FormatOptions_default 100 sample_geometry 4 (ReservedAllocator_new 64 1)
     \<lparr>fb_bm = [6], fb_bmi = [8], fb_anidx = 10, fb_anode = 12, fb_rootdir = 14\<rparr> 34 = Ok b"
proof -
  obtain x y z where d: "current_amiga_datestamp 0 = (x, y, z)" by (cases "current_amiga_datestamp 0")
  have name: "length (as_bytes (fo_volume_name FormatOptions_default)) = 8"
    by (simp add: FormatOptions_default_def rs_def utf8_encode_def)
  have "\<exists>h. chainO (rootblock_header 0 FormatOptions_default 100 sample_geometry 4 (ReservedAllocator_new 64 1) 34)
      (replicate 1024 0) = Ok h \<and> length h = 1024"
    using name by (simp add: rootblock_header_def d Let_def set_idx_Ok copy_at_def)
  then show ?thesis
    by (auto simp: format_rootblock_split rootblock_rest_def sample_geometry_def MAXSMALLBITMAPINDEX_def put_within_Ok
        bindO_eq_Ok)
qed

theorem format_rootblock_roundtrip_witness:
  "\<exists>b rb. format_rootblock 0 FormatOptions_default 100 sample_geometry 4 (ReservedAllocator_new 64 1)
       \<lparr>fb_bm = [6], fb_bmi = [8], fb_anidx = 10, fb_anode = 12, fb_rootdir = 14\<rparr> 34 = Ok b \<and>
     Rootblock_parse b = Ok rb \<and> rb_diskname rb = rs ''Untitled'' \<and> rb_disksize rb = 100"
proof -
  obtain b where b: "format_rootblock 0 FormatOptions_default 100 sample_geometry 4 (ReservedAllocator_new 64 1)
     \<lparr>fb_bm = [6], fb_bmi = [8], fb_anidx = 10, fb_anode = 12, fb_rootdir = 14\<rparr> 34 = Ok b"
    using sample_format_rootblock by blast
  have "latin1_to_string (take 30 (as_bytes (fo_volume_name FormatOptions_default))) = rs ''Untitled''"
    by (simp add: FormatOptions_default_def rs_def utf8_encode_def latin1_to_string_def)
  with format_rootblock_roundtrip [OF b] b show ?thesis by (auto simp: sample_geometry_def)
qed

section \<open>Large volumes\<close>

lemma parsed_superindex:
  assumes "RootblockExt_parse data = Ok ext" "0x44 \<le> length data" "be32 data 0x40 = Ok x"
  shows "\<exists>rest. rx_superindex ext = x # rest"
proof -
  have "filter (\<lambda>i. 0x40 + i * 4 + 4 \<le> length data) [0..<MAXSUPER + 1] =
      0 # filter (\<lambda>i. 0x40 + i * 4 + 4 \<le> length data) [1..<MAXSUPER + 1]"
    using assms(2) by (simp add: upt_conv_Cons del: upt_Suc)
  moreover have "rx_superindex ext = map (\<lambda>i. the_ok (be32 data (0x40 + i * 4)))
      (filter (\<lambda>i. 0x40 + i * 4 + 4 \<le> length data) [0..<MAXSUPER + 1])"
    using assms(1) by (auto simp: RootblockExt_parse_def Let_def bindO_eq_Ok read_u32s_eq split: if_splits)
  ultimately show ?thesis using assms(3) by simp
qed

lemma from_device_extension:
  assumes "from_device d = Ok v" "has_extension (v_rootblock v)"
    and "dev_reserved d (unat (rb_extension (v_rootblock v))) (rb_reserved_blksize (v_rootblock v)) = Ok data"
  obtains ext where "RootblockExt_parse data = Ok ext" "v_anodes v = AnodeReader_new (v_rootblock v) (Some ext)"
proof -
  let ?ext = "\<lambda>rb. load_extension d rb BlockCache_new"
  from assms(1) obtain rb e where e: "fst (?ext rb) = Ok e"
      and v: "v = \<lparr>v_dev = d, v_cache = snd (?ext rb), v_rootblock = rb, v_rootblock_ext = e,
           v_anodes = AnodeReader_new rb e, v_bitmap = BitmapReader_new rb\<rparr>"
    by (auto simp: from_device_def bindO_eq_Ok case_prod_beta)
  then show thesis
    using that assms(2,3) transparentD1 [OF load_extension_transparent coherent_new, of d rb]
    by (auto simp: bindO_eq_Ok)
qed

lemma super_anode_missing:
  assumes "format_anidx g fb = Ok idx_data" "format_anode_block g fb = Ok an_data"
    and "dev_reserved d (unat (fb_anidx fb)) (rb_reserved_blksize rb) = Ok idx_data"
    and "dev_reserved d (unat (fb_anode fb)) (rb_reserved_blksize rb) = Ok an_data"
    and "100 \<le> unat (fg_resblocksize g)" "64 \<le> rb_reserved_blksize rb"
    and "rb_options rb = format_options_word True"
    and "rx_superindex ext = fb_anidx fb # rest" "fb_anidx fb \<noteq> 0" "fb_anode fb \<noteq> 0"
  shows "anode_ref (AnodeReader_new rb (Some ext)) d ANODE_ROOTDIR = Err (AnodeNotFound ANODE_ROOTDIR)"
proof -
  have flags: "is_splitted_anodes rb" "is_large rb"
    using assms(7) by (simp_all add: is_splitted_anodes_def is_large_def has_flag_def
        format_options_word_def mode_defs Let_def)
  note i = format_anidx_bytes [OF assms(5,1)] and a = format_anode_block_bytes [OF assms(5,2)]
  note sq = index_per_block_square [OF assms(6)]
  have "anode_block_ref (AnodeReader_new rb (Some ext)) d 0 = Ok 0"
    using flags sq assms(3,4,5,8,9,10) i a(1,2)
    by (simp add: anode_block_ref_def AnodeReader_new_def Let_def divO_def modO_def get_or_0_def
        index_entry_ref_def size_defs)
  then show ?thesis
    using flags(1) by (simp add: anode_ref_def split_anodenr_def AnodeReader_new_def ANODE_ROOTDIR_def)
qed

text \<open>
  C40. A volume formatted in super-index mode opens, but its root directory cannot be listed.  The formatter
  stores the anode index block itself as the first entry of the super index in the extension, one level above
  where the reader expects it.  When a device holds the extension, the index block and the anode block as the
  formatter writes them, and opening it finds the rootblock the formatter writes, then the lookup of the root
  directory takes the anode block for an index block and reports that the anode does not exist.
\<close>

theorem format_supermode_unreadable:
  assumes "fg_supermode g" "0x60 \<le> fg_bs g" "fg_rblkcluster g \<noteq> 0" "100 \<le> unat (fg_resblocksize g)"
    and "format_rootblock now opts total_blocks g rext_blk a fb data_blocks = Ok rb_data"
    and "format_rext now g fb = Ok rext_data" "format_anidx g fb = Ok idx_data" "format_anode_block g fb = Ok an_data"
    and "rext_blk \<noteq> 0" "fb_anidx fb \<noteq> 0" "fb_anode fb \<noteq> 0"
    and "dev_reserved d (unat rext_blk) (ucast (fg_resblocksize g)) = Ok rext_data"
    and "dev_reserved d (unat (fb_anidx fb)) (ucast (fg_resblocksize g)) = Ok idx_data"
    and "dev_reserved d (unat (fb_anode fb)) (ucast (fg_resblocksize g)) = Ok an_data"
    and "from_device d = Ok v" "Rootblock_parse rb_data = Ok (v_rootblock v)"
  shows "fst (list_dir [SLASH] v) = Err (AnodeNotFound ANODE_ROOTDIR)"
proof -
  let ?rb = "v_rootblock v"
  have rb: "rb_options ?rb = format_options_word True" "rb_reserved_blksize ?rb = ucast (fg_resblocksize g)"
      "rb_extension ?rb = rext_blk"
    using rootblock_roundtrip [OF assms(5,2,3)] assms(1,16) by auto
  have "has_extension ?rb"
    using rb(1,3) assms(9) by (simp add: has_extension_def has_flag_def format_options_word_def mode_defs Let_def)
  then obtain ext where ext: "RootblockExt_parse rext_data = Ok ext" "v_anodes v = AnodeReader_new ?rb (Some ext)"
    using from_device_extension [OF assms(15)] assms(12) rb(2,3) by auto
  note x = format_rext_bytes [OF assms(4,6)]
  obtain rest where "rx_superindex ext = fb_anidx fb # rest"
    using parsed_superindex [OF ext(1) _ x(3) [OF assms(1)]] x(1) assms(4) by auto
  note wf = from_device_wf [OF assms(15)]
  moreover have "64 \<le> rb_reserved_blksize ?rb" using wf(1) by (simp add: vol_wf_def)
  ultimately have "anode_ref (v_anodes v) d ANODE_ROOTDIR = Err (AnodeNotFound ANODE_ROOTDIR)"
    using \<open>rx_superindex ext = _\<close> super_anode_missing [OF assms(7,8), of d ?rb ext rest] assms(4,10,11,13,14) rb ext(2) by simp
  then have "dir_entries_ref (v_anodes v) (v_dev v) (rb_reserved_blksize ?rb) ANODE_ROOTDIR =
      Err (AnodeNotFound ANODE_ROOTDIR)"
    using wf(2) by (simp add: dir_entries_ref_def chain_ref.simps MAX_CHAIN_LEN_def ANODE_EOF_def ANODE_ROOTDIR_def)
  moreover have "path_parts [SLASH] = []" by (simp add: path_parts_def)
  ultimately show ?thesis
    unfolding vol_value [OF wf(1) list_dir_transparent [OF wf(1)]] by simp
qed

text \<open>A small device with the blocks of a volume in super-index mode, as the formatter builds them.\<close>

definition super_geometry :: format_geometry where
  "super_geometry = sample_geometry\<lparr>fg_supermode := True\<rparr>"

definition super_blocks :: format_blocks where
  "super_blocks = \<lparr>fb_bm = [], fb_bmi = [], fb_anidx = 6, fb_anode = 8, fb_rootdir = 10\<rparr>"

abbreviation super_rootblock :: "bytes outcome" where
  "super_rootblock \<equiv> format_rootblock 0 FormatOptions_default 100 super_geometry 4 (ReservedAllocator_new 64 1) super_blocks 34"

definition super_device :: device where
  "super_device =
     (create 512 10)\<lparr>d_contents := replicate 1024 0 @ the_ok super_rootblock @ the_ok (format_rext 0 super_geometry super_blocks) @
        the_ok (format_anidx super_geometry super_blocks) @ the_ok (format_anode_block super_geometry super_blocks)\<rparr>"

lemma super_geometry_fields: "fg_supermode super_geometry" "fg_bs super_geometry = 512" "fg_rblkcluster super_geometry = 2"
  "fg_resblocksize super_geometry = 1024"
  by (simp_all add: super_geometry_def sample_geometry_def)

lemma super_parts:
  obtains r x i a where "super_rootblock = Ok r" "format_rext 0 super_geometry super_blocks = Ok x"
    "format_anidx super_geometry super_blocks = Ok i" "format_anode_block super_geometry super_blocks = Ok a"
proof -
  obtain y m t where d: "current_amiga_datestamp 0 = (y, m, t)" by (cases "current_amiga_datestamp 0")
  have name: "length (as_bytes (fo_volume_name FormatOptions_default)) = 8"
    by (simp add: FormatOptions_default_def rs_def utf8_encode_def)
  have "\<exists>h. chainO (rootblock_header 0 FormatOptions_default 100 super_geometry 4 (ReservedAllocator_new 64 1) 34)
      (replicate 1024 0) = Ok h \<and> length h = 1024"
    using name by (simp add: rootblock_header_def d Let_def set_idx_Ok copy_at_def)
  then have "\<exists>r. super_rootblock = Ok r"
    by (auto simp: format_rootblock_split rootblock_rest_def super_geometry_fields super_blocks_def put_within_Ok bindO_eq_Ok)
  then obtain r where "super_rootblock = Ok r" ..
  moreover obtain x i a where "format_rext 0 super_geometry super_blocks = Ok x"
      "format_anidx super_geometry super_blocks = Ok i" "format_anode_block super_geometry super_blocks = Ok a"
    by (simp add: format_rext_def d format_anidx_def format_anode_block_def Let_def size_defs ANODE_ROOTDIR_def
        super_geometry_fields)
  ultimately show thesis by (rule that)
qed

lemma length_format_rootblock:
  assumes "format_rootblock now opts total_blocks g rext_blk a fb data_blocks = Ok b" "0x60 \<le> fg_bs g" "fg_rblkcluster g \<noteq> 0"
  shows "length b = unat (fg_rblkcluster g) * fg_bs g"
proof -
  let ?n = "unat (fg_rblkcluster g) * fg_bs g"
  obtain h where h: "chainO (rootblock_header now opts total_blocks g rext_blk a data_blocks) (replicate ?n 0) = Ok h"
      and r: "chainO (rootblock_rest g a fb) h = Ok b"
    using assms(1) by (auto simp: format_rootblock_split bindO_eq_Ok)
  have "0x60 \<le> ?n"
    using assms(2,3) by (metis le_trans mult_le_mono1 nat_mult_1 One_nat_def Suc_leI unat_gt_0)
  then show ?thesis
    using rootblock_header_fields(1) [OF h] rootblock_rest_below [OF r assms(2)] by (simp add: same_below_def)
qed

lemma Rootblock_parse_take:
  assumes "Rootblock_parse data = Ok rb" "0x60 \<le> n" "n \<le> length data"
  shows "\<exists>rb'. Rootblock_parse (take n data) = Ok rb' \<and> rb_rblkcluster rb' = rb_rblkcluster rb"
proof -
  have eq: "be32 (take n data) off = be32 data off" "be16 (take n data) off = be16 data off" if "off + 4 \<le> n" for off
    using that assms(3) by (simp_all add: be32_def be16_def)
  have "the_ok (be32 data 0) \<in> set PFS_TYPES"
    using assms(1) Rootblock_parse_cases [of data] by (auto split: if_splits)
  then obtain rb' where rb': "Rootblock_parse (take n data) = Ok rb'"
    using Rootblock_parse_cases [of "take n data"] assms(2,3) eq(1) [of 0] by auto
  with Rootblock_parse_fields(4) [OF rb'] Rootblock_parse_fields(4) [OF assms(1)] assms(2) eq(2) [of 66] show ?thesis
    by (auto simp: cur16_def rb_off_defs split: if_splits)
qed

lemma super_device_opens:
  assumes "super_rootblock = Ok r" "format_rext 0 super_geometry super_blocks = Ok x"
    "format_anidx super_geometry super_blocks = Ok i" "format_anode_block super_geometry super_blocks = Ok a"
  shows "dev_reserved super_device 4 1024 = Ok x" "dev_reserved super_device 6 1024 = Ok i"
    "dev_reserved super_device 8 1024 = Ok a"
    "\<exists>v. from_device super_device = Ok v \<and> Rootblock_parse r = Ok (v_rootblock v)"
proof -
  have g: "100 \<le> unat (fg_resblocksize super_geometry)" "0x60 \<le> fg_bs super_geometry" "fg_rblkcluster super_geometry \<noteq> 0"
    by (simp_all add: super_geometry_fields)
  note rt = rootblock_roundtrip [OF assms(1) g(2,3)]
  then obtain rb where rb: "Rootblock_parse r = Ok rb" "rb_options rb = format_options_word True"
      "rb_reserved_blksize rb = 1024" "rb_rblkcluster rb = 2" "rb_extension rb = 4"
    by (auto simp: super_geometry_fields)
  have len: "length r = 1024" "length x = 1024" "length i = 1024" "length a = 1024"
    using length_format_rootblock [OF assms(1) g(2,3)] format_rext_bytes(1) [OF g(1) assms(2)]
      format_anidx_bytes(1) [OF g(1) assms(3)] format_anode_block_bytes(1) [OF g(1) assms(4)]
    by (simp_all add: super_geometry_fields)
  have dev: "d_contents super_device = replicate 1024 0 @ r @ x @ i @ a" "d_block_bytes super_device = 512"
      "d_partition_offset super_device = 0"
    using assms by (simp_all add: super_device_def create_def Let_def)
  show blocks: "dev_reserved super_device 4 1024 = Ok x" "dev_reserved super_device 6 1024 = Ok i"
    "dev_reserved super_device 8 1024 = Ok a"
    using len by (simp_all add: dev_reserved_def divO_def block_size_def read_blocks_def byte_offset_def dev
        splice_replicate_full bslice_def)
  have "read_block super_device ROOTBLOCK (replicate 512 0) = Ok (take 512 r)"
    "read_blocks super_device ROOTBLOCK 2 (replicate 1024 0) = Ok r"
    using len by (simp_all add: read_block_def read_blocks_def byte_offset_def dev ROOTBLOCK_def splice_replicate_full bslice_def)
  moreover obtain rb' where "Rootblock_parse (take 512 r) = Ok rb'" "rb_rblkcluster rb' = 2"
    using Rootblock_parse_take [OF rb(1), of 512] rb(4) len by auto
  ultimately have root: "read_rootblock super_device = Ok rb" using rb(1) by (simp add: read_rootblock_def Let_def)
  have "RootblockExt_parse x = Ok (the_ok (RootblockExt_parse x))"
    by (subst RootblockExt_parse_cases) (simp add: format_rext_bytes(2) [OF g(1) assms(2)] len)
  then have "is_ok (RootblockExt_parse x)" by (metis is_ok_iff)
  then have "is_ok (fst (load_extension super_device rb BlockCache_new))"
    unfolding transparentD1 [OF load_extension_transparent coherent_new]
    using rb(3,5) blocks(1) by (auto simp: is_ok_iff)
  with root show "\<exists>v. from_device super_device = Ok v \<and> Rootblock_parse r = Ok (v_rootblock v)"
    using rb(1,3) by (auto simp: from_device_def validate_rbs_def is_ok_iff case_prod_beta)
qed

theorem format_supermode_unreadable_witness:
  "\<exists>v. from_device super_device = Ok v \<and> fst (list_dir [SLASH] v) = Err (AnodeNotFound ANODE_ROOTDIR)"
proof -
  obtain r x i a where p: "super_rootblock = Ok r" "format_rext 0 super_geometry super_blocks = Ok x"
    "format_anidx super_geometry super_blocks = Ok i" "format_anode_block super_geometry super_blocks = Ok a"
    by (rule super_parts)
  note o = super_device_opens [OF p]
  obtain v where v: "from_device super_device = Ok v" "Rootblock_parse r = Ok (v_rootblock v)" using o(4) by blast
  have "fst (list_dir [SLASH] v) = Err (AnodeNotFound ANODE_ROOTDIR)"
    by (rule format_supermode_unreadable [OF _ _ _ _ p _ _ _ _ _ _ v])
      (use o in \<open>simp_all add: super_geometry_fields super_blocks_def\<close>)
  with v(1) show ?thesis by blast
qed

end
