(* ===== verification/Writer_State.thy ===== *)
theory Writer_State
  imports Volume Alloc
begin

text \<open>
  \<^verbatim>\<open>crates/libpfs3/src/writer.rs\<close>, first part: the state of the writer, reserved block I/O with its
  pending writes, the two bitmaps, anode allocation and the commit.  The names of the methods
  are kept; \<open>w_\<close> marks the fields.
\<close>

record writer =
  w_vol :: volume
  w_resblocksize :: u32
  w_rescluster :: u32
  w_index_per_block :: u32
  w_anodes_per_block :: u32
  w_firstreserved :: u32
  w_numreserved :: u32
  w_bitmapstart :: u32
  w_datestamp :: u32
  w_res_bitmap :: "u32 list"
  w_data_bm :: "(u32 \<times> u32 list) list"
  w_pending :: "(u32 \<times> bytes) list"

text \<open>Methods of the volume, of its device, and of its rootblock.\<close>

definition on_vol :: "(volume, 'a) rm \<Rightarrow> (writer, 'a) rm" where
  "on_vol m = zoomM w_vol (\<lambda>v w. w\<lparr>w_vol := v\<rparr>) m"

definition on_dev :: "(device, 'a) rm \<Rightarrow> (writer, 'a) rm" where
  "on_dev m = on_vol (zoomM v_dev (\<lambda>d v. v\<lparr>v_dev := d\<rparr>) m)"

definition w_dev :: "writer \<Rightarrow> device" where
  "w_dev w = v_dev (w_vol w)"

definition w_rootblock :: "writer \<Rightarrow> rootblock" where
  "w_rootblock w = v_rootblock (w_vol w)"

definition upd_rootblock :: "(rootblock \<Rightarrow> rootblock) \<Rightarrow> writer \<Rightarrow> writer" where
  "upd_rootblock f w = w\<lparr>w_vol := (w_vol w)\<lparr>v_rootblock := f (v_rootblock (w_vol w))\<rparr>\<rparr>"

definition upd_cache :: "(block_cache \<Rightarrow> block_cache) \<Rightarrow> writer \<Rightarrow> writer" where
  "upd_cache f w = w\<lparr>w_vol := (w_vol w)\<lparr>v_cache := f (v_cache (w_vol w))\<rparr>\<rparr>"

definition next_datestamp :: "(writer, u32) rm" where
  "next_datestamp w = (Ok (w_datestamp w + 1), w\<lparr>w_datestamp := w_datestamp w + 1\<rparr>)"

section \<open>Reserved blocks and pending writes\<close>

definition read_reserved_raw :: "u32 \<Rightarrow> writer \<Rightarrow> bytes outcome" where
  "read_reserved_raw blk w =
     (case find (\<lambda>(b, _). b = blk) (rev (w_pending w)) of
        Some (_, data) \<Rightarrow> Ok data
      | None \<Rightarrow>
          read_blocks (w_dev w) (unat blk) (unat (w_rescluster w))
            (replicate (unat (w_resblocksize w)) 0))"

definition reserved_raw :: "u32 \<Rightarrow> (writer, bytes) rm" where
  "reserved_raw blk w = (read_reserved_raw blk w, w)"

text \<open>Replace the first entry for the block, or push a new one.\<close>

fun pending_put :: "u32 \<Rightarrow> bytes \<Rightarrow> (u32 \<times> bytes) list \<Rightarrow> (u32 \<times> bytes) list" where
  "pending_put blk data [] = [(blk, data)]"
| "pending_put blk data ((b, x) # ps) =
     (if b = blk then (b, data) # ps else (b, x) # pending_put blk data ps)"

definition write_reserved :: "u32 \<Rightarrow> bytes \<Rightarrow> (writer, unit) rm" where
  "write_reserved blk data w =
     (Ok (), upd_cache (invalidate (unat blk)) (w\<lparr>w_pending := pending_put blk data (w_pending w)\<rparr>))"

definition get_anode_block_nr :: "u32 \<Rightarrow> (writer, u32) rm" where
  "get_anode_block_nr seqnr = on_vol (on_cache (\<lambda>v. resolve_anode_block (v_anodes v) seqnr (v_dev v)))"

definition get_bitmap_block_nr :: "u32 \<Rightarrow> (writer, u32 option) rm" where
  "get_bitmap_block_nr seqnr = on_vol (on_cache (\<lambda>v. get_bitmap_block (v_bitmap v) seqnr (v_dev v)))"

definition w_get_chain :: "u32 \<Rightarrow> (writer, anode list) rm" where
  "w_get_chain anodenr = on_vol (get_anode_chain anodenr)"

section \<open>Commit\<close>

definition flush_pending :: "(writer, unit) rm" where
  "flush_pending =
     bindM (getM w_pending) (\<lambda>writes.
     bindM (modifyM (\<lambda>w. w\<lparr>w_pending := []\<rparr>)) (\<lambda>_.
     bindM (forM writes (\<lambda>(blk, data).
       bindM (getM (\<lambda>w. (unat (w_rescluster w), unat (vol_block_size (w_vol w))))) (\<lambda>(rescluster, bs).
       bindM (on_dev (write_reserved_blocks write_block (unat blk) data rescluster bs)) (\<lambda>_.
         modifyM (upd_cache (invalidate (unat blk))))))) (\<lambda>_.
       on_dev flush)))"

text \<open>The guarded loop that stores the reserved bitmap in the rootblock cluster.\<close>

fun put_words :: "nat \<Rightarrow> u32 list \<Rightarrow> bytes \<Rightarrow> bytes outcome" where
  "put_words off [] buf = Ok buf"
| "put_words off (v # vs) buf =
     bindO (if off + 4 \<le> length buf then put_u32 buf off v else Ok buf) (put_words (off + 4) vs)"

definition read_cluster :: "writer \<Rightarrow> bytes outcome" where
  "read_cluster w =
     (let bs = unat (vol_block_size (w_vol w));
          rblkcluster = unat (rb_rblkcluster (w_rootblock w))
      in read_blocks (w_dev w) (unat (w_firstreserved w)) rblkcluster (replicate (rblkcluster * bs) 0))"

definition update_rootblock :: "(writer, unit) rm" where
  "update_rootblock =
     bindM flush_pending (\<lambda>_.
     bindM (\<lambda>w. (read_cluster w, w)) (\<lambda>cluster.
     bindM next_datestamp (\<lambda>ds.
     bindM (getM (\<lambda>w. w)) (\<lambda>w.
     bindM (liftO (chainO
       [\<lambda>b. put_u32 b RB_OFF_DATESTAMP ds,
        \<lambda>b. put_u32 b RB_OFF_RESERVED_FREE (rb_reserved_free (w_rootblock w)),
        \<lambda>b. put_u32 b RB_OFF_BLOCKSFREE (rb_blocksfree (w_rootblock w)),
        \<lambda>b. put_words (unat (vol_block_size (w_vol w)) + 12) (w_res_bitmap w) b] cluster)) (\<lambda>cluster.
     bindM (on_dev (write_blocks (unat (w_firstreserved w)) (unat (rb_rblkcluster (w_rootblock w))) cluster)) (\<lambda>_.
       on_dev flush))))))"

section \<open>The reserved bitmap\<close>

definition load_reserved_bitmap :: "(writer, unit) rm" where
  "load_reserved_bitmap w =
     bindM (liftO (read_cluster w)) (\<lambda>cluster.
     bindM (liftO (read_u32s cluster (unat (vol_block_size (w_vol w)) + 12)
                     (unat (w_numreserved w div 32) + 1))) (\<lambda>ws.
       modifyM (\<lambda>w. w\<lparr>w_res_bitmap := ws\<rparr>))) w"

text \<open>The first set bit in scanning order, as \<open>(li, bit)\<close>.\<close>

definition first_free :: "u32 list \<Rightarrow> (nat \<times> nat) option" where
  "first_free ws =
     find (\<lambda>(li, b). ws ! li AND bm_mask b \<noteq> 0) (List.product [0..<length ws] [0..<32])"

definition alloc_reserved_block :: "(writer, u32) rm" where
  "alloc_reserved_block w =
     (case first_free (w_res_bitmap w) of
        Some (li, b) \<Rightarrow>
          (let ix = (of_nat li :: u32) * 32 + of_nat b in
           (Ok (w_firstreserved w + ix * w_rescluster w),
            upd_rootblock (\<lambda>rb. rb\<lparr>rb_reserved_free := rb_reserved_free rb - 1\<rparr>)
              (w\<lparr>w_res_bitmap := (w_res_bitmap w)[li := w_res_bitmap w ! li AND NOT (bm_mask b)]\<rparr>)))
      | None \<Rightarrow> (Err (DiskFull (rs ''out of reserved blocks'')), w))"

definition free_reserved_block :: "u32 \<Rightarrow> (writer, unit) rm" where
  "free_reserved_block blk w =
     (case divO (blk - w_firstreserved w) (w_rescluster w) of
        Ok ix \<Rightarrow>
          (let li = unat (ix div 32); b = unat (ix mod 32) in
           if li < length (w_res_bitmap w)
           then (Ok (), upd_rootblock (\<lambda>rb. rb\<lparr>rb_reserved_free := rb_reserved_free rb + 1\<rparr>)
                   (w\<lparr>w_res_bitmap := (w_res_bitmap w)[li := w_res_bitmap w ! li OR bm_mask b]\<rparr>))
           else (Ok (), w))
      | Err e \<Rightarrow> (Err e, w)
      | Panic \<Rightarrow> (Panic, w))"

section \<open>The data bitmap\<close>

definition load_data_bitmap :: "(writer, unit) rm" where
  "load_data_bitmap w =
     bindM (liftO (modO 0 (w_index_per_block w * 32))) (\<lambda>_.
       let bits_per_bmb = unat (w_index_per_block w * 32);
           no_bmb = min (div_ceil (unat (rb_disksize (w_rootblock w))) bits_per_bmb) 16384 in
       forM [0..<no_bmb] (\<lambda>seq.
         bindM (get_bitmap_block_nr (of_nat seq)) (\<lambda>b. case b of
           Some blk \<Rightarrow>
             bindM (reserved_raw blk) (\<lambda>data.
             bindM (liftO (read_u32s data 12 (unat (w_index_per_block w)))) (\<lambda>longs.
               modifyM (\<lambda>w. w\<lparr>w_data_bm := w_data_bm w @ [(blk, longs)]\<rparr>)))
         | None \<Rightarrow> retM ()))) w"

fun put_all_words :: "nat \<Rightarrow> u32 list \<Rightarrow> bytes \<Rightarrow> bytes outcome" where
  "put_all_words off [] buf = Ok buf"
| "put_all_words off (v # vs) buf = bindO (put_u32 buf off v) (put_all_words (off + 4) vs)"

definition write_data_bitmap_block :: "nat \<Rightarrow> (writer, unit) rm" where
  "write_data_bitmap_block bm_idx =
     bindM (getM (\<lambda>w. w)) (\<lambda>w.
     bindM (liftO (idx (w_data_bm w) bm_idx)) (\<lambda>(blk, longs).
     bindM (reserved_raw blk) (\<lambda>data.
     bindM (liftO (bindO (put_u32 data 4 (w_datestamp w)) (put_all_words 12 longs))) (\<lambda>data.
       write_reserved blk data))))"

text \<open>A loop over a list that carries a value and ends early when the step says so.\<close>

fun untilM :: "('b \<Rightarrow> 'a \<Rightarrow> ('s, 'b \<times> bool) rm) \<Rightarrow> 'b \<Rightarrow> 'a list \<Rightarrow> ('s, 'b \<times> bool) rm" where
  "untilM f b [] = retM (b, False)"
| "untilM f b (x # xs) =
     bindM (f b x) (\<lambda>(b', stop). if stop then retM (b', True) else untilM f b' xs)"

text \<open>
  The block number of a bitmap position: the source's chain of checked operations on \<open>u32\<close>, which
  overflows exactly when the whole sum does.
\<close>

definition data_blk_nr :: "writer \<Rightarrow> nat \<Rightarrow> nat \<Rightarrow> nat \<Rightarrow> u32 option" where
  "data_blk_nr w bm_idx li b =
     (let n = bm_idx * unat (w_index_per_block w) * 32 + (li * 32 + b) + unat (w_bitmapstart w) in
      if n < 2 ^ 32 then Some (of_nat n) else None)"

definition alloc_bit ::
  "u32 \<Rightarrow> nat \<Rightarrow> nat \<Rightarrow> u32 list \<Rightarrow> nat \<Rightarrow> (writer, u32 list \<times> bool) rm" where
  "alloc_bit count bm_idx li allocated b =
     bindM (getM (\<lambda>w. w)) (\<lambda>w.
       let longs = snd (w_data_bm w ! bm_idx) in
       if longs ! li AND bm_mask b = 0 then retM (allocated, False)
       else (case data_blk_nr w bm_idx li b of
           None \<Rightarrow> failM (Corrupt (rs ''block number overflow in bitmap''))
         | Some data_blk \<Rightarrow>
             if data_blk \<ge> rb_disksize (w_rootblock w) + w_bitmapstart w then retM (allocated, False)
             else
               bindM (modifyM (\<lambda>w. w\<lparr>w_data_bm :=
                   (w_data_bm w)[bm_idx := (fst (w_data_bm w ! bm_idx),
                      longs[li := longs ! li AND NOT (bm_mask b)])]\<rparr>)) (\<lambda>_.
               if (of_nat (length (allocated @ [data_blk])) :: u32) = count
               then bindM (write_data_bitmap_block bm_idx) (\<lambda>_.
                    bindM (modifyM (upd_rootblock (\<lambda>rb. rb\<lparr>rb_blocksfree := rb_blocksfree rb - count\<rparr>))) (\<lambda>_.
                      retM (allocated @ [data_blk], True)))
               else retM (allocated @ [data_blk], False))))"

definition alloc_bm_block :: "u32 \<Rightarrow> u32 list \<Rightarrow> nat \<Rightarrow> (writer, u32 list \<times> bool) rm" where
  "alloc_bm_block count allocated bm_idx =
     bindM (getM (\<lambda>w. length (snd (w_data_bm w ! bm_idx)))) (\<lambda>n.
     bindM (untilM (\<lambda>allocated li.
       bindM (getM (\<lambda>w. snd (w_data_bm w ! bm_idx) ! li)) (\<lambda>word.
         if word = 0 then retM (allocated, False)
         else untilM (alloc_bit count bm_idx li) allocated [0..<32])) allocated [0..<n]) (\<lambda>(allocated, stop).
     if stop then retM (allocated, True)
     else if allocated \<noteq> [] then bindM (write_data_bitmap_block bm_idx) (\<lambda>_. retM (allocated, False))
     else retM (allocated, False)))"

definition alloc_data_blocks :: "u32 \<Rightarrow> (writer, u32 list) rm" where
  "alloc_data_blocks count =
     bindM (getM (\<lambda>w. length (w_data_bm w))) (\<lambda>n.
     bindM (untilM (alloc_bm_block count) [] [0..<n]) (\<lambda>(allocated, stop).
       if stop then retM allocated
       else failM (DiskFull (rs ''not enough free blocks (need '' @ show_nat (unat count) @ rs '')''))))"

definition free_data_block :: "u32 \<Rightarrow> (writer, unit) rm" where
  "free_data_block blk =
     bindM (getM (\<lambda>w. w)) (\<lambda>w.
       if blk < w_bitmapstart w then retM ()
       else
         let rel = blk - w_bitmapstart w; bpb = w_index_per_block w * 32 in
         bindM (liftO (divO rel bpb)) (\<lambda>bm_idx.
         bindM (liftO (modO rel bpb)) (\<lambda>remainder.
         let li = unat (remainder div 32); b = unat (remainder mod 32) in
         if unat bm_idx < length (w_data_bm w)
         then
           bindM (liftO (idx (snd (w_data_bm w ! unat bm_idx)) li)) (\<lambda>word.
           bindM (modifyM (\<lambda>w. w\<lparr>w_data_bm := (w_data_bm w)[unat bm_idx :=
              (fst (w_data_bm w ! unat bm_idx), (snd (w_data_bm w ! unat bm_idx))[li := word OR bm_mask b])]\<rparr>)) (\<lambda>_.
           bindM (write_data_bitmap_block (unat bm_idx)) (\<lambda>_.
             modifyM (upd_rootblock (\<lambda>rb. rb\<lparr>rb_blocksfree := rb_blocksfree rb + 1\<rparr>)))))
         else retM ())))"

text \<open>\<open>for i in 0..an.clustersize { f(an.blocknr + i)?; }\<close>\<close>

definition for_cluster :: "anode \<Rightarrow> (u32 \<Rightarrow> (writer, unit) rm) \<Rightarrow> (writer, unit) rm" where
  "for_cluster an f = forM [0..<unat (an_clustersize an)] (\<lambda>i. f (an_blocknr an + of_nat i))"

definition free_data_blocks :: "u32 \<Rightarrow> (writer, unit) rm" where
  "free_data_blocks anodenr =
     bindM (w_get_chain anodenr) (\<lambda>chain. forM chain (\<lambda>an. for_cluster an free_data_block))"

definition free_anode_chain_reserved :: "u32 \<Rightarrow> (writer, unit) rm" where
  "free_anode_chain_reserved anodenr =
     bindM (w_get_chain anodenr) (\<lambda>chain. forM chain (\<lambda>an. for_cluster an free_reserved_block))"

section \<open>Anodes\<close>

text \<open>The three fields of a slot, then the block's datestamp.\<close>

definition put_anode :: "nat \<Rightarrow> u32 \<Rightarrow> u32 \<Rightarrow> u32 \<Rightarrow> u32 \<Rightarrow> bytes \<Rightarrow> bytes outcome" where
  "put_anode base clustersize blocknr next datestamp =
     chainO
       [\<lambda>b. put_u32 b base clustersize, \<lambda>b. put_u32 b (base + 4) blocknr,
        \<lambda>b. put_u32 b (base + 8) next, \<lambda>b. put_u32 b 4 datestamp]"

definition write_anode_fields :: "u32 \<Rightarrow> u32 \<Rightarrow> u32 \<Rightarrow> u32 \<Rightarrow> (writer, unit) rm" where
  "write_anode_fields anodenr clustersize blocknr next =
     bindM (getM (\<lambda>w. w)) (\<lambda>w.
     bindM (liftO (split_anodenr (is_splitted_anodes (w_rootblock w)) (w_anodes_per_block w) anodenr))
       (\<lambda>(seqnr, offset).
     bindM (get_anode_block_nr seqnr) (\<lambda>blk_num.
     bindM (reserved_raw blk_num) (\<lambda>data.
     let base = ANODE_BLOCK_HEADER_SIZE + unat offset * ANODE_SIZE in
     bindM (liftO (put_anode base clustersize blocknr next (w_datestamp w) data)) (\<lambda>data.
       write_reserved blk_num data)))))"

definition clear_single_anode :: "u32 \<Rightarrow> (writer, unit) rm" where
  "clear_single_anode anodenr = write_anode_fields anodenr 0 0 0"

definition clear_anode_chain :: "u32 \<Rightarrow> (writer, unit) rm" where
  "clear_anode_chain anodenr =
     bindM (w_get_chain anodenr) (\<lambda>chain. forM chain (\<lambda>an. clear_single_anode (an_nr an)))"

text \<open>\<open>(seqnr << 16) | offset\<close> or \<open>seqnr * anodes_per_block + offset\<close>\<close>

definition join_anodenr :: "bool \<Rightarrow> u32 \<Rightarrow> u32 \<Rightarrow> u32 \<Rightarrow> u32" where
  "join_anodenr split_mode apb seqnr offset =
     (if split_mode then push_bit 16 seqnr OR offset else seqnr * apb + offset)"

definition index_put :: "u32 \<Rightarrow> u32 \<Rightarrow> u32 \<Rightarrow> (writer, unit) rm" where
  "index_put blk slot val =
     bindM (getM w_datestamp) (\<lambda>ds.
     bindM (reserved_raw blk) (\<lambda>data.
     bindM (liftO (bindO (put_u32 data (INDEX_BLOCK_HEADER_SIZE + unat slot * 4) val) (\<lambda>b. put_u32 b 4 ds)))
       (\<lambda>data. write_reserved blk data)))"

text \<open>Registering a new anode block in large mode: super block, index block, entry.\<close>

definition register_large :: "u32 \<Rightarrow> u32 \<Rightarrow> (writer, unit) rm" where
  "register_large seqnr new_blk =
     bindM (getM (\<lambda>w. w)) (\<lambda>w.
     let ipb = w_index_per_block w in
     bindM (liftO (divO seqnr (ipb * ipb))) (\<lambda>super_nr.
     bindM (liftO (modO seqnr (ipb * ipb))) (\<lambda>remainder.
     bindM (liftO (divO remainder ipb)) (\<lambda>idx_in_super.
     bindM (liftO (modO remainder ipb)) (\<lambda>off_in_idx.
     let super_blk = (case v_rootblock_ext (w_vol w) of
           Some e \<Rightarrow> get_or_0 (rx_superindex e) super_nr | None \<Rightarrow> 0) in
     if super_blk = 0 then failM (DiskFull (rs ''no superindex slot available''))
     else
       bindM (on_vol (on_cache (\<lambda>v. read_reserved (v_dev v) (unat super_blk) (ucast (w_resblocksize w))))) (\<lambda>sdata.
       bindM (liftO (be32 sdata (INDEX_BLOCK_HEADER_SIZE + unat idx_in_super * 4))) (\<lambda>idx_blk.
       if idx_blk = 0 then
         bindM alloc_reserved_block (\<lambda>new_idx.
         bindM next_datestamp (\<lambda>ds.
         bindM (liftO (chainO
           [\<lambda>b. put_u16 b 0 IBLKID, \<lambda>b. put_u32 b 4 ds, \<lambda>b. put_u32 b 8 idx_in_super,
            \<lambda>b. put_u32 b (INDEX_BLOCK_HEADER_SIZE + unat off_in_idx * 4) new_blk]
           (replicate (unat (w_resblocksize w)) 0))) (\<lambda>idata.
         bindM (write_reserved new_idx idata) (\<lambda>_.
           index_put super_blk idx_in_super new_idx))))
       else index_put idx_blk off_in_idx new_blk)))))))"

definition alloc_anode_block :: "u32 \<Rightarrow> (writer, u32) rm" where
  "alloc_anode_block seqnr =
     bindM alloc_reserved_block (\<lambda>new_blk.
     bindM next_datestamp (\<lambda>ds.
     bindM (getM (\<lambda>w. w)) (\<lambda>w.
     bindM (liftO (chainO
       [\<lambda>b. put_u16 b 0 ABLKID, \<lambda>b. put_u32 b 4 ds, \<lambda>b. put_u32 b 8 seqnr]
       (replicate (unat (w_resblocksize w)) 0))) (\<lambda>data.
     bindM (write_reserved new_blk data) (\<lambda>_.
     let ipb = w_index_per_block w in
     bindM (liftO (divO seqnr ipb)) (\<lambda>idx_nr.
     bindM (liftO (modO seqnr ipb)) (\<lambda>idx_off.
     bindM (if is_large (w_rootblock w) then register_large seqnr new_blk
            else
              let idx_blk = get_or_0 (rb_indexblocks (w_rootblock w)) idx_nr in
              if idx_blk = 0 then failM (DiskFull (rs ''no index block slot available''))
              else index_put idx_blk idx_off new_blk) (\<lambda>_.
     bindM (modifyM (upd_cache (invalidate (unat new_blk)))) (\<lambda>_.
       retM new_blk)))))))))"

text \<open>The first slot of an anode block that is free and not a system anode: its offset and number.\<close>

fun free_slot :: "bytes \<Rightarrow> bool \<Rightarrow> u32 \<Rightarrow> u32 \<Rightarrow> nat list \<Rightarrow> (nat \<times> u32) option outcome" where
  "free_slot data split_mode apb seqnr [] = Ok None"
| "free_slot data split_mode apb seqnr (offset # offsets) =
     (let anodenr = join_anodenr split_mode apb seqnr (of_nat offset) in
      if anodenr < ANODE_USERFIRST then free_slot data split_mode apb seqnr offsets
      else
        let base = ANODE_BLOCK_HEADER_SIZE + offset * ANODE_SIZE in
        bindO (be32 data base) (\<lambda>cs.
        bindO (be32 data (base + 4)) (\<lambda>bn.
        if cs = 0 \<and> bn = 0 then Ok (Some (offset, anodenr))
        else free_slot data split_mode apb seqnr offsets)))"

definition alloc_anode_in :: "u32 \<Rightarrow> u32 \<Rightarrow> u32 \<Rightarrow> u32 \<Rightarrow> (writer, u32 option) rm" where
  "alloc_anode_in clustersize blocknr next seqnr =
     bindM (get_anode_block_nr seqnr) (\<lambda>blk_num.
     if blk_num = 0 then
       bindM (alloc_anode_block seqnr) (\<lambda>new_blk.
       bindM (getM (\<lambda>w. w)) (\<lambda>w.
       bindM (reserved_raw new_blk) (\<lambda>data.
       let anodenr = join_anodenr (is_splitted_anodes (w_rootblock w)) (w_anodes_per_block w) seqnr ANODE_USERFIRST;
           base = ANODE_BLOCK_HEADER_SIZE + unat ANODE_USERFIRST * ANODE_SIZE in
       bindM (liftO (put_anode base clustersize blocknr next (w_datestamp w) data)) (\<lambda>data.
       bindM (write_reserved new_blk data) (\<lambda>_. retM (Some anodenr))))))
     else
       bindM (getM (\<lambda>w. w)) (\<lambda>w.
       bindM (reserved_raw blk_num) (\<lambda>data.
       bindM (liftO (be16 data 0)) (\<lambda>id.
       if id \<noteq> ABLKID then retM None
       else
         bindM (liftO (free_slot data (is_splitted_anodes (w_rootblock w)) (w_anodes_per_block w) seqnr
                         [0..<unat (w_anodes_per_block w)])) (\<lambda>r. case r of
           None \<Rightarrow> retM None
         | Some (offset, anodenr) \<Rightarrow>
             bindM (liftO (put_anode (ANODE_BLOCK_HEADER_SIZE + offset * ANODE_SIZE) clustersize blocknr next
                             (w_datestamp w) data)) (\<lambda>data.
             bindM (write_reserved blk_num data) (\<lambda>_. retM (Some anodenr))))))))"

definition alloc_anode :: "u32 \<Rightarrow> u32 \<Rightarrow> u32 \<Rightarrow> (writer, u32) rm" where
  "alloc_anode clustersize blocknr next =
     bindM (searchM (map of_nat [0..<256]) (alloc_anode_in clustersize blocknr next)) (\<lambda>r. case r of
       Some anodenr \<Rightarrow> retM anodenr
     | None \<Rightarrow> failM (DiskFull (rs ''no free anode slots'')))"

text \<open>The runs of consecutive block numbers, as \<open>(start, count)\<close>.\<close>

fun run_length :: "u32 \<Rightarrow> u32 list \<Rightarrow> nat" where
  "run_length expected [] = 0"
| "run_length expected (b # bs) = (if b = expected then Suc (run_length (expected + 1) bs) else 0)"

function clusters :: "u32 list \<Rightarrow> (u32 \<times> u32) list" where
  "clusters [] = []"
| "clusters (b # bs) =
     (b, of_nat (Suc (run_length (b + 1) bs))) # clusters (drop (run_length (b + 1) bs) bs)"
  by pat_completeness auto
termination by (relation "measure length") auto

definition create_anode_chain :: "u32 list \<Rightarrow> (writer, u32) rm" where
  "create_anode_chain blocks =
     foldM (\<lambda>next_nr (start, count). alloc_anode count start next_nr) 0 (rev (clusters blocks))"

definition append_to_anode_chain :: "u32 \<Rightarrow> u32 \<Rightarrow> (writer, unit) rm" where
  "append_to_anode_chain head new_head =
     bindM (w_get_chain head) (\<lambda>chain.
       if chain = [] then failM (AnodeNotFound head)
       else let tail = last chain in
         write_anode_fields (an_nr tail) (an_clustersize tail) (an_blocknr tail) new_head)"

definition extend_anode_chain :: "u32 \<Rightarrow> u32 \<Rightarrow> (writer, unit) rm" where
  "extend_anode_chain head_anode new_blk =
     bindM (alloc_anode 1 new_blk 0) (append_to_anode_chain head_anode)"

definition free_and_clear_anodes :: "anode list \<Rightarrow> (writer, unit) rm" where
  "free_and_clear_anodes anodes =
     forM anodes (\<lambda>an. bindM (for_cluster an free_data_block) (\<lambda>_. clear_single_anode (an_nr an)))"

fun truncate_loop :: "anode list \<Rightarrow> u32 \<Rightarrow> (writer, unit) rm" where
  "truncate_loop [] remaining = retM ()"
| "truncate_loop (an # rest) remaining =
     (if remaining = 0 then free_and_clear_anodes (an # rest)
      else if remaining < an_clustersize an then
        bindM (forM [unat remaining..<unat (an_clustersize an)]
                 (\<lambda>i. free_data_block (an_blocknr an + of_nat i))) (\<lambda>_.
        bindM (write_anode_fields (an_nr an) remaining (an_blocknr an) ANODE_EOF) (\<lambda>_.
          free_and_clear_anodes rest))
      else if remaining - an_clustersize an = 0 then
        bindM (write_anode_fields (an_nr an) (an_clustersize an) (an_blocknr an) ANODE_EOF) (\<lambda>_.
          free_and_clear_anodes rest)
      else truncate_loop rest (remaining - an_clustersize an))"

definition truncate_anode_chain :: "u32 \<Rightarrow> u32 \<Rightarrow> (writer, unit) rm" where
  "truncate_anode_chain head keep_blocks =
     bindM (w_get_chain head) (\<lambda>chain. truncate_loop chain keep_blocks)"

section \<open>Opening\<close>

definition Writer_open :: "volume \<Rightarrow> writer outcome" where
  "Writer_open vol =
     (let rb = v_rootblock vol;
          rbs = (ucast (rb_reserved_blksize rb) :: u32);
          firstreserved = rb_firstreserved rb in
      bindO (divO rbs (vol_block_size vol)) (\<lambda>rescluster.
      bindO (divO (rb_lastreserved rb - firstreserved + 1) rescluster) (\<lambda>numreserved.
      let w = \<lparr>w_vol = vol, w_resblocksize = rbs, w_rescluster = rescluster,
               w_index_per_block = index_per_block rb, w_anodes_per_block = anodes_per_block rb,
               w_firstreserved = firstreserved, w_numreserved = numreserved,
               w_bitmapstart = rb_lastreserved rb + 1, w_datestamp = rb_datestamp rb,
               w_res_bitmap = [], w_data_bm = [], w_pending = []\<rparr> in
      case bindM load_reserved_bitmap (\<lambda>_. load_data_bitmap) w of (r, w') \<Rightarrow>
        bindO r (\<lambda>_. Ok w'))))"

definition into_volume :: "writer \<Rightarrow> volume" where
  "into_volume w = w_vol w"

section \<open>Metadata operations leave the device alone\<close>

lemma keeps_on_cache [keeps]: "preserves (\<lambda>v. v_dev v = d) (on_cache m)"
  by (auto simp: preserves_def on_cache_def zoomM_def split: prod.splits)

lemma keeps_get_anode_chain [keeps]: "preserves (\<lambda>v. v_dev v = d) (get_anode_chain nr)"
  and keeps_list_dir_by_anode [keeps]: "preserves (\<lambda>v. v_dev v = d) (list_dir_by_anode a)"
  and keeps_vol_lookup [keeps]: "preserves (\<lambda>v. v_dev v = d) (vol_lookup p)"
  unfolding get_anode_chain_def list_dir_by_anode_def vol_lookup_def by (rule keeps_on_cache)+

lemma keeps_on_vol [keeps]:
  "preserves (\<lambda>v. v_dev v = d) m \<Longrightarrow> preserves (\<lambda>w. w_dev w = d) (on_vol m)"
  unfolding on_vol_def by (erule preserves_zoom) (simp_all add: w_dev_def)

lemma keeps_w_get_chain [keeps]: "preserves (\<lambda>w. w_dev w = d) (w_get_chain nr)"
  and keeps_get_anode_block_nr [keeps]: "preserves (\<lambda>w. w_dev w = d) (get_anode_block_nr n)"
  unfolding w_get_chain_def get_anode_block_nr_def by (intro keeps)+

lemma keeps_reserved_raw [keeps]: "preserves P (reserved_raw blk)"
  by (simp add: preserves_def reserved_raw_def)

lemma w_dev_updates [simp]:
  "w_dev (upd_rootblock f w) = w_dev w" "w_dev (upd_cache g w) = w_dev w"
  "w_dev (w\<lparr>w_pending := p\<rparr>) = w_dev w" "w_dev (w\<lparr>w_datestamp := n\<rparr>) = w_dev w"
  "w_dev (w\<lparr>w_res_bitmap := ws\<rparr>) = w_dev w" "w_dev (w\<lparr>w_data_bm := bm\<rparr>) = w_dev w"
  by (simp_all add: w_dev_def upd_rootblock_def upd_cache_def)

lemma keeps_modify:
  "(\<And>w. w_dev (f w) = w_dev w) \<Longrightarrow> preserves (\<lambda>w. w_dev w = d) (modifyM f)"
  by (simp add: preserves_def)

lemma keeps_state [keeps]:
  "preserves (\<lambda>w. w_dev w = d) next_datestamp"
  "preserves (\<lambda>w. w_dev w = d) (write_reserved blk data)"
  "preserves (\<lambda>w. w_dev w = d) alloc_reserved_block"
  "preserves (\<lambda>w. w_dev w = d) (free_reserved_block blk)"
  "preserves (\<lambda>w. w_dev w = d) (modifyM (upd_rootblock f))"
  "preserves (\<lambda>w. w_dev w = d) (modifyM (upd_cache g))"
  "preserves (\<lambda>w. w_dev w = d) (modifyM (\<lambda>w. w\<lparr>w_data_bm := h w\<rparr>))"
  by (auto simp: preserves_def next_datestamp_def write_reserved_def alloc_reserved_block_def
      free_reserved_block_def Let_def split: option.splits outcome.splits)

lemma keeps_until [keeps]:
  "(\<And>b x. preserves P (f b x)) \<Longrightarrow> preserves P (untilM f b xs)"
  by (induction xs arbitrary: b) (auto intro!: keeps)

lemma keeps_write_data_bitmap_block [keeps]:
  "preserves (\<lambda>w. w_dev w = d) (write_data_bitmap_block i)"
  unfolding write_data_bitmap_block_def by (intro keeps)

lemma keeps_alloc_bit [keeps]: "preserves (\<lambda>w. w_dev w = d) (alloc_bit count i li al b)"
  unfolding alloc_bit_def Let_def by (intro keeps)

lemma keeps_alloc_data_blocks [keeps]: "preserves (\<lambda>w. w_dev w = d) (alloc_data_blocks count)"
  unfolding alloc_data_blocks_def alloc_bm_block_def by (intro keeps)

lemma keeps_free_data_block [keeps]: "preserves (\<lambda>w. w_dev w = d) (free_data_block blk)"
  unfolding free_data_block_def Let_def by (intro keeps)

lemma keeps_for_cluster [keeps]: "(\<And>b. preserves P (f b)) \<Longrightarrow> preserves P (for_cluster an f)"
  unfolding for_cluster_def by (intro keeps)

lemma keeps_free_chains [keeps]:
  "preserves (\<lambda>w. w_dev w = d) (free_data_blocks nr)"
  "preserves (\<lambda>w. w_dev w = d) (free_anode_chain_reserved nr)"
  unfolding free_data_blocks_def free_anode_chain_reserved_def by (intro keeps)+

lemma keeps_write_anode_fields [keeps]:
  "preserves (\<lambda>w. w_dev w = d) (write_anode_fields nr cs bn nx)"
  unfolding write_anode_fields_def Let_def by (intro keeps)

lemma keeps_clear [keeps]:
  "preserves (\<lambda>w. w_dev w = d) (clear_single_anode nr)"
  "preserves (\<lambda>w. w_dev w = d) (clear_anode_chain nr)"
  unfolding clear_single_anode_def clear_anode_chain_def by (intro keeps)+

lemma keeps_index_put [keeps]: "preserves (\<lambda>w. w_dev w = d) (index_put blk slot val)"
  unfolding index_put_def by (intro keeps)

lemma keeps_register_large [keeps]: "preserves (\<lambda>w. w_dev w = d) (register_large seqnr blk)"
  unfolding register_large_def Let_def by (intro keeps)

lemma keeps_alloc_anode_block [keeps]: "preserves (\<lambda>w. w_dev w = d) (alloc_anode_block seqnr)"
  unfolding alloc_anode_block_def Let_def by (intro keeps)

lemma keeps_alloc_anode [keeps]: "preserves (\<lambda>w. w_dev w = d) (alloc_anode cs bn nx)"
  unfolding alloc_anode_def alloc_anode_in_def Let_def by (intro keeps)

lemma keeps_create_anode_chain [keeps]: "preserves (\<lambda>w. w_dev w = d) (create_anode_chain bs)"
  unfolding create_anode_chain_def by (intro keeps)

lemma keeps_append_to_anode_chain [keeps]:
  "preserves (\<lambda>w. w_dev w = d) (append_to_anode_chain h n)"
  "preserves (\<lambda>w. w_dev w = d) (extend_anode_chain h b)"
  unfolding extend_anode_chain_def append_to_anode_chain_def Let_def by (intro keeps)+

lemma keeps_free_and_clear [keeps]: "preserves (\<lambda>w. w_dev w = d) (free_and_clear_anodes as)"
  unfolding free_and_clear_anodes_def by (intro keeps)

lemma keeps_truncate [keeps]: "preserves (\<lambda>w. w_dev w = d) (truncate_anode_chain h k)"
proof -
  have "preserves (\<lambda>w. w_dev w = d) (truncate_loop ch k)" for ch k
    by (induction ch arbitrary: k) (auto intro!: keeps)
  then show ?thesis unfolding truncate_anode_chain_def by (intro keeps)
qed

section \<open>Pending writes are what a reader sees\<close>

text \<open>One pending write per block, each of the size of a reserved block.\<close>

definition pending_ok :: "writer \<Rightarrow> bool" where
  "pending_ok w \<longleftrightarrow> distinct (map fst (w_pending w))"

lemma find_append: "find P (xs @ ys) = (case find P xs of Some y \<Rightarrow> Some y | None \<Rightarrow> find P ys)"
  by (induction xs) auto

lemma find_rev_map_of:
  "distinct (map fst ps) \<Longrightarrow> find (\<lambda>(b, _). b = blk) (rev ps) = map_option (Pair blk) (map_of ps blk)"
proof (induction ps)
  case (Cons p ps)
  obtain b x where p: "p = (b, x)" by (cases p)
  have "b = blk \<Longrightarrow> map_of ps blk = None"
    using Cons.prems p by (auto simp: map_of_eq_None_iff)
  with Cons p show ?case by (auto simp: find_append split: option.splits)
qed simp

lemma read_reserved_raw_map:
  "pending_ok w \<Longrightarrow> read_reserved_raw blk w =
     (case map_of (w_pending w) blk of Some data \<Rightarrow> Ok data
      | None \<Rightarrow> read_blocks (w_dev w) (unat blk) (unat (w_rescluster w))
                 (replicate (unat (w_resblocksize w)) 0))"
  by (simp add: read_reserved_raw_def find_rev_map_of pending_ok_def split: option.splits)

lemma map_of_pending_put: "map_of (pending_put blk data ps) = (map_of ps)(blk \<mapsto> data)"
  by (induction blk data ps rule: pending_put.induct) auto

lemma fst_pending_put: "fst ` set (pending_put blk data ps) = insert blk (fst ` set ps)"
  by (induction blk data ps rule: pending_put.induct) auto

lemma distinct_pending_put: "distinct (map fst ps) \<Longrightarrow> distinct (map fst (pending_put blk data ps))"
proof (induction blk data ps rule: pending_put.induct)
  case (2 blk data b x ps)
  then show ?case using fst_pending_put [of blk data ps] by (auto simp: image_iff)
qed simp

lemma write_reserved_fields:
  "write_reserved blk data w = (Ok (), w') \<Longrightarrow>
   w_pending w' = pending_put blk data (w_pending w) \<and> w_dev w' = w_dev w \<and>
   w_rescluster w' = w_rescluster w \<and> w_resblocksize w' = w_resblocksize w"
  by (auto simp: write_reserved_def upd_cache_def w_dev_def)

text \<open>
  C13. The pending writes form an overlay of the device: after \<open>write_reserved\<close> the block reads back as
  written, every other block reads as before, whether it was pending or on the device, and
  there is still at most one pending write per block.
\<close>

theorem pending_overlay:
  assumes "pending_ok w" "write_reserved blk data w = (Ok (), w')"
  shows "read_reserved_raw blk w' = Ok data \<and>
    (\<forall>b. b \<noteq> blk \<longrightarrow> read_reserved_raw b w' = read_reserved_raw b w) \<and> pending_ok w'"
proof -
  note f = write_reserved_fields [OF assms(2)]
  have ok: "pending_ok w'"
    using assms(1) f by (simp add: pending_ok_def distinct_pending_put)
  show ?thesis
    using f ok assms(1) by (auto simp: read_reserved_raw_map map_of_pending_put split: option.splits)
qed

section \<open>Committing the pending writes\<close>

text \<open>Reserved blocks are \<open>rescluster\<close> sectors, and the ranges of different blocks do not overlap.\<close>

definition reserved_geometry :: "writer \<Rightarrow> bool" where
  "reserved_geometry w \<longleftrightarrow> 0 < unat (w_rescluster w) \<and>
     unat (w_resblocksize w) = unat (w_rescluster w) * unat (block_size (w_dev w))"

definition blocks_apart :: "writer \<Rightarrow> u32 \<Rightarrow> u32 \<Rightarrow> bool" where
  "blocks_apart w a b \<longleftrightarrow>
     unat a + unat (w_rescluster w) \<le> unat b \<or> unat b + unat (w_rescluster w) \<le> unat a"

lemma read_raw_exact:
  "reserved_geometry w \<Longrightarrow>
   read_blocks (w_dev w) (unat blk) (unat (w_rescluster w)) (replicate (unat (w_resblocksize w)) 0) =
     read_exact (w_dev w) (unat blk) (unat (w_rescluster w))"
  by (simp add: read_exact_def reserved_geometry_def)

definition flush_step :: "u32 \<times> bytes \<Rightarrow> (writer, unit) rm" where
  "flush_step p = (case p of (blk, data) \<Rightarrow>
     bindM (getM (\<lambda>w. (unat (w_rescluster w), unat (vol_block_size (w_vol w))))) (\<lambda>(rescluster, bs).
     bindM (on_dev (write_reserved_blocks write_block (unat blk) data rescluster bs)) (\<lambda>_.
       modifyM (upd_cache (invalidate (unat blk))))))"

lemma flush_step_Ok:
  assumes "flush_step (blk, data) w = (Ok (), w')"
  obtains d' where
    "write_reserved_blocks write_block (unat blk) data (unat (w_rescluster w)) (unat (block_size (w_dev w)))
       (w_dev w) = (Ok (), d')"
    "w_dev w' = d'" "w_pending w' = w_pending w" "w_rescluster w' = w_rescluster w"
    "w_resblocksize w' = w_resblocksize w"
  using assms
  by (auto simp: flush_step_def bindM_eq_Ok on_dev_def on_vol_def zoomM_def w_dev_def vol_block_size_def
      upd_cache_def split: prod.splits)

lemma write_reserved_blocks_bs:
  "block_size (snd (write_reserved_blocks write_block blk data n k d)) = block_size d"
proof -
  have "block_size (snd (write_block b x d)) = block_size d" for b x d
    by (auto simp: write_block_def write_blocks_def block_size_def Let_def split: option.splits nat.splits)
  then have "preserves (\<lambda>d'. block_size d' = block_size d) (write_reserved_blocks write_block blk data n k)"
    unfolding write_reserved_blocks_def by (intro keeps) (simp add: preserves_def)
  then show ?thesis by (simp add: preserves_def)
qed

lemma flush_steps:
  assumes "forM ps flush_step w = (Ok (), w')" "reserved_geometry w" "distinct (map fst ps)"
    and "\<forall>(b, x) \<in> set ps. length x = unat (w_resblocksize w)"
    and "\<forall>a \<in> fst ` set ps. \<forall>b \<in> fst ` set ps. a \<noteq> b \<longrightarrow> blocks_apart w a b"
  shows "w_pending w' = w_pending w \<and> reserved_geometry w' \<and> w_rescluster w' = w_rescluster w \<and>
    w_resblocksize w' = w_resblocksize w \<and>
    (\<forall>(b, x) \<in> set ps. read_exact (w_dev w') (unat b) (unat (w_rescluster w)) = Ok x) \<and>
    (\<forall>a x. (\<forall>b \<in> fst ` set ps. blocks_apart w a b) \<longrightarrow>
       read_exact (w_dev w) (unat a) (unat (w_rescluster w)) = Ok x \<longrightarrow>
       read_exact (w_dev w') (unat a) (unat (w_rescluster w)) = Ok x)"
  using assms
proof (induction ps arbitrary: w)
  case Nil
  then show ?case by simp
next
  case (Cons p ps)
  obtain blk data where p: "p = (blk, data)" by (cases p)
  from Cons.prems(1) p obtain w1 where w1: "flush_step (blk, data) w = (Ok (), w1)" "forM ps flush_step w1 = (Ok (), w')"
    by (auto simp: bindM_eq_Ok)
  obtain d1 where d1: "write_reserved_blocks write_block (unat blk) data (unat (w_rescluster w))
        (unat (block_size (w_dev w))) (w_dev w) = (Ok (), d1)"
      "w_dev w1 = d1" "w_pending w1 = w_pending w" "w_rescluster w1 = w_rescluster w"
      "w_resblocksize w1 = w_resblocksize w"
    by (rule flush_step_Ok [OF w1(1)])
  have g1: "reserved_geometry w1"
    using Cons.prems(2) d1 write_reserved_blocks_bs [of "unat blk" data "unat (w_rescluster w)"
        "unat (block_size (w_dev w))" "w_dev w"] by (simp add: reserved_geometry_def)
  have apart1: "blocks_apart w1 = blocks_apart w" by (intro ext) (simp add: blocks_apart_def d1)
  have len: "length data = unat (w_rescluster w) * unat (block_size (w_dev w))"
    using Cons.prems(2,4) p by (auto simp: reserved_geometry_def)
  have here: "read_exact (w_dev w1) (unat blk) (unat (w_rescluster w)) = Ok data"
    using write_reserved_blocks_rd [OF d1(1) refl] Cons.prems(2) len d1(2)
    by (simp add: reserved_geometry_def)
  have other: "read_exact (w_dev w) (unat a) (unat (w_rescluster w)) = Ok x \<Longrightarrow> blocks_apart w a blk \<Longrightarrow>
      read_exact (w_dev w1) (unat a) (unat (w_rescluster w)) = Ok x" for a x
    using write_reserved_blocks_other [OF d1(1)] d1(2) by (simp add: blocks_apart_def)
  have IH: "w_pending w' = w_pending w1 \<and> reserved_geometry w' \<and> w_rescluster w' = w_rescluster w1 \<and>
    w_resblocksize w' = w_resblocksize w1 \<and>
    (\<forall>(b, x) \<in> set ps. read_exact (w_dev w') (unat b) (unat (w_rescluster w1)) = Ok x) \<and>
    (\<forall>a x. (\<forall>b \<in> fst ` set ps. blocks_apart w1 a b) \<longrightarrow>
       read_exact (w_dev w1) (unat a) (unat (w_rescluster w1)) = Ok x \<longrightarrow>
       read_exact (w_dev w') (unat a) (unat (w_rescluster w1)) = Ok x)"
    using Cons.prems(3,4,5) by (intro Cons.IH [OF w1(2) g1]) (auto simp: d1 apart1)
  have "\<forall>b \<in> fst ` set ps. blocks_apart w blk b" using Cons.prems(3,5) p by force
  with IH here have "read_exact (w_dev w') (unat blk) (unat (w_rescluster w)) = Ok data"
    by (simp add: d1 apart1)
  with IH other show ?case by (auto simp: d1 apart1 p)
qed

lemma flush_pending_eq:
  "flush_pending w = bindM (forM (w_pending w) flush_step) (\<lambda>_. on_dev flush) (w\<lparr>w_pending := []\<rparr>)"
  by (simp add: flush_pending_def flush_step_def [abs_def])

lemma on_dev_flush: "on_dev flush w = (Ok (), w)"
  by (simp add: on_dev_def on_vol_def zoomM_def flush_def)


text \<open>
  C1. Committing makes the overlay durable.  When flushing the pending writes succeeds, on a device
  where different pending blocks do not overlap, nothing is pending any more and every
  reserved block that is pending or apart from the pending ones reads exactly as it did before
  the flush, now from the device.
\<close>

theorem flush_pending_commits:
  assumes "flush_pending w = (Ok (), w')" "pending_ok w" "reserved_geometry w"
    and "\<forall>(b, x) \<in> set (w_pending w). length x = unat (w_resblocksize w)"
    and "\<forall>a \<in> fst ` set (w_pending w). \<forall>b \<in> fst ` set (w_pending w). a \<noteq> b \<longrightarrow> blocks_apart w a b"
    and "blk \<in> fst ` set (w_pending w) \<or> (\<forall>b \<in> fst ` set (w_pending w). blocks_apart w blk b)"
    and "read_reserved_raw blk w = Ok x"
  shows "w_pending w' = [] \<and> read_reserved_raw blk w' = Ok x"
proof -
  let ?w0 = "w\<lparr>w_pending := []\<rparr>"
  have steps: "forM (w_pending w) flush_step ?w0 = (Ok (), w')"
    using assms(1) by (auto simp: flush_pending_eq bindM_eq_Ok on_dev_flush)
  have g0: "reserved_geometry ?w0" "blocks_apart ?w0 = blocks_apart w"
    using assms(3) by (simp_all add: reserved_geometry_def blocks_apart_def fun_eq_iff)
  have d: "distinct (map fst (w_pending w))" using assms(2) by (simp add: pending_ok_def)
  have l0: "\<forall>(b, x) \<in> set (w_pending w). length x = unat (w_resblocksize ?w0)"
    using assms(4) by simp
  note F = flush_steps [OF steps g0(1) d l0, unfolded g0(2), OF assms(5)]
  have p': "w_pending w' = []" "pending_ok w'" using F by (simp_all add: pending_ok_def)
  have "read_exact (w_dev w') (unat blk) (unat (w_rescluster w)) = Ok x"
  proof (cases "map_of (w_pending w) blk")
    case None
    then have "blk \<notin> fst ` set (w_pending w)" by (simp add: map_of_eq_None_iff)
    then have apart: "\<forall>b \<in> fst ` set (w_pending w). blocks_apart w blk b" using assms(6) by blast
    have "read_exact (w_dev w) (unat blk) (unat (w_rescluster w)) = Ok x"
      using assms(7) None read_raw_exact [OF assms(3), of blk] by (simp add: read_reserved_raw_map assms(2))
    with F apart show ?thesis by simp
  next
    case (Some y)
    then have "x = y" using assms(7) by (simp add: read_reserved_raw_map assms(2))
    with Some F show ?thesis by (auto dest: map_of_SomeD)
  qed
  then show ?thesis
    using F p' read_raw_exact [of w' blk] by (simp add: read_reserved_raw_map)
qed

definition sample_writer :: writer where
  "sample_writer = \<lparr>w_vol = sample_volume, w_resblocksize = 128, w_rescluster = 1, w_index_per_block = 29,
     w_anodes_per_block = 9, w_firstreserved = 0, w_numreserved = 4, w_bitmapstart = 4, w_datestamp = 1,
     w_res_bitmap = [0x30000000], w_data_bm = [], w_pending = []\<rparr>"

lemma sample_writer_ok: "pending_ok sample_writer" "reserved_geometry sample_writer"
  by (simp_all add: sample_writer_def pending_ok_def reserved_geometry_def w_dev_def
      sample_volume_reader sample_dir_device_def create_def block_size_def)

theorem pending_overlay_witness:
  "pending_ok sample_writer \<and>
   (\<exists>w'. write_reserved 3 [1, 2] sample_writer = (Ok (), w') \<and> read_reserved_raw 3 w' = Ok [1, 2] \<and>
      read_reserved_raw 2 w' = Ok (sample_dir_blocks 2))"
proof -
  obtain w' where w': "write_reserved 3 [1, 2] sample_writer = (Ok (), w')"
    by (simp add: write_reserved_def)
  have "read_reserved_raw 2 sample_writer = Ok (sample_dir_blocks 2)"
    using sample_dir_read [of 2]
    by (simp add: read_reserved_raw_def sample_writer_def w_dev_def sample_volume_reader dev_reserved_def
        divO_def block_size_def sample_dir_device_def create_def)
  with pending_overlay [OF sample_writer_ok(1) w'] w' sample_writer_ok(1) show ?thesis by auto
qed

lemma sample_flush:
  assumes "length x = 128"
  obtains w1 w' where "write_reserved 3 x sample_writer = (Ok (), w1)" "flush_pending w1 = (Ok (), w')"
    "w_pending w1 = [(3, x)]" "pending_ok w1" "reserved_geometry w1" "w_resblocksize w1 = 128"
    "read_reserved_raw 3 w1 = Ok x"
proof -
  let ?w1 = "snd (write_reserved 3 x sample_writer)"
  have w1: "write_reserved 3 x sample_writer = (Ok (), ?w1)" by (simp add: write_reserved_def)
  note f = write_reserved_fields [OF w1]
  have "fst (flush_pending ?w1) = Ok ()"
    by (simp add: write_reserved_def flush_pending_eq sample_writer_def upd_cache_def flush_step_def
        bindM_def on_dev_def on_vol_def zoomM_def write_reserved_blocks_def write_block_def write_blocks_def
        sample_volume_reader vol_block_size_def block_size_def sample_dir_device_def create_def Let_def flush_def)
  then obtain w' where "flush_pending ?w1 = (Ok (), w')" by (metis prod.collapse)
  moreover have "w_pending ?w1 = [(3, x)]" "w_resblocksize ?w1 = 128" using f by (simp_all add: sample_writer_def)
  moreover have "reserved_geometry ?w1" using f sample_writer_ok(2) by (simp add: reserved_geometry_def)
  moreover have "read_reserved_raw 3 ?w1 = Ok x" using calculation(2) by (simp add: read_reserved_raw_def)
  ultimately show thesis using that [OF w1] by (simp add: pending_ok_def)
qed

theorem flush_pending_commits_witness:
  "\<exists>w1 w'. flush_pending w1 = (Ok (), w') \<and> w_pending w1 \<noteq> [] \<and> w_pending w' = [] \<and>
     read_reserved_raw 3 w' = Ok (replicate 128 7)"
proof -
  have "length (replicate 128 (7 :: u8)) = 128" by simp
  then obtain w1 w' where w: "write_reserved 3 (replicate 128 7) sample_writer = (Ok (), w1)"
      "flush_pending w1 = (Ok (), w')"
      "w_pending w1 = [(3, replicate 128 7)]" "pending_ok w1" "reserved_geometry w1" "w_resblocksize w1 = 128"
      "read_reserved_raw 3 w1 = Ok (replicate 128 7)"
    by (rule sample_flush)
  have "w_pending w' = [] \<and> read_reserved_raw 3 w' = Ok (replicate 128 7)"
    by (rule flush_pending_commits [OF w(2,4,5)]) (use w in auto)
  moreover have "w_pending w1 \<noteq> []" using w(3) by simp
  ultimately show ?thesis using w(2) by blast
qed

section \<open>The reserved bitmap keeps the contract of an allocator\<close>

definition reserved_set :: "writer \<Rightarrow> nat set" where
  "reserved_set w = {n. bm_get (w_res_bitmap w) n}"

lemma first_free_Some:
  assumes "first_free ws = Some (li, b)"
  shows "li < length ws" "b < 32" "bm_get ws (li * 32 + b)"
proof -
  obtain i where "i < length (List.product [0..<length ws] [0..<32])"
      "(li, b) = List.product [0..<length ws] [0..<32] ! i"
    using assms unfolding first_free_def find_Some_iff by blast
  then have "(li, b) \<in> set (List.product [0..<length ws] [0..<32])" by (metis nth_mem)
  moreover have t: "ws ! li AND bm_mask b \<noteq> 0"
    using assms by (auto simp: first_free_def find_Some_iff)
  ultimately show li: "li < length ws" and b: "b < 32" by simp_all
  then show "bm_get ws (li * 32 + b)" using t bm_mask_test [of b "ws ! li"] by (simp add: bm_get_def)
qed

lemma first_free_None: "first_free ws = None \<Longrightarrow> \<not> bm_get ws n"
  using bm_mask_test [of "n mod 32" "ws ! (n div 32)"]
  by (auto simp: first_free_def find_None_iff bm_get_def)

lemma alloc_reserved_block_Ok:
  assumes "alloc_reserved_block w = (Ok blk, w')"
  obtains n where "n \<in> reserved_set w" "blk = w_firstreserved w + of_nat n * w_rescluster w"
    "w' = upd_rootblock (\<lambda>rb. rb\<lparr>rb_reserved_free := rb_reserved_free rb - 1\<rparr>)
       (w\<lparr>w_res_bitmap := (w_res_bitmap w)[n div 32 := w_res_bitmap w ! (n div 32) AND NOT (bm_mask (n mod 32))]\<rparr>)"
proof -
  from assms obtain li b where f: "first_free (w_res_bitmap w) = Some (li, b)"
    and r: "blk = w_firstreserved w + (of_nat li * 32 + of_nat b) * w_rescluster w"
      "w' = upd_rootblock (\<lambda>rb. rb\<lparr>rb_reserved_free := rb_reserved_free rb - 1\<rparr>)
        (w\<lparr>w_res_bitmap := (w_res_bitmap w)[li := w_res_bitmap w ! li AND NOT (bm_mask b)]\<rparr>)"
    by (auto simp: alloc_reserved_block_def Let_def split: option.splits)
  note ff = first_free_Some [OF f]
  have d: "(li * 32 + b) div 32 = li" "(li * 32 + b) mod 32 = b" using ff(2) by simp_all
  show thesis
    by (rule that [of "li * 32 + b"]) (use r ff(3) d in \<open>simp_all add: reserved_set_def\<close>)
qed

lemma reserved_set_alloc:
  "n \<in> reserved_set w \<Longrightarrow>
   reserved_set (upd_rootblock f (w\<lparr>w_res_bitmap :=
     (w_res_bitmap w)[n div 32 := w_res_bitmap w ! (n div 32) AND NOT (bm_mask (n mod 32))]\<rparr>)) =
   reserved_set w - {n}"
  using bm_get_clear [of n "w_res_bitmap w"]
  by (auto simp: reserved_set_def upd_rootblock_def bm_get_def)

interpretation res: block_allocator
  "\<lambda>w. w_firstreserved w = first \<and> w_rescluster w = rescluster" reserved_set
  "\<lambda>n. first + of_nat n * rescluster" alloc_reserved_block for first rescluster
proof
  fix w :: writer
  have "reserved_set w \<subseteq> {..<32 * length (w_res_bitmap w)}"
    using bm_get_bound by (auto simp: reserved_set_def)
  then show "finite (reserved_set w)" using finite_subset by blast
next
  fix w b w'
  assume inv: "w_firstreserved w = first \<and> w_rescluster w = rescluster" and a: "alloc_reserved_block w = (Ok b, w')"
  obtain n where n: "n \<in> reserved_set w" "b = w_firstreserved w + of_nat n * w_rescluster w"
    "w' = upd_rootblock (\<lambda>rb. rb\<lparr>rb_reserved_free := rb_reserved_free rb - 1\<rparr>)
       (w\<lparr>w_res_bitmap := (w_res_bitmap w)[n div 32 := w_res_bitmap w ! (n div 32) AND NOT (bm_mask (n mod 32))]\<rparr>)"
    by (rule alloc_reserved_block_Ok [OF a])
  have "w_firstreserved w' = first \<and> w_rescluster w' = rescluster"
    using n(3) inv by (simp add: upd_rootblock_def)
  moreover have "reserved_set w' = reserved_set w - {n}"
    unfolding n(3) by (rule reserved_set_alloc [OF n(1)])
  moreover have "b = first + of_nat n * rescluster" using n(2) inv by simp
  ultimately show "(w_firstreserved w' = first \<and> w_rescluster w' = rescluster) \<and>
      (\<exists>i \<in> reserved_set w. b = first + of_nat i * rescluster \<and> reserved_set w' = reserved_set w - {i})"
    using bexI [of _ n, OF _ n(1)] by simp
next
  fix w e w'
  assume "alloc_reserved_block w = (Err e, w')"
  then show "reserved_set w = {} \<and> w' = w"
    using first_free_None [of "w_res_bitmap w"]
    by (auto simp: alloc_reserved_block_def Let_def reserved_set_def split: option.splits)
next
  fix w
  show "fst (alloc_reserved_block w) \<noteq> Panic"
    by (auto simp: alloc_reserved_block_def Let_def split: option.splits)
qed

lemma len32: "LENGTH(32) = 32"
  by simp

lemma res_index:
  assumes "rescluster \<noteq> 0" "n * unat rescluster < 2 ^ 32"
  shows "divO (first + of_nat n * rescluster - first) rescluster = Ok (of_nat n)" "unat (of_nat n :: u32) = n"
proof -
  have r: "1 \<le> unat rescluster" using assms(1) by (simp add: Suc_le_eq unat_gt_0)
  then have "n * 1 \<le> n * unat rescluster" by (rule mult_le_mono2)
  then have "n < 2 ^ LENGTH(32)" using assms(2) by (subst len32) linarith
  then show n: "unat (of_nat n :: u32) = n" by (rule unat_of_nat_lt)
  have "unat (of_nat n * rescluster) = n * unat rescluster"
    using assms(2) n by (subst unat_mult_lt) simp_all
  then have "unat ((of_nat n * rescluster) div rescluster) = n"
    using r by (simp add: unat_div)
  then have "(of_nat n * rescluster) div rescluster = of_nat n"
    using n by (metis word_unat_eq_iff)
  then show "divO (first + of_nat n * rescluster - first) rescluster = Ok (of_nat n)"
    using assms(1) by (simp add: divO_def)
qed

text \<open>
  C15. Freeing a reserved block undoes its allocation: the bitmap and the free counter are what they
  were, provided the bitmap's blocks have 32-bit numbers.
\<close>

theorem reserved_alloc_free:
  assumes "alloc_reserved_block w = (Ok blk, w')" "w_rescluster w \<noteq> 0"
    and "32 * length (w_res_bitmap w) * unat (w_rescluster w) < 2 ^ 32"
  shows "free_reserved_block blk w' = (Ok (), w)"
proof -
  obtain n where n: "n \<in> reserved_set w" "blk = w_firstreserved w + of_nat n * w_rescluster w"
    "w' = upd_rootblock (\<lambda>rb. rb\<lparr>rb_reserved_free := rb_reserved_free rb - 1\<rparr>)
       (w\<lparr>w_res_bitmap := (w_res_bitmap w)[n div 32 := w_res_bitmap w ! (n div 32) AND NOT (bm_mask (n mod 32))]\<rparr>)"
    by (rule alloc_reserved_block_Ok [OF assms(1)])
  have b: "n div 32 < length (w_res_bitmap w)" "bit (w_res_bitmap w ! (n div 32)) (31 - n mod 32)"
    using n(1) by (simp_all add: reserved_set_def bm_get_def)
  have "n < 32 * length (w_res_bitmap w)" using b(1) by linarith
  then have "n * unat (w_rescluster w) \<le> 32 * length (w_res_bitmap w) * unat (w_rescluster w)" by simp
  then have "n * unat (w_rescluster w) < 2 ^ 32" using assms(3) by linarith
  note ix = res_index(1) [OF assms(2) this, where first = "w_firstreserved w"] res_index(2) [OF assms(2) this]
  have li: "unat ((of_nat n :: u32) div 32) = n div 32" "unat ((of_nat n :: u32) mod 32) = n mod 32"
    using ix(2) by (simp_all add: unat_div unat_mod)
  have word: "(u AND NOT (bm_mask (n mod 32))) OR bm_mask (n mod 32) = u"
    if "bit u (31 - n mod 32)" for u :: u32
    using that by (intro bit_word_eqI) (auto simp: bit_or_iff bit_clear_mask bit_bm_mask)
  show ?thesis
    using ix(1) li b word [OF b(2)]
    by (simp add: n(2,3) free_reserved_block_def upd_rootblock_def Let_def list_update_same_conv)
qed

theorem reserved_alloc_free_witness:
  "\<exists>w'. alloc_reserved_block sample_writer = (Ok 2, w') \<and> w_res_bitmap w' = [0x10000000] \<and>
     free_reserved_block 2 w' = (Ok (), sample_writer)"
proof -
  have "first_free [0x30000000] = Some (0, 2)"
    by (simp add: first_free_def bm_mask_def upt_conv_Cons)
  then have "alloc_reserved_block sample_writer =
      (Ok 2, upd_rootblock (\<lambda>rb. rb\<lparr>rb_reserved_free := rb_reserved_free rb - 1\<rparr>)
        (sample_writer\<lparr>w_res_bitmap := [0x10000000]\<rparr>))"
    by (simp add: alloc_reserved_block_def sample_writer_def bm_mask_def)
  with reserved_alloc_free [OF this] show ?thesis
    by (simp add: sample_writer_def upd_rootblock_def)
qed

end
