(* ===== verification/Writer_Bitmap.thy ===== *)
theory Writer_Bitmap
  imports Writer_State
begin

text \<open>
  The data bitmap of the writer (\<^verbatim>\<open>writer.rs\<close>, \<open>alloc_data_blocks\<close> and \<open>free_data_block\<close>) and the
  grouping of blocks into extents, proved correct: the bitmap in memory as one bit vector over
  the blocks of the partition, what a successful allocation takes from it, and that freeing a
  block gives back exactly that block.
\<close>

section \<open>The data bitmap as a set of free blocks\<close>

text \<open>The number of bits in a bitmap block, and the free blocks, counted from \<open>bitmapstart\<close>.\<close>

definition bm_bits :: "writer \<Rightarrow> nat" where
  "bm_bits w = unat (w_index_per_block w) * 32"

definition data_free :: "writer \<Rightarrow> nat set" where
  "data_free w = {n. n div bm_bits w < length (w_data_bm w) \<and>
     bm_get (snd (w_data_bm w ! (n div bm_bits w))) (n mod bm_bits w)}"

definition data_bm_ok :: "writer \<Rightarrow> bool" where
  "data_bm_ok w \<longleftrightarrow> 0 < unat (w_index_per_block w) \<and>
     list_all (\<lambda>(_, longs). length longs = unat (w_index_per_block w)) (w_data_bm w)"

text \<open>What the bitmap operations leave alone.\<close>

definition bm_frame :: "writer \<Rightarrow> writer \<Rightarrow> bool" where
  "bm_frame w w' \<longleftrightarrow> w_index_per_block w' = w_index_per_block w \<and> w_bitmapstart w' = w_bitmapstart w \<and>
     length (w_data_bm w') = length (w_data_bm w) \<and> w_dev w' = w_dev w \<and>
     w_res_bitmap w' = w_res_bitmap w \<and> (data_bm_ok w \<longrightarrow> data_bm_ok w')"

lemma bm_frame_refl [simp]: "bm_frame w w"
  by (simp add: bm_frame_def)

lemma bm_frame_trans: "bm_frame a b \<Longrightarrow> bm_frame b c \<Longrightarrow> bm_frame a c"
  by (simp add: bm_frame_def)

lemma bm_pos:
  assumes "data_bm_ok w" "li < unat (w_index_per_block w)" "b < 32"
  shows "(i * bm_bits w + (li * 32 + b)) div bm_bits w = i"
    and "(i * bm_bits w + (li * 32 + b)) mod bm_bits w = li * 32 + b"
proof -
  have "li * 32 + b < bm_bits w" using assms by (simp add: bm_bits_def)
  then show "(i * bm_bits w + (li * 32 + b)) div bm_bits w = i"
    and "(i * bm_bits w + (li * 32 + b)) mod bm_bits w = li * 32 + b" by simp_all
qed

lemma longs_length:
  "data_bm_ok w \<Longrightarrow> i < length (w_data_bm w) \<Longrightarrow>
   length (snd (w_data_bm w ! i)) = unat (w_index_per_block w)"
  by (auto simp: data_bm_ok_def list_all_length case_prod_beta)

lemma data_bm_ok_update:
  "data_bm_ok w \<Longrightarrow> i < length (w_data_bm w) \<Longrightarrow> length ls = unat (w_index_per_block w) \<Longrightarrow>
   data_bm_ok (w\<lparr>w_data_bm := (w_data_bm w)[i := (blk, ls)]\<rparr>)"
  by (simp add: data_bm_ok_def list_all_length nth_list_update)

text \<open>Clearing and setting one bit of the bitmap.\<close>

lemma data_free_change:
  assumes "data_bm_ok w" "i < length (w_data_bm w)" "li < unat (w_index_per_block w)" "b < 32"
    and "\<And>m. bm_get ls m \<longleftrightarrow> P (bm_get (snd (w_data_bm w ! i)) m) (m = li * 32 + b)"
    and "\<And>q. P q False = q"
  shows "data_free (w\<lparr>w_data_bm := (w_data_bm w)[i := (blk, ls)]\<rparr>) =
    {n. P (n \<in> data_free w) (n = i * bm_bits w + (li * 32 + b))}"
proof -
  let ?w = "w\<lparr>w_data_bm := (w_data_bm w)[i := (blk, ls)]\<rparr>"
  have bits: "bm_bits ?w = bm_bits w" by (simp add: bm_bits_def)
  have "n \<in> data_free ?w \<longleftrightarrow> P (n \<in> data_free w) (n = i * bm_bits w + (li * 32 + b))" for n
  proof (cases "n div bm_bits w = i")
    case True
    then have "n = i * bm_bits w + (li * 32 + b) \<longleftrightarrow> n mod bm_bits w = li * 32 + b"
      using bm_pos [OF assms(1,3,4)] div_mult_mod_eq [of n "bm_bits w"] by metis
    with True assms(2,5) show ?thesis by (simp add: data_free_def bits)
  next
    case False
    then have "n \<noteq> i * bm_bits w + (li * 32 + b)" using bm_pos(1) [OF assms(1,3,4)] by metis
    with False assms(6) show ?thesis by (simp add: data_free_def bits)
  qed
  then show ?thesis by blast
qed

lemma data_free_clear:
  assumes "data_bm_ok w" "i < length (w_data_bm w)" "li < unat (w_index_per_block w)" "b < 32"
  shows "data_free (w\<lparr>w_data_bm := (w_data_bm w)[i := (blk, (snd (w_data_bm w ! i))
      [li := snd (w_data_bm w ! i) ! li AND NOT (bm_mask b)])]\<rparr>) =
    data_free w - {i * bm_bits w + (li * 32 + b)}"
proof -
  have "(li * 32 + b) div 32 = li" "(li * 32 + b) mod 32 = b" using assms(4) by simp_all
  then have "bm_get ((snd (w_data_bm w ! i))[li := snd (w_data_bm w ! i) ! li AND NOT (bm_mask b)]) m \<longleftrightarrow>
      bm_get (snd (w_data_bm w ! i)) m \<and> \<not> m = li * 32 + b" for m
    using bm_get_clear [of "li * 32 + b" "snd (w_data_bm w ! i)" m] longs_length [OF assms(1,2)] assms(3) by simp
  from data_free_change [OF assms, where P = "\<lambda>p q. p \<and> \<not> q", OF this] show ?thesis by auto
qed

lemma data_free_set:
  assumes "data_bm_ok w" "i < length (w_data_bm w)" "li < unat (w_index_per_block w)" "b < 32"
  shows "data_free (w\<lparr>w_data_bm := (w_data_bm w)[i := (blk, (snd (w_data_bm w ! i))
      [li := snd (w_data_bm w ! i) ! li OR bm_mask b])]\<rparr>) =
    insert (i * bm_bits w + (li * 32 + b)) (data_free w)"
proof -
  have "(li * 32 + b) div 32 = li" "(li * 32 + b) mod 32 = b" using assms(4) by simp_all
  then have "bm_get ((snd (w_data_bm w ! i))[li := snd (w_data_bm w ! i) ! li OR bm_mask b]) m \<longleftrightarrow>
      bm_get (snd (w_data_bm w ! i)) m \<or> m = li * 32 + b" for m
    using bm_get_set [of "li * 32 + b" "snd (w_data_bm w ! i)" m] longs_length [OF assms(1,2)] assms(3) by simp
  from data_free_change [OF assms, where P = "\<lambda>p q. p \<or> q", OF this] show ?thesis by auto
qed

lemma write_data_bitmap_block_Ok:
  assumes "write_data_bitmap_block i w = (Ok (), w')"
  shows "bm_frame w w' \<and> data_free w' = data_free w \<and> w_rootblock w' = w_rootblock w \<and> w_data_bm w' = w_data_bm w"
  using assms
  by (auto simp: write_data_bitmap_block_def bindM_eq_Ok reserved_raw_def write_reserved_def upd_cache_def
      bm_frame_def data_free_def bm_bits_def data_bm_ok_def w_dev_def w_rootblock_def)

section \<open>Allocation\<close>

lemma untilM_rule:
  assumes "\<And>b x s b' stop s'. x \<in> set xs \<Longrightarrow> I b s \<Longrightarrow> f b x s = (Ok (b', stop), s') \<Longrightarrow>
      if stop then Q b' s' else I b' s'"
    and "untilM f b xs s = (Ok (b', stop), s')" "I b s"
  shows "if stop then Q b' s' else I b' s'"
  using assms
proof (induction xs arbitrary: b s)
  case Nil
  then show ?case by auto
next
  case (Cons x xs)
  from Cons.prems(2) obtain c st t where c: "f b x s = (Ok (c, st), t)"
    "(if st then retM (c, True) else untilM f c xs) t = (Ok (b', stop), s')"
    by (auto simp: bindM_eq_Ok)
  have step: "if st then Q c t else I c t" using Cons.prems(1) [OF _ Cons.prems(3) c(1)] by simp
  show ?case
  proof (cases st)
    case True
    with c step show ?thesis by auto
  next
    case False
    with c step have c: "untilM f c xs t = (Ok (b', stop), s')" "I c t" by simp_all
    show ?thesis by (rule Cons.IH [OF _ c]) (rule Cons.prems(1), simp_all)
  qed
qed

text \<open>
  The state of an allocation under way: \<open>ns\<close> are the positions taken so far, in order, and the
  block numbers handed out are those positions counted from \<open>bitmapstart\<close>, without overflow.
\<close>

definition alloc_state :: "writer \<Rightarrow> u32 list \<Rightarrow> writer \<Rightarrow> bool" where
  "alloc_state w0 allocated w \<longleftrightarrow> bm_frame w0 w \<and> w_rootblock w = w_rootblock w0 \<and>
     (\<exists>ns. distinct ns \<and> map unat allocated = map (\<lambda>n. unat (w_bitmapstart w0) + n) ns \<and>
        set ns \<subseteq> data_free w0 \<and> data_free w = data_free w0 - set ns \<and>
        (\<forall>a \<in> set allocated. a < rb_disksize (w_rootblock w0) + w_bitmapstart w0))"

definition alloc_done :: "writer \<Rightarrow> u32 \<Rightarrow> u32 list \<Rightarrow> writer \<Rightarrow> bool" where
  "alloc_done w0 count allocated w \<longleftrightarrow>
     (\<exists>w1. alloc_state w0 allocated w1 \<and> bm_frame w1 w \<and> data_free w = data_free w1 \<and>
        of_nat (length allocated) = count \<and>
        w_rootblock w = (w_rootblock w0)\<lparr>rb_blocksfree := rb_blocksfree (w_rootblock w0) - count\<rparr>)"

lemma data_blk_nr_Some:
  "data_blk_nr w i li b = Some blk \<Longrightarrow> unat blk = unat (w_bitmapstart w) + (i * bm_bits w + (li * 32 + b))"
proof -
  let ?n = "i * unat (w_index_per_block w) * 32 + (li * 32 + b) + unat (w_bitmapstart w)"
  assume "data_blk_nr w i li b = Some blk"
  then have "?n < 2 ^ LENGTH(32)" "blk = of_nat ?n"
    by (simp_all only: data_blk_nr_def Let_def len32 option.inject option.simps split: if_splits)
  then have "unat blk = ?n" by (simp only: unat_of_nat_lt)
  then show ?thesis by (simp add: bm_bits_def)
qed

lemma alloc_state_extend:
  assumes "alloc_state w0 allocated w" "data_bm_ok w0" "i < length (w_data_bm w0)"
    and "li < unat (w_index_per_block w0)" "b < 32"
    and "snd (w_data_bm w ! i) ! li AND bm_mask b \<noteq> 0" "data_blk_nr w i li b = Some blk"
    and "blk < rb_disksize (w_rootblock w) + w_bitmapstart w"
  shows "alloc_state w0 (allocated @ [blk]) (w\<lparr>w_data_bm := (w_data_bm w)[i := (fst (w_data_bm w ! i),
      (snd (w_data_bm w ! i))[li := snd (w_data_bm w ! i) ! li AND NOT (bm_mask b)])]\<rparr>)"
    (is "alloc_state w0 _ ?w")
proof -
  let ?n = "i * bm_bits w + (li * 32 + b)"
  from assms(1) obtain ns where ns: "bm_frame w0 w" "w_rootblock w = w_rootblock w0" "distinct ns"
      "map unat allocated = map (\<lambda>n. unat (w_bitmapstart w0) + n) ns" "set ns \<subseteq> data_free w0"
      "data_free w = data_free w0 - set ns"
      "\<forall>a \<in> set allocated. a < rb_disksize (w_rootblock w0) + w_bitmapstart w0"
    unfolding alloc_state_def by blast
  have w: "data_bm_ok w" "i < length (w_data_bm w)" "li < unat (w_index_per_block w)"
      "w_bitmapstart w = w_bitmapstart w0"
    using ns(1) assms(2-4) by (auto simp: bm_frame_def)
  have free: "data_free ?w = data_free w - {?n}" by (rule data_free_clear [OF w(1-3) assms(5)])
  have "bm_get (snd (w_data_bm w ! i)) (li * 32 + b)"
    using assms(5,6) bm_mask_test [OF assms(5)] longs_length [OF w(1,2)] w(3) by (simp add: bm_get_def)
  then have "?n \<in> data_free w" using bm_pos [OF w(1,3) assms(5)] w(2) by (simp add: data_free_def)
  moreover have "unat blk = unat (w_bitmapstart w0) + ?n" using data_blk_nr_Some [OF assms(7)] w(4) by simp
  moreover have "bm_frame w0 ?w"
    using ns(1) data_bm_ok_update [OF w(1,2)] longs_length [OF w(1,2)] by (simp add: bm_frame_def)
  moreover have "w_rootblock ?w = w_rootblock w0" using ns(2) by (simp add: w_rootblock_def)
  ultimately show ?thesis
    using ns free assms(8) w(4) unfolding alloc_state_def by (intro conjI exI [of _ "ns @ [?n]"]) auto
qed

lemma alloc_bit_step:
  assumes "alloc_state w0 allocated w" "data_bm_ok w0" "i < length (w_data_bm w0)"
    and "li < unat (w_index_per_block w0)" "b < 32"
    and "alloc_bit count i li allocated b w = (Ok (al', stop), w')"
  shows "if stop then alloc_done w0 count al' w' else alloc_state w0 al' w'"
proof -
  let ?word = "snd (w_data_bm w ! i) ! li"
  let ?w1 = "w\<lparr>w_data_bm := (w_data_bm w)[i := (fst (w_data_bm w ! i),
      (snd (w_data_bm w ! i))[li := ?word AND NOT (bm_mask b)])]\<rparr>"
  show ?thesis
  proof (cases "?word AND bm_mask b \<noteq> 0 \<and> (\<exists>blk. data_blk_nr w i li b = Some blk \<and>
      blk < rb_disksize (w_rootblock w) + w_bitmapstart w)")
    case False
    with assms(6) have "al' = allocated \<and> \<not> stop \<and> w' = w"
      by (simp add: alloc_bit_def Let_def not_less split: if_splits option.splits)
    with assms(1) show ?thesis by simp
  next
    case True
    then obtain blk where take: "?word AND bm_mask b \<noteq> 0" "data_blk_nr w i li b = Some blk"
        "blk < rb_disksize (w_rootblock w) + w_bitmapstart w" by blast
    then have run: "alloc_bit count i li allocated b w =
       (if (of_nat (length (allocated @ [blk])) :: u32) = count
        then bindM (write_data_bitmap_block i) (\<lambda>_.
          bindM (modifyM (upd_rootblock (\<lambda>rb. rb\<lparr>rb_blocksfree := rb_blocksfree rb - count\<rparr>))) (\<lambda>_.
            retM (allocated @ [blk], True)))
        else retM (allocated @ [blk], False)) ?w1"
      by (simp add: alloc_bit_def Let_def linorder_not_less [symmetric])
    note st = alloc_state_extend [OF assms(1-5) take]
    show ?thesis
    proof (cases "(of_nat (length (allocated @ [blk])) :: u32) = count")
      case len: True
      with run assms(6) have "bindM (write_data_bitmap_block i) (\<lambda>_.
          bindM (modifyM (upd_rootblock (\<lambda>rb. rb\<lparr>rb_blocksfree := rb_blocksfree rb - count\<rparr>))) (\<lambda>_.
            retM (allocated @ [blk], True))) ?w1 = (Ok (al', stop), w')" by simp
      then obtain w2 where w2: "write_data_bitmap_block i ?w1 = (Ok (), w2)"
          "w' = upd_rootblock (\<lambda>rb. rb\<lparr>rb_blocksfree := rb_blocksfree rb - count\<rparr>) w2"
          "stop" "al' = allocated @ [blk]"
        by (auto simp: bindM_eq_Ok)
      note ok = write_data_bitmap_block_Ok [OF w2(1)]
      have "bm_frame w2 w'" "data_free w' = data_free w2"
        "w_rootblock w' = (w_rootblock w2)\<lparr>rb_blocksfree := rb_blocksfree (w_rootblock w2) - count\<rparr>"
        unfolding w2(2) by (simp_all add: upd_rootblock_def w_rootblock_def bm_frame_def data_free_def
            bm_bits_def data_bm_ok_def w_dev_def)
      moreover have "w_rootblock ?w1 = w_rootblock w0" using st by (simp add: alloc_state_def)
      ultimately show ?thesis
        using st ok len w2(3,4) bm_frame_trans unfolding alloc_done_def
        by (simp only: if_True) (intro exI [of _ ?w1], auto)
    next
      case False
      with st run assms(6) show ?thesis by auto
    qed
  qed
qed

lemma alloc_bm_block_step:
  assumes "alloc_state w0 allocated w" "data_bm_ok w0" "i < length (w_data_bm w0)"
    and "alloc_bm_block count allocated i w = (Ok (al', stop), w')"
  shows "if stop then alloc_done w0 count al' w' else alloc_state w0 al' w'"
proof -
  let ?row = "\<lambda>allocated li. bindM (getM (\<lambda>w. snd (w_data_bm w ! i) ! li)) (\<lambda>word.
      if word = 0 then retM (allocated, False) else untilM (alloc_bit count i li) allocated [0..<32])"
  have len: "length (snd (w_data_bm w ! i)) = unat (w_index_per_block w0)"
    using assms(1-3) longs_length [of w i] by (auto simp: alloc_state_def bm_frame_def)
  from assms(4) obtain al1 st w1 where w1:
      "untilM ?row allocated [0..<unat (w_index_per_block w0)] w = (Ok (al1, st), w1)"
      "(if st then retM (al1, True)
        else if al1 \<noteq> [] then bindM (write_data_bitmap_block i) (\<lambda>_. retM (al1, False))
        else retM (al1, False)) w1 = (Ok (al', stop), w')"
    using len by (auto simp: alloc_bm_block_def bindM_eq_Ok)
  have row: "if st then alloc_done w0 count al' w' else alloc_state w0 al' w'"
    if li: "li \<in> set [0..<unat (w_index_per_block w0)]" and al: "alloc_state w0 al w"
      and run: "?row al li w = (Ok (al', st), w')" for al li w al' st w'
  proof (cases "snd (w_data_bm w ! i) ! li = 0")
    case True
    with al run show ?thesis by auto
  next
    case False
    with run have "untilM (alloc_bit count i li) al [0..<32] w = (Ok (al', st), w')" by simp
    then show ?thesis
      by (rule untilM_rule [where I = "alloc_state w0" and Q = "alloc_done w0 count", OF _ _ al, rotated])
        (rule alloc_bit_step [OF _ assms(2,3)], use li in simp_all)
  qed
  have "if st then alloc_done w0 count al1 w1 else alloc_state w0 al1 w1"
    using w1(1) by (rule untilM_rule [where I = "alloc_state w0" and Q = "alloc_done w0 count",
          OF _ _ assms(1), rotated]) (rule row)
  then show ?thesis
    using w1(2) write_data_bitmap_block_Ok [of i w1 w']
    by (auto simp: bindM_eq_Ok alloc_state_def intro: bm_frame_trans split: if_splits)
qed

lemma alloc_data_blocks_result:
  assumes "alloc_data_blocks count w = (Ok blocks, w')" "data_bm_ok w"
  shows "distinct blocks \<and> of_nat (length blocks) = count \<and>
    (\<forall>b \<in> set blocks. w_bitmapstart w \<le> b \<and> b < rb_disksize (w_rootblock w) + w_bitmapstart w) \<and>
    (\<lambda>b. unat b - unat (w_bitmapstart w)) ` set blocks \<subseteq> data_free w \<and>
    data_free w' = data_free w - (\<lambda>b. unat b - unat (w_bitmapstart w)) ` set blocks \<and>
    w_rootblock w' = (w_rootblock w)\<lparr>rb_blocksfree := rb_blocksfree (w_rootblock w) - count\<rparr> \<and>
    w_res_bitmap w' = w_res_bitmap w \<and> w_dev w' = w_dev w \<and> data_bm_ok w'"
proof -
  from assms(1) have run: "untilM (alloc_bm_block count) [] [0..<length (w_data_bm w)] w = (Ok (blocks, True), w')"
    by (auto simp: alloc_data_blocks_def bindM_eq_Ok split: if_splits)
  have init: "alloc_state w [] w" by (simp add: alloc_state_def)
  from run have "if True then alloc_done w count blocks w' else alloc_state w blocks w'"
    by (rule untilM_rule [where I = "alloc_state w" and Q = "alloc_done w count", OF _ _ init, rotated])
      (rule alloc_bm_block_step [OF _ assms(2)], simp_all)
  then have "alloc_done w count blocks w'" by simp
  then obtain w1 ns where d: "bm_frame w w1" "bm_frame w1 w'" "data_free w' = data_free w1"
      "of_nat (length blocks) = count"
      "w_rootblock w' = (w_rootblock w)\<lparr>rb_blocksfree := rb_blocksfree (w_rootblock w) - count\<rparr>"
      and ns: "distinct ns" "map unat blocks = map (\<lambda>n. unat (w_bitmapstart w) + n) ns" "set ns \<subseteq> data_free w"
        "data_free w1 = data_free w - set ns"
        "\<forall>a \<in> set blocks. a < rb_disksize (w_rootblock w) + w_bitmapstart w"
    unfolding alloc_done_def alloc_state_def by blast
  have "distinct (map unat blocks)" unfolding ns(2) using ns(1) by (simp add: distinct_map)
  then have dist: "distinct blocks" by (simp add: distinct_map)
  have im: "unat ` set blocks = (\<lambda>n. unat (w_bitmapstart w) + n) ` set ns"
    using arg_cong [OF ns(2), of set] by simp
  have "(\<lambda>b. unat b - unat (w_bitmapstart w)) ` set blocks = (\<lambda>n. n - unat (w_bitmapstart w)) ` unat ` set blocks"
    by (simp add: image_image)
  then have "(\<lambda>b. unat b - unat (w_bitmapstart w)) ` set blocks = set ns"
    unfolding im by (simp add: image_image)
  moreover have "\<forall>b \<in> set blocks. w_bitmapstart w \<le> b"
  proof
    fix b assume "b \<in> set blocks"
    then have "unat b \<in> unat ` set blocks" by simp
    then show "w_bitmapstart w \<le> b" unfolding im by (auto simp: word_le_nat_alt)
  qed
  ultimately show ?thesis
    using d ns dist assms(2) by (auto simp: bm_frame_def)
qed

text \<open>
  C5. Allocating data blocks never hands out a block twice or a block in use.  When \<open>alloc_data_blocks\<close>
  succeeds on a well-formed bitmap, the returned numbers are different, \<open>count\<close> of them up to the
  width of \<open>u32\<close>, each the block of a bit that was set and below the end of the partition; in
  memory exactly those bits are cleared and the free counter is lower by \<open>count\<close>; the
  reserved bitmap and the device are untouched.
\<close>

theorem alloc_data_blocks_correct:
  assumes "alloc_data_blocks count w = (Ok blocks, w')" "data_bm_ok w"
  shows "distinct blocks \<and> of_nat (length blocks) = count \<and>
    (\<forall>b \<in> set blocks. w_bitmapstart w \<le> b \<and> b < rb_disksize (w_rootblock w) + w_bitmapstart w) \<and>
    (\<lambda>b. unat b - unat (w_bitmapstart w)) ` set blocks \<subseteq> data_free w \<and>
    data_free w' = data_free w - (\<lambda>b. unat b - unat (w_bitmapstart w)) ` set blocks \<and>
    w_rootblock w' = (w_rootblock w)\<lparr>rb_blocksfree := rb_blocksfree (w_rootblock w) - count\<rparr> \<and>
    w_res_bitmap w' = w_res_bitmap w \<and> w_dev w' = w_dev w \<and> data_bm_ok w'"
  using assms by (rule alloc_data_blocks_result)

definition sample_bm_writer :: writer where
  "sample_bm_writer = (upd_rootblock (\<lambda>rb. rb\<lparr>rb_disksize := 32, rb_blocksfree := 9\<rparr>) sample_writer)
     \<lparr>w_index_per_block := 1, w_data_bm := [(3, [0x60000000])], w_pending := [(3, replicate 128 0)]\<rparr>"

lemma sample_bm_writer_ok: "data_bm_ok sample_bm_writer"
  by (simp add: sample_bm_writer_def data_bm_ok_def)

lemma sample_bits: "bit (0x60000000 :: u32) m \<Longrightarrow> m = 29 \<or> m = 30"
proof -
  assume "bit (0x60000000 :: u32) m"
  moreover have "(0x60000000 :: u32) = push_bit 29 (Bit_Operations.mask 2)" by (simp add: mask_eq_exp_minus_1)
  ultimately have "bit (push_bit 29 (Bit_Operations.mask 2) :: u32) m" by (simp only:)
  then show ?thesis by (simp add: bit_push_bit_iff bit_mask_iff) linarith
qed

theorem alloc_data_blocks_correct_witness:
  "data_bm_ok sample_bm_writer \<and>
   (\<exists>w'. alloc_data_blocks 2 sample_bm_writer = (Ok [5, 6], w') \<and> data_free w' = {} \<and>
      rb_blocksfree (w_rootblock w') = 7)"
proof -
  let ?r = "alloc_data_blocks 2 sample_bm_writer"
  have "fst ?r = Ok [5, 6]"
    by (simp add: alloc_data_blocks_def alloc_bm_block_def alloc_bit_def sample_bm_writer_def upt_conv_Cons
        bm_mask_def data_blk_nr_def sample_writer_def upd_rootblock_def w_rootblock_def
        write_data_bitmap_block_def idx_def reserved_raw_def read_reserved_raw_def write_reserved_def Let_def
        bindM_def)
  then obtain w' where w': "?r = (Ok [5, 6], w')" by (metis prod.collapse)
  have "data_free sample_bm_writer \<subseteq> {1, 2}"
    using sample_bits by (force simp: data_free_def sample_bm_writer_def bm_bits_def bm_get_def)
  moreover note alloc_data_blocks_correct [OF w' sample_bm_writer_ok]
  ultimately show ?thesis
    using w' sample_bm_writer_ok by (auto simp: sample_bm_writer_def sample_writer_def upd_rootblock_def w_rootblock_def)
qed

section \<open>Freeing\<close>

text \<open>The position of a block in the bitmap, as the code computes it.\<close>

lemma block_position:
  assumes "\<not> blk < w_bitmapstart w" "data_bm_ok w" "bm_bits w < 2 ^ 32"
  obtains i li b where "unat blk - unat (w_bitmapstart w) = i * bm_bits w + (li * 32 + b)"
    "i = (unat blk - unat (w_bitmapstart w)) div bm_bits w" "li < unat (w_index_per_block w)" "b < 32"
    "w_index_per_block w * 32 \<noteq> 0"
    "unat ((blk - w_bitmapstart w) div (w_index_per_block w * 32)) = i"
    "unat ((blk - w_bitmapstart w) mod (w_index_per_block w * 32) div 32) = li"
    "unat ((blk - w_bitmapstart w) mod (w_index_per_block w * 32) mod 32) = b"
proof -
  let ?n = "unat blk - unat (w_bitmapstart w)"
  define li where "li = ?n mod bm_bits w div 32"
  have rel: "unat (blk - w_bitmapstart w) = ?n"
    using assms(1) by (simp add: unat_sub word_le_nat_alt not_less)
  have bpb: "unat (w_index_per_block w * 32) = bm_bits w"
    using assms(3) by (simp add: bm_bits_def unat_word_ariths)
  have pos: "0 < bm_bits w" using assms(2) by (simp add: bm_bits_def data_bm_ok_def)
  then have nz: "w_index_per_block w * 32 \<noteq> 0" using bpb by (metis less_numeral_extra(3) unat_0)
  have mod32: "?n mod bm_bits w mod 32 = ?n mod 32" unfolding bm_bits_def by (rule mod_mod_cancel) simp
  have "?n mod bm_bits w < bm_bits w" using pos by simp
  then have li: "li < unat (w_index_per_block w)"
    unfolding li_def by (subst less_mult_imp_div_less) (simp_all add: bm_bits_def)
  have n: "?n = ?n div bm_bits w * bm_bits w + (li * 32 + ?n mod 32)"
    unfolding li_def mod32 [symmetric] by simp
  show thesis
    by (rule that [OF n refl li _ nz]) (use rel bpb mod32 in \<open>simp_all add: unat_div unat_mod li_def\<close>)
qed

text \<open>
  C16. Freeing a data block gives back that block and nothing else.  A block below the bitmap, or beyond the
  loaded bitmap, is ignored; otherwise, when \<open>free_data_block\<close> succeeds, exactly the bit of the
  block is set in addition and the counter goes up by one.
\<close>

theorem free_data_block_correct:
  assumes "free_data_block blk w = (Ok (), w')" "data_bm_ok w" "bm_bits w < 2 ^ 32"
  shows "if w_bitmapstart w \<le> blk \<and> (unat blk - unat (w_bitmapstart w)) div bm_bits w < length (w_data_bm w)
    then data_free w' = insert (unat blk - unat (w_bitmapstart w)) (data_free w) \<and>
      w_rootblock w' = (w_rootblock w)\<lparr>rb_blocksfree := rb_blocksfree (w_rootblock w) + 1\<rparr> \<and>
      w_dev w' = w_dev w \<and> data_bm_ok w'
    else w' = w"
proof (cases "blk < w_bitmapstart w")
  case True
  with assms(1) show ?thesis by (auto simp: free_data_block_def)
next
  case False
  let ?n = "unat blk - unat (w_bitmapstart w)"
  obtain i li b where n: "?n = i * bm_bits w + (li * 32 + b)" and i_def: "i = ?n div bm_bits w"
    and li: "li < unat (w_index_per_block w)" and b: "b < 32" and nz: "w_index_per_block w * 32 \<noteq> 0"
    and words: "unat ((blk - w_bitmapstart w) div (w_index_per_block w * 32)) = i"
      "unat ((blk - w_bitmapstart w) mod (w_index_per_block w * 32) div 32) = li"
      "unat ((blk - w_bitmapstart w) mod (w_index_per_block w * 32) mod 32) = b"
    by (rule block_position [OF False assms(2,3)])
  show ?thesis
  proof (cases "i < length (w_data_bm w)")
    case out: False
    with assms(1) nz words False have "w' = w"
      by (simp add: free_data_block_def divO_def modO_def Let_def)
    with out show ?thesis by (simp add: i_def)
  next
    case i: True
    let ?w1 = "w\<lparr>w_data_bm := (w_data_bm w)[i := (fst (w_data_bm w ! i),
        (snd (w_data_bm w ! i))[li := snd (w_data_bm w ! i) ! li OR bm_mask b])]\<rparr>"
    have "idx (snd (w_data_bm w ! i)) li = Ok (snd (w_data_bm w ! i) ! li)"
      using longs_length [OF assms(2) i] li by (simp add: idx_def)
    then have "bindM (write_data_bitmap_block i) (\<lambda>_.
        modifyM (upd_rootblock (\<lambda>rb. rb\<lparr>rb_blocksfree := rb_blocksfree rb + 1\<rparr>))) ?w1 = (Ok (), w')"
      using assms(1) nz words False i by (simp add: free_data_block_def divO_def modO_def Let_def)
    then obtain w2 where w2: "write_data_bitmap_block i ?w1 = (Ok (), w2)"
        "w' = upd_rootblock (\<lambda>rb. rb\<lparr>rb_blocksfree := rb_blocksfree rb + 1\<rparr>) w2"
      by (auto simp: bindM_eq_Ok)
    note ok = write_data_bitmap_block_Ok [OF w2(1)]
    have "data_free w' = data_free w2" "w_dev w' = w_dev w2" "data_bm_ok w' = data_bm_ok w2"
      "w_rootblock w' = (w_rootblock w2)\<lparr>rb_blocksfree := rb_blocksfree (w_rootblock w2) + 1\<rparr>"
      unfolding w2(2) by (simp_all add: upd_rootblock_def w_rootblock_def data_free_def
          bm_bits_def data_bm_ok_def w_dev_def)
    moreover have "data_free ?w1 = insert ?n (data_free w)"
      unfolding n by (rule data_free_set [OF assms(2) i li b])
    moreover have "data_bm_ok ?w1" using data_bm_ok_update [OF assms(2) i] longs_length [OF assms(2) i] by simp
    ultimately show ?thesis
      using ok i False by (auto simp: i_def bm_frame_def w_rootblock_def w_dev_def)
  qed
qed

theorem free_data_block_correct_witness:
  "bm_bits sample_bm_writer < 2 ^ 32 \<and>
   (\<exists>w'. free_data_block 9 sample_bm_writer = (Ok (), w') \<and> 5 \<in> data_free w' \<and> 5 \<notin> data_free sample_bm_writer \<and>
      rb_blocksfree (w_rootblock w') = 10)"
proof -
  let ?r = "free_data_block 9 sample_bm_writer"
  have bits: "bm_bits sample_bm_writer < 2 ^ 32" by (simp add: bm_bits_def sample_bm_writer_def)
  have "fst ?r = Ok ()"
    by (simp add: free_data_block_def sample_bm_writer_def divO_def modO_def sample_writer_def upd_rootblock_def
        write_data_bitmap_block_def idx_def reserved_raw_def read_reserved_raw_def write_reserved_def Let_def
        bindM_def)
  then obtain w' where w': "?r = (Ok (), w')" by (metis prod.collapse)
  have "5 \<notin> data_free sample_bm_writer"
    using sample_bits [of 26] by (auto simp: data_free_def sample_bm_writer_def bm_bits_def bm_get_def)
  with free_data_block_correct [OF w' sample_bm_writer_ok bits] w' bits show ?thesis
    by (simp add: sample_bm_writer_def sample_writer_def upd_rootblock_def w_rootblock_def bm_bits_def)
qed

section \<open>Extents\<close>

text \<open>The blocks of an extent, and what it means that the next extent could not be merged.\<close>

definition cluster_blocks :: "u32 \<times> u32 \<Rightarrow> u32 list" where
  "cluster_blocks c = map (\<lambda>i. fst c + of_nat i) [0..<unat (snd c)]"

lemma run_length_le: "run_length e bs \<le> length bs"
  by (induction e bs rule: run_length.induct) auto

lemma run_take: "take (run_length e bs) bs = map (\<lambda>i. e + of_nat i) [0..<run_length e bs]"
proof (induction e bs rule: run_length.induct)
  case (2 e b bs)
  have "map (\<lambda>i. e + of_nat i) [0..<Suc k] = e # map (\<lambda>i. (e + 1) + of_nat i) [0..<k]" for k
    by (simp only: upt_conv_Cons map_Suc_upt [symmetric] zero_less_Suc list.map map_map)
      (simp add: comp_def algebra_simps)
  with 2 show ?case by auto
qed simp

text \<open>
  Grouping blocks into extents loses nothing: the blocks of the extents that \<open>create_anode_chain\<close> makes,
  in order, are the blocks it was given, and no extent is empty.
\<close>

lemma clusters_blocks:
  assumes "length blocks < 2 ^ 32"
  shows "concat (map cluster_blocks (clusters blocks)) = blocks \<and> (\<forall>c \<in> set (clusters blocks). snd c \<noteq> 0)"
  using assms
proof (induction blocks rule: clusters.induct)
  case (2 b bs)
  let ?k = "run_length (b + 1) bs"
  have k: "Suc ?k < 2 ^ LENGTH(32)" using 2(2) run_length_le [of "b + 1" bs] by (simp only: len32) simp
  then have u: "unat (of_nat (Suc ?k) :: u32) = Suc ?k" by (rule unat_of_nat_lt)
  then have nz: "(of_nat (Suc ?k) :: u32) \<noteq> 0" by (metis nat.distinct(1) unat_0)
  have "cluster_blocks (b, of_nat (Suc ?k)) = b # take ?k bs"
    unfolding cluster_blocks_def fst_conv snd_conv u run_take
    by (simp only: upt_conv_Cons map_Suc_upt [symmetric] zero_less_Suc list.map map_map)
      (simp add: comp_def algebra_simps)
  moreover have "concat (map cluster_blocks (clusters (drop ?k bs))) = drop ?k bs \<and>
      (\<forall>c \<in> set (clusters (drop ?k bs)). snd c \<noteq> 0)"
    using 2 by simp
  ultimately show ?case using nz by (simp only: clusters.simps list.map concat.simps) simp
qed simp

lemma clusters_blocks_witness:
  "length [7, 8, 9, 20, 21 :: u32] < 2 ^ 32 \<and> clusters [7, 8, 9, 20, 21] = [(7, 3), (20, 2)] \<and>
   concat (map cluster_blocks (clusters [7, 8, 9, 20, 21])) = [7, 8, 9, 20, 21]"
  using clusters_blocks [of "[7, 8, 9, 20, 21]"] by simp

end
