(* ===== verification/Writer.thy ===== *)
theory Writer
  imports Writer_State
begin

text \<open>
  \<^verbatim>\<open>crates/libpfs3/src/writer.rs\<close>, second part: directory entries, the list of deleted files and the
  operations on files and directories.  The clock is the argument \<open>now\<close> of the operations that
  stamp an entry.
\<close>

section \<open>Directory entries\<close>

text \<open>The loop over the entries of one directory block: the offset of the first match.\<close>

function find_in_block :: "bytes \<Rightarrow> nat \<Rightarrow> rstr \<Rightarrow> nat \<Rightarrow> nat option outcome" where
  "find_in_block data rbs name pos =
     (if pos < rbs
      then bindO (idx data pos) (\<lambda>esize.
        if esize = 0 then Ok None
        else bindO (idx data (pos + 17)) (\<lambda>nlen.
             bindO (sliceO data (pos + 18) (pos + 18 + unat nlen)) (\<lambda>ename.
             if name_eq_ci (latin1_to_string ename) name then Ok (Some pos)
             else find_in_block data rbs name (pos + unat esize))))
      else Ok None)"
  by pat_completeness auto
termination
  by (relation "measure (\<lambda>(_, rbs, _, pos). rbs - pos)") (auto intro: unat_advance)

declare find_in_block.simps [simp del]

definition find_dir_entry :: "u32 \<Rightarrow> rstr \<Rightarrow> (writer, u32 \<times> bytes \<times> nat) rm" where
  "find_dir_entry dir_anode name =
     bindM (w_get_chain dir_anode) (\<lambda>chain.
     bindM (searchM chain (\<lambda>an.
       searchM [0..<unat (an_clustersize an)] (\<lambda>i.
         let blk = an_blocknr an + of_nat i in
         bindM (reserved_raw blk) (\<lambda>data.
         bindM (liftO (be16 data 0)) (\<lambda>id.
         if id \<noteq> DBLKID then retM None
         else bindM (getM (\<lambda>w. unat (w_resblocksize w))) (\<lambda>rbs.
              bindM (liftO (find_in_block data rbs name DIR_BLOCK_HEADER_SIZE)) (\<lambda>r.
                retM (map_option (\<lambda>pos. (blk, data, pos)) r)))))))) (\<lambda>r. case r of
       Some x \<Rightarrow> retM x
     | None \<Rightarrow> failM (NotFound name)))"

text \<open>Where a new entry goes: the first zero size byte, or past the block.\<close>

function entries_end :: "bytes \<Rightarrow> nat \<Rightarrow> nat \<Rightarrow> nat outcome" where
  "entries_end data rbs pos =
     (if pos < rbs
      then bindO (idx data pos) (\<lambda>esize.
             if esize = 0 then Ok pos else entries_end data rbs (pos + unat esize))
      else Ok pos)"
  by pat_completeness auto
termination
  by (relation "measure (\<lambda>(_, rbs, pos). rbs - pos)") (auto intro: unat_advance)

declare entries_end.simps [simp del]

text \<open>\<open>add_dir_entry\<close> on one directory block: \<open>None\<close> when the entry does not fit.\<close>

definition append_entry :: "bytes \<Rightarrow> nat \<Rightarrow> bytes \<Rightarrow> bytes option outcome" where
  "append_entry data rbs entry_bytes =
     bindO (entries_end data rbs DIR_BLOCK_HEADER_SIZE) (\<lambda>pos.
       if pos + length entry_bytes < rbs
       then bindO (copy_at data pos entry_bytes) (\<lambda>data.
            bindO (if pos + length entry_bytes < rbs then set_idx data (pos + length entry_bytes) 0
                   else Ok data) (\<lambda>data. Ok (Some data)))
       else Ok None)"

definition add_dir_entry ::
  "nat \<Rightarrow> u32 \<Rightarrow> rstr \<Rightarrow> i8 \<Rightarrow> u32 \<Rightarrow> u64 \<Rightarrow> u8 \<Rightarrow> (writer, unit) rm" where
  "add_dir_entry now dir_anode name entry_type anode fsize protection =
     bindM (liftO (build_dir_entry now name entry_type anode fsize protection)) (\<lambda>entry_bytes.
     bindM (w_get_chain dir_anode) (\<lambda>chain.
     bindM (searchM chain (\<lambda>an.
       searchM [0..<unat (an_clustersize an)] (\<lambda>i.
         let blk = an_blocknr an + of_nat i in
         bindM (reserved_raw blk) (\<lambda>data.
         bindM (liftO (be16 data 0)) (\<lambda>id.
         if id \<noteq> DBLKID then retM None
         else bindM (getM (\<lambda>w. unat (w_resblocksize w))) (\<lambda>rbs.
              bindM (liftO (append_entry data rbs entry_bytes)) (\<lambda>r. case r of
                None \<Rightarrow> retM None
              | Some data \<Rightarrow>
                  bindM next_datestamp (\<lambda>ds.
                  bindM (liftO (put_u32 data 4 ds)) (\<lambda>data.
                  bindM (write_reserved blk data) (\<lambda>_. retM (Some ())))))))))))
       (\<lambda>r. case r of
       Some _ \<Rightarrow> retM ()
     | None \<Rightarrow>
         bindM alloc_reserved_block (\<lambda>new_blk.
         bindM next_datestamp (\<lambda>ds.
         bindM (getM (\<lambda>w. unat (w_resblocksize w))) (\<lambda>rbs.
         bindM (liftO (chainO
           [\<lambda>b. put_u16 b 0x00 DBLKID, \<lambda>b. put_u32 b 0x04 ds, \<lambda>b. put_u32 b 0x0C dir_anode,
            \<lambda>b. put_u32 b 0x10 dir_anode, \<lambda>b. copy_at b DIR_BLOCK_HEADER_SIZE entry_bytes]
           (replicate rbs 0))) (\<lambda>new_data.
         bindM (write_reserved new_blk new_data) (\<lambda>_.
           extend_anode_chain dir_anode new_blk))))))))"

text \<open>
  \<open>remove_dir_entry\<close> on the block: the rest moves down and the freed tail is cleared.  An entry
  that claims to reach past the block makes \<open>copy_within\<close> panic.
\<close>

definition cut_entry :: "bytes \<Rightarrow> nat \<Rightarrow> nat \<Rightarrow> bytes outcome" where
  "cut_entry data rbs pos =
     bindO (idx data pos) (\<lambda>es.
       let esize = unat es; end = pos + esize in
       if rbs < end then Panic
       else
         let remaining = rbs - end in
         bindO (sliceO data end (end + remaining)) (\<lambda>rest.
         bindO (copy_at data pos rest) (\<lambda>data.
           zero_at data (pos + remaining) esize)))"

definition remove_dir_entry :: "u32 \<Rightarrow> rstr \<Rightarrow> (writer, unit) rm" where
  "remove_dir_entry dir_anode name =
     bindM (find_dir_entry dir_anode name) (\<lambda>(blk, data, pos).
     bindM (getM (\<lambda>w. unat (w_resblocksize w))) (\<lambda>rbs.
     bindM (liftO (cut_entry data rbs pos)) (\<lambda>data.
     bindM next_datestamp (\<lambda>ds.
     bindM (liftO (put_u32 data 4 ds)) (\<lambda>data.
       write_reserved blk data)))))"

text \<open>Skipping optional fields: \<open>None\<close> is the \<open>break\<close> out of the labelled block.\<close>

fun skip_fields :: "u16 \<Rightarrow> nat \<Rightarrow> nat \<Rightarrow> (u16 \<times> nat) list \<Rightarrow> nat option" where
  "skip_fields flags end fp [] = Some fp"
| "skip_fields flags end fp ((flag, n) # fs) =
     (if flags AND flag \<noteq> 0
      then if fp + n > end then None else skip_fields flags end (fp + n) fs
      else skip_fields flags end fp fs)"

definition patch_size :: "bytes \<Rightarrow> nat \<Rightarrow> u64 \<Rightarrow> bytes outcome" where
  "patch_size data pos new_size =
     bindO (idx data pos) (\<lambda>esize.
     bindO (idx data (pos + 17)) (\<lambda>nlen.
     bindO (put_u32 data (pos + 6) (ucast new_size)) (\<lambda>data.
     let coff = pos + 18 + unat nlen; end = pos + unat esize in
     if coff < end
     then bindO (idx data coff) (\<lambda>clen.
       let fp = coff + 1 + unat clen; fp = (if odd fp then fp + 1 else fp) in
       if fp + 2 \<le> end
       then bindO (be16 data fp) (\<lambda>flags.
         case skip_fields flags end (fp + 2)
                [(0x0001, 4), (0x0002, 2), (0x0004, 2), (0x0008, 4), (0x0010, 4), (0x0020, 4)] of
           None \<Rightarrow> Ok data
         | Some fp \<Rightarrow>
             if flags AND 0x0040 \<noteq> 0 \<and> fp + 2 \<le> end
             then put_u16 data fp (ucast (drop_bit 32 new_size)) else Ok data)
       else Ok data)
     else Ok data)))"

definition update_dir_entry_size :: "nat \<Rightarrow> u32 \<Rightarrow> rstr \<Rightarrow> u64 \<Rightarrow> (writer, unit) rm" where
  "update_dir_entry_size now dir_anode name new_size =
     bindM (find_dir_entry dir_anode name) (\<lambda>(blk, data, pos).
     bindM (liftO (patch_size data pos new_size)) (\<lambda>data.
     let (cday, cmin, ctick) = current_amiga_datestamp now in
     bindM (liftO (chainO
       [\<lambda>b. put_u16 b (pos + 10) cday, \<lambda>b. put_u16 b (pos + 12) cmin, \<lambda>b. put_u16 b (pos + 14) ctick] data)) (\<lambda>data.
     bindM next_datestamp (\<lambda>ds.
     bindM (liftO (put_u32 data 4 ds)) (\<lambda>data.
       write_reserved blk data)))))"

definition update_dir_entry_protection :: "u32 \<Rightarrow> rstr \<Rightarrow> u8 \<Rightarrow> (writer, unit) rm" where
  "update_dir_entry_protection dir_anode name protection =
     bindM (find_dir_entry dir_anode name) (\<lambda>(blk, data, pos).
     bindM (liftO (set_idx data (pos + 16) protection)) (\<lambda>data.
     bindM next_datestamp (\<lambda>ds.
     bindM (liftO (put_u32 data 4 ds)) (\<lambda>data.
     bindM (write_reserved blk data) (\<lambda>_. update_rootblock)))))"

section \<open>Deleted files\<close>

definition write_deldir_entry :: "bytes \<Rightarrow> nat \<Rightarrow> dir_entry \<Rightarrow> bytes outcome" where
  "write_deldir_entry block off entry =
     (let name_bytes = as_bytes (de_name entry);
          len = min (length name_bytes) 16
      in chainO
        [\<lambda>b. put_u32 b off (de_anode entry),
         \<lambda>b. put_u32 b (off + 4) (ucast (file_size entry)),
         \<lambda>b. put_u16 b (off + 8) (de_creation_day entry),
         \<lambda>b. put_u16 b (off + 10) (de_creation_minute entry),
         \<lambda>b. put_u16 b (off + 12) (de_creation_tick entry),
         \<lambda>b. zero_at b (off + 14) 16,
         \<lambda>b. copy_at b (off + 14) (take len name_bytes),
         \<lambda>b. put_u16 b (off + 30) (ucast (drop_bit 32 (file_size entry)))] block)"

text \<open>The offset of the first empty slot of a block of deleted files.\<close>

fun free_deldir_slot :: "bytes \<Rightarrow> nat list \<Rightarrow> nat option outcome" where
  "free_deldir_slot data [] = Ok None"
| "free_deldir_slot data (i # is) =
     (let off = DELDIR_HEADER_SIZE + i * DELDIR_ENTRY_SIZE in
      if off + DELDIR_ENTRY_SIZE > length data then Ok None
      else bindO (be32 data off) (\<lambda>slot_anode.
        if slot_anode = 0 then Ok (Some off) else free_deldir_slot data is))"

definition move_to_deldir :: "dir_entry \<Rightarrow> (writer, bool) rm" where
  "move_to_deldir entry =
     bindM (getM (\<lambda>w. w)) (\<lambda>w.
     if \<not> has_flag (w_rootblock w) MODE_DELDIR then retM False
     else (case v_rootblock_ext (w_vol w) of
         None \<Rightarrow> retM False
       | Some rext \<Rightarrow>
           let deldirblocks = filter (\<lambda>b. b \<noteq> 0) (rx_deldirblocks rext) in
           if deldirblocks = [] then retM False
           else
             let entries_per_block = deldir_entries_per_block (rb_reserved_blksize (w_rootblock w)) in
             bindM (searchM deldirblocks (\<lambda>blk.
               bindM (tryM (reserved_raw blk)) (\<lambda>r. case r of
                 None \<Rightarrow> retM None
               | Some data \<Rightarrow>
                   bindM (liftO (be16 data 0)) (\<lambda>id.
                   if id \<noteq> DELDIRID then retM None
                   else
                     bindM (liftO (free_deldir_slot data [0..<entries_per_block])) (\<lambda>s. case s of
                       None \<Rightarrow> retM None
                     | Some off \<Rightarrow>
                         bindM (liftO (write_deldir_entry data off entry)) (\<lambda>block_data.
                         bindM (write_reserved blk block_data) (\<lambda>_. retM (Some True)))))))) (\<lambda>r. case r of
               Some b \<Rightarrow> retM b
             | None \<Rightarrow>
                 let blk = hd deldirblocks in
                 bindM (tryM (reserved_raw blk)) (\<lambda>r. case r of
                   None \<Rightarrow> retM False
                 | Some data \<Rightarrow>
                     let off = DELDIR_HEADER_SIZE in
                     bindM (liftO (be32 data off)) (\<lambda>evict_anode.
                     bindM (if evict_anode \<noteq> 0
                            then bindM (tryM (free_data_blocks evict_anode)) (\<lambda>_.
                                 bindM (tryM (clear_anode_chain evict_anode)) (\<lambda>_. retM ()))
                            else retM ()) (\<lambda>_.
                     bindM (liftO (write_deldir_entry data off entry)) (\<lambda>block_data.
                     bindM (write_reserved blk block_data) (\<lambda>_. retM True))))))))"

section \<open>Files and directories\<close>

fun split_loop :: "rstr list \<Rightarrow> u32 \<Rightarrow> (volume, u32) rm" where
  "split_loop [] parent = retM parent"
| "split_loop (part # parts) parent =
     bindM (list_dir_by_anode parent) (\<lambda>entries.
       case find (\<lambda>e. name_eq_ci (de_name e) part \<and> is_dir e) entries of
         None \<Rightarrow> failM (NotFound part)
       | Some dir \<Rightarrow> split_loop parts (de_anode dir))"

definition split_path :: "rstr \<Rightarrow> (writer, u32 \<times> rstr) rm" where
  "split_path path =
     (let parts = path_parts path in
      if parts = [] then failM (NotFound (rs ''empty path''))
      else bindM (on_vol (split_loop (butlast parts) ANODE_ROOTDIR)) (\<lambda>parent. retM (parent, last parts)))"

text \<open>\<open>data.len().div_ceil(bs).max(1)\<close>\<close>

definition blocks_needed :: "nat \<Rightarrow> nat \<Rightarrow> nat outcome" where
  "blocks_needed len bs = (if bs = 0 then Panic else Ok (max (div_ceil len bs) 1))"

text \<open>The loop that writes the sectors of a file, from sector \<open>k\<close> of the data on.\<close>

fun write_sectors :: "bytes \<Rightarrow> nat \<Rightarrow> nat \<Rightarrow> nat list \<Rightarrow> (writer, unit) rm" where
  "write_sectors data bs k [] = retM ()"
| "write_sectors data bs k (blk # blks) =
     bindM (on_dev (write_block blk (sector_of data bs (k * bs)))) (\<lambda>_.
       write_sectors data bs (k + 1) blks)"

text \<open>Allocate blocks for the data, write it, make it durable, and chain the blocks.\<close>

definition store_data :: "bytes \<Rightarrow> (writer, u32) rm" where
  "store_data data =
     bindM (getM (\<lambda>w. unat (vol_block_size (w_vol w)))) (\<lambda>bs.
     bindM (liftO (blocks_needed (length data) bs)) (\<lambda>num_blocks.
     bindM (alloc_data_blocks (of_nat num_blocks)) (\<lambda>blocks.
     bindM (write_sectors data bs 0 (map unat blocks)) (\<lambda>_.
     bindM (on_dev flush) (\<lambda>_.
       create_anode_chain blocks)))))"

definition write_file_in_no_commit :: "nat \<Rightarrow> u32 \<Rightarrow> rstr \<Rightarrow> bytes \<Rightarrow> (writer, unit) rm" where
  "write_file_in_no_commit now parent_anode name data =
     bindM (store_data data) (\<lambda>anodenr.
       add_dir_entry now parent_anode name ST_FILE anodenr (of_nat (length data)) 0)"

definition overwrite_file_in :: "nat \<Rightarrow> u32 \<Rightarrow> rstr \<Rightarrow> u32 \<Rightarrow> bytes \<Rightarrow> (writer, unit) rm" where
  "overwrite_file_in now parent_anode name file_anode data =
     bindM (getM (\<lambda>w. unat (vol_block_size (w_vol w)))) (\<lambda>bs.
     bindM (liftO (blocks_needed (length data) bs)) (\<lambda>needed.
     let new_blocks_needed = (of_nat needed :: u32) in
     bindM (w_get_chain file_anode) (\<lambda>old_chain.
     let old_total = sum_list (map an_clustersize old_chain);
         reused = take (unat new_blocks_needed) (chain_blocks old_chain) in
     bindM (write_sectors data bs 0 reused) (\<lambda>_.
     bindM (on_dev flush) (\<lambda>_.
     bindM (if new_blocks_needed \<le> old_total
            then truncate_anode_chain file_anode new_blocks_needed
            else
              bindM (alloc_data_blocks (new_blocks_needed - old_total)) (\<lambda>new_blocks.
              bindM (write_sectors data bs (length reused) (map unat new_blocks)) (\<lambda>_.
              bindM (on_dev flush) (\<lambda>_.
              bindM (create_anode_chain new_blocks) (\<lambda>new_chain_head.
                append_to_anode_chain file_anode new_chain_head))))) (\<lambda>_.
     bindM (update_dir_entry_size now parent_anode name (of_nat (length data))) (\<lambda>_.
       update_rootblock)))))))"

definition write_file_in :: "nat \<Rightarrow> u32 \<Rightarrow> rstr \<Rightarrow> bytes \<Rightarrow> (writer, unit) rm" where
  "write_file_in now parent_anode name data =
     bindM (tryM (find_dir_entry parent_anode name)) (\<lambda>r.
     bindM (case r of
         None \<Rightarrow> retM None
       | Some (_, entry_data, pos) \<Rightarrow>
           bindM (liftO (idx entry_data (pos + 1))) (\<lambda>entry_type.
           if entry_type = ST_FILE \<or> entry_type = ST_ROLLOVERFILE
           then bindM (liftO (be32 entry_data (pos + 2))) (\<lambda>file_anode. retM (Some file_anode))
           else retM None)) (\<lambda>existing.
     case existing of
       Some file_anode \<Rightarrow> overwrite_file_in now parent_anode name file_anode data
     | None \<Rightarrow>
         bindM (write_file_in_no_commit now parent_anode name data) (\<lambda>_. update_rootblock)))"

definition create_dir_in :: "nat \<Rightarrow> u32 \<Rightarrow> rstr \<Rightarrow> (writer, unit) rm" where
  "create_dir_in now parent_anode name =
     bindM alloc_reserved_block (\<lambda>dir_blk.
     bindM (alloc_anode 1 dir_blk 0) (\<lambda>anodenr.
     bindM next_datestamp (\<lambda>ds.
     bindM (getM (\<lambda>w. unat (w_resblocksize w))) (\<lambda>rbs.
     bindM (liftO (chainO
       [\<lambda>b. put_u16 b 0x00 DBLKID, \<lambda>b. put_u32 b 0x04 ds, \<lambda>b. put_u32 b 0x0C anodenr,
        \<lambda>b. put_u32 b 0x10 parent_anode] (replicate rbs 0))) (\<lambda>dir_data.
     bindM (write_reserved dir_blk dir_data) (\<lambda>_.
     bindM (add_dir_entry now parent_anode name ST_USERDIR anodenr 0 0) (\<lambda>_.
       update_rootblock)))))))"

definition create_softlink_in :: "nat \<Rightarrow> u32 \<Rightarrow> rstr \<Rightarrow> rstr \<Rightarrow> (writer, unit) rm" where
  "create_softlink_in now parent_anode name target =
     (let data = as_bytes target in
      bindM (store_data data) (\<lambda>anodenr.
      bindM (add_dir_entry now parent_anode name ST_SOFTLINK anodenr (of_nat (length data)) 0) (\<lambda>_.
        update_rootblock)))"

definition delete_in :: "u32 \<Rightarrow> rstr \<Rightarrow> (writer, unit) rm" where
  "delete_in parent_anode name =
     bindM (on_vol (list_dir_by_anode parent_anode)) (\<lambda>entries.
     bindM (liftO (find_entry name entries)) (\<lambda>target.
     bindM (if is_dir target
            then
              bindM (on_vol (list_dir_by_anode (de_anode target))) (\<lambda>sub.
              if sub \<noteq> [] then failM NotEmpty
              else bindM (free_anode_chain_reserved (de_anode target)) (\<lambda>_.
                     clear_anode_chain (de_anode target)))
            else
              bindM (move_to_deldir target) (\<lambda>moved.
              if moved then retM ()
              else bindM (free_data_blocks (de_anode target)) (\<lambda>_. clear_anode_chain (de_anode target)))) (\<lambda>_.
     bindM (remove_dir_entry parent_anode name) (\<lambda>_.
       update_rootblock))))"

definition rename_in :: "nat \<Rightarrow> u32 \<Rightarrow> rstr \<Rightarrow> u32 \<Rightarrow> rstr \<Rightarrow> (writer, unit) rm" where
  "rename_in now src_parent src_name dst_parent dst_name =
     bindM (on_vol (list_dir_by_anode src_parent)) (\<lambda>entries.
     bindM (liftO (find_entry src_name entries)) (\<lambda>entry.
     bindM (tryM (on_vol (list_dir_by_anode dst_parent))) (\<lambda>dst_entries.
     bindM (case dst_entries of
         Some es \<Rightarrow>
           if list_ex (\<lambda>e. name_eq_ci (de_name e) dst_name) es then delete_in dst_parent dst_name else retM ()
       | None \<Rightarrow> retM ()) (\<lambda>_.
     bindM (add_dir_entry now dst_parent dst_name (de_entry_type entry) (de_anode entry)
              (file_size entry) (de_protection entry)) (\<lambda>_.
     bindM (remove_dir_entry src_parent src_name) (\<lambda>_.
       update_rootblock))))))"

definition undelete :: "nat \<Rightarrow> nat \<Rightarrow> rstr \<Rightarrow> (writer, unit) rm" where
  "undelete now deldir_idx dest_path =
     bindM (getM (\<lambda>w. w)) (\<lambda>w.
     case v_rootblock_ext (w_vol w) of
       None \<Rightarrow> failM (NotFound (rs ''no rootblock extension''))
     | Some rext \<Rightarrow>
         let deldirblocks = filter (\<lambda>b. b \<noteq> 0) (rx_deldirblocks rext);
             entries_per_block = deldir_entries_per_block (rb_reserved_blksize (w_rootblock w)) in
         if entries_per_block = 0 then failM (Corrupt (rs ''invalid reserved block size''))
         else
           let block_idx = deldir_idx div entries_per_block;
               slot_idx = deldir_idx mod entries_per_block in
           if length deldirblocks \<le> block_idx
           then failM (NotFound (rs ''deldir index '' @ show_nat deldir_idx @ rs '' out of range''))
           else
             let blk = deldirblocks ! block_idx in
             bindM (reserved_raw blk) (\<lambda>data.
             let off = DELDIR_HEADER_SIZE + slot_idx * DELDIR_ENTRY_SIZE in
             bindM (liftO (sliceO data off (off + DELDIR_ENTRY_SIZE))) (\<lambda>raw.
             bindM (liftO (DelDirEntry_parse raw)) (\<lambda>e. case e of
               None \<Rightarrow> failM (NotFound (rs ''empty deldir slot''))
             | Some entry \<Rightarrow>
                 bindM (on_vol (vol_lookup dest_path)) (\<lambda>existing.
                 if existing \<noteq> None then failM (AlreadyExists dest_path)
                 else
                   bindM (on_vol (read_file_data (dd_anode entry) (DelDirEntry_file_size entry))) (\<lambda>file_data.
                   bindM (split_path dest_path) (\<lambda>(parent_anode, filename).
                   bindM (write_file_in_no_commit now parent_anode filename file_data) (\<lambda>_.
                   bindM (tryM (clear_anode_chain (dd_anode entry))) (\<lambda>_.
                   bindM (reserved_raw blk) (\<lambda>block_data.
                   bindM (liftO (zero_at block_data off DELDIR_ENTRY_SIZE)) (\<lambda>block_data.
                   bindM (write_reserved blk block_data) (\<lambda>_.
                     update_rootblock)))))))))))) "

section \<open>Operations by path\<close>

definition write_file :: "nat \<Rightarrow> rstr \<Rightarrow> bytes \<Rightarrow> (writer, unit) rm" where
  "write_file now path data =
     bindM (split_path path) (\<lambda>(parent_anode, filename). write_file_in now parent_anode filename data)"

definition create_dir :: "nat \<Rightarrow> rstr \<Rightarrow> (writer, unit) rm" where
  "create_dir now path =
     bindM (split_path path) (\<lambda>(parent_anode, dirname). create_dir_in now parent_anode dirname)"

definition delete_path :: "rstr \<Rightarrow> (writer, unit) rm" where
  "delete_path path =
     bindM (split_path path) (\<lambda>(parent_anode, name). delete_in parent_anode name)"

definition create_softlink :: "nat \<Rightarrow> rstr \<Rightarrow> rstr \<Rightarrow> (writer, unit) rm" where
  "create_softlink now path target =
     bindM (split_path path) (\<lambda>(parent_anode, name). create_softlink_in now parent_anode name target)"

definition create_hardlink :: "nat \<Rightarrow> rstr \<Rightarrow> u32 \<Rightarrow> (writer, unit) rm" where
  "create_hardlink now path target_anode =
     bindM (split_path path) (\<lambda>(parent_anode, name).
     bindM (add_dir_entry now parent_anode name ST_LINKFILE target_anode 0 0) (\<lambda>_.
       update_rootblock))"

definition force_remove_entry :: "u32 \<Rightarrow> rstr \<Rightarrow> (writer, unit) rm" where
  "force_remove_entry parent_anode name =
     bindM (remove_dir_entry parent_anode name) (\<lambda>_. update_rootblock)"

definition repair_blocksfree :: "u32 \<Rightarrow> (writer, unit) rm" where
  "repair_blocksfree correct_free =
     bindM (modifyM (upd_rootblock (\<lambda>rb. rb\<lparr>rb_blocksfree := correct_free\<rparr>))) (\<lambda>_. update_rootblock)"

definition repair_reserved_free :: "u32 \<Rightarrow> (writer, unit) rm" where
  "repair_reserved_free correct_free =
     bindM (modifyM (upd_rootblock (\<lambda>rb. rb\<lparr>rb_reserved_free := correct_free\<rparr>))) (\<lambda>_. update_rootblock)"

text \<open>\<open>&name[..n]\<close> on a string: panics unless \<open>n\<close> bytes end on a character boundary.\<close>

fun str_prefix :: "nat \<Rightarrow> rstr \<Rightarrow> rstr outcome" where
  "str_prefix n [] = (if n = 0 then Ok [] else Panic)"
| "str_prefix n (c # s) =
     (if n = 0 then Ok []
      else if length (utf8_encode c) \<le> n
      then bindO (str_prefix (n - length (utf8_encode c)) s) (\<lambda>t. Ok (c # t))
      else Panic)"

definition set_volume_name :: "rstr \<Rightarrow> (writer, unit) rm" where
  "set_volume_name name =
     (let name_bytes = as_bytes name;
          len = min (length name_bytes) 30 in
      bindM (liftO (str_prefix len name)) (\<lambda>diskname.
      bindM (modifyM (upd_rootblock (\<lambda>rb. rb\<lparr>rb_diskname := diskname\<rparr>))) (\<lambda>_.
      bindM (\<lambda>w. (read_cluster w, w)) (\<lambda>cluster.
      bindM (liftO (chainO
        [\<lambda>b. zero_at b RB_OFF_DISKNAME 32,
         \<lambda>b. set_idx b RB_OFF_DISKNAME (of_nat len),
         \<lambda>b. copy_at b (RB_OFF_DISKNAME + 1) (take len name_bytes)] cluster)) (\<lambda>cluster.
      bindM next_datestamp (\<lambda>ds.
      bindM (liftO (put_u32 cluster RB_OFF_DATESTAMP ds)) (\<lambda>cluster.
      bindM (getM (\<lambda>w. w)) (\<lambda>w.
      bindM (on_dev (write_blocks (unat (w_firstreserved w)) (unat (rb_rblkcluster (w_rootblock w))) cluster)) (\<lambda>_.
        on_dev flush)))))))))"

section \<open>What is written when\<close>

lemma keeps_get_bitmap_block_nr [keeps]: "preserves (\<lambda>w. w_dev w = d) (get_bitmap_block_nr n)"
  unfolding get_bitmap_block_nr_def by (intro keeps)

lemma keeps_find_dir_entry [keeps]: "preserves (\<lambda>w. w_dev w = d) (find_dir_entry a n)"
  unfolding find_dir_entry_def Let_def by (intro keeps)

lemma keeps_add_dir_entry [keeps]: "preserves (\<lambda>w. w_dev w = d) (add_dir_entry now a n ty an fs pr)"
  unfolding add_dir_entry_def Let_def by (intro keeps)

lemma keeps_remove_dir_entry [keeps]: "preserves (\<lambda>w. w_dev w = d) (remove_dir_entry a n)"
  unfolding remove_dir_entry_def by (intro keeps)

lemma keeps_update_dir_entry_size [keeps]: "preserves (\<lambda>w. w_dev w = d) (update_dir_entry_size now a n s)"
  unfolding update_dir_entry_size_def Let_def by (intro keeps)

lemma keeps_move_to_deldir [keeps]: "preserves (\<lambda>w. w_dev w = d) (move_to_deldir e)"
  unfolding move_to_deldir_def Let_def by (intro keeps)

lemma keeps_dev: "preserves (\<lambda>w. w_dev w = w_dev w0) m \<Longrightarrow> w_dev (snd (m w0)) = w_dev w0"
  by (simp add: preserves_def)

text \<open>
  C14. Metadata changes are held back until the commit: allocation and freeing of blocks and anodes, changes of
  anode chains and of directory entries and the move of an entry to the list of deleted files leave
  every byte of the device as it was, whether they succeed, fail or panic; only the commit and
  the writing of file contents reach the device.
\<close>

theorem metadata_writes_deferred:
  "w_dev (snd (alloc_data_blocks count w)) = w_dev w \<and>
   w_dev (snd (free_data_blocks nr w)) = w_dev w \<and>
   w_dev (snd (create_anode_chain blocks w)) = w_dev w \<and>
   w_dev (snd (append_to_anode_chain nr nr' w)) = w_dev w \<and>
   w_dev (snd (truncate_anode_chain nr keep w)) = w_dev w \<and>
   w_dev (snd (clear_anode_chain nr w)) = w_dev w \<and>
   w_dev (snd (add_dir_entry now dir name ty an fsize pr w)) = w_dev w \<and>
   w_dev (snd (remove_dir_entry dir name w)) = w_dev w \<and>
   w_dev (snd (update_dir_entry_size now dir name fsize w)) = w_dev w \<and>
   w_dev (snd (move_to_deldir entry w)) = w_dev w"
  by (intro conjI keeps_dev keeps)

section \<open>Two panics\<close>

text \<open>
  Opening a writer on a volume whose reserved blocks are smaller than the device's blocks panics: the check
  on the reserved block size admits sizes from 64 on, and the number of sectors per reserved
  block then is zero, by which the number of reserved blocks is divided.
\<close>

lemma Writer_open_small_reserved_panics:
  assumes "unat (rb_reserved_blksize (v_rootblock vol)) < unat (vol_block_size vol)"
  shows "Writer_open vol = Panic"
proof -
  let ?rbs = "ucast (rb_reserved_blksize (v_rootblock vol)) :: u32"
  have "unat ?rbs = unat (rb_reserved_blksize (v_rootblock vol))" by (simp add: unat_ucast_up_simp)
  then have "unat (?rbs div vol_block_size vol) = 0" using assms by (simp add: unat_div)
  then have "?rbs div vol_block_size vol = 0" by (simp add: unat_eq_zero)
  moreover have "vol_block_size vol \<noteq> 0" using assms by auto
  ultimately show ?thesis by (simp add: Writer_open_def divO_def Let_def)
qed

lemma Writer_open_small_reserved_panics_witness:
  "unat (vol_block_size sample_volume) = 128 \<and>
   Writer_open (sample_volume\<lparr>v_rootblock := (v_rootblock sample_volume)\<lparr>rb_reserved_blksize := 64\<rparr>\<rparr>) = Panic"
proof -
  have "unat (vol_block_size sample_volume) = 128"
    by (simp add: vol_block_size_def sample_volume_reader sample_dir_device_def create_def block_size_def)
  then show ?thesis
    using Writer_open_small_reserved_panics
      [of "sample_volume\<lparr>v_rootblock := (v_rootblock sample_volume)\<lparr>rb_reserved_blksize := 64\<rparr>\<rparr>"]
    by (simp add: vol_block_size_def)
qed

lemma str_prefix_ascii: "ascii_str s \<Longrightarrow> n \<le> length s \<Longrightarrow> str_prefix n s = Ok (take n s)"
proof (induction n s rule: str_prefix.induct)
  case (2 n c s)
  have "length (utf8_encode c) = 1" using 2(2) by (simp add: ascii_str_def utf8_encode_def)
  with 2 show ?case by (cases n) (auto simp: ascii_str_def)
qed simp

lemma str_prefix_inside:
  "n < length (as_bytes (p @ [c])) \<Longrightarrow> length (as_bytes p) < n \<Longrightarrow> str_prefix n (p @ c # s) = Panic"
proof (induction p arbitrary: n)
  case (Cons x p)
  have "0 < length (utf8_encode x)" by (simp add: utf8_encode_def)
  with Cons show ?case by (auto simp: less_diff_conv)
qed auto

text \<open>
  Renaming the volume to a name whose thirtieth byte lies inside a character panics before anything is
  written: the name is cut as a string at that byte.
\<close>

lemma set_volume_name_panics:
  assumes "name = p @ c # s" "length (as_bytes p) < 30" "30 < length (as_bytes (p @ [c]))"
  shows "set_volume_name name w = (Panic, w)"
proof -
  have "min (length (as_bytes name)) 30 = 30" using assms by (simp add: as_bytes_def)
  moreover have "str_prefix 30 name = Panic" using str_prefix_inside [OF assms(3,2), of s] assms(1) by simp
  ultimately show ?thesis unfolding set_volume_name_def Let_def by (simp add: bindM_def)
qed

theorem set_volume_name_panics_witness:
  "set_volume_name (replicate 29 97 @ [0xE9]) sample_writer = (Panic, sample_writer)"
  by (rule set_volume_name_panics [of _ "replicate 29 97" "0xE9" "[]"])
    (simp_all add: as_bytes_def utf8_encode_def)

end
