(* ===== verification/Writer_Dir.thy ===== *)
theory Writer_Dir
  imports Writer
begin

text \<open>
  What the writer does to a directory block, seen through the reader.  A well-formed block is a header,
  the entries one after the other, and zeros; the lemmas say that the writer's scans find the
  entries the reader lists, and that adding and removing an entry changes that list as it should.
\<close>

section \<open>Well-formed directory blocks\<close>

definition raw_entry :: "bytes \<Rightarrow> bool" where
  "raw_entry e \<longleftrightarrow> 18 \<le> length e \<and> length e < 256 \<and> e ! 0 = of_nat (length e) \<and>
     18 + unat (e ! 17) \<le> length e"

definition dir_block :: "bytes \<Rightarrow> bytes list \<Rightarrow> nat \<Rightarrow> bytes" where
  "dir_block hdr es k = hdr @ concat es @ replicate k 0"

text \<open>The entry a reader sees in the raw bytes.\<close>

definition parsed :: "bytes \<Rightarrow> dir_entry" where
  "parsed e = fst (the (the_ok (DirEntry_parse e 0)))"

lemma raw_entry_size:
  assumes "raw_entry e"
  shows "unat (e ! 0) = length e" "e ! 0 \<noteq> 0" "e \<noteq> []"
proof -
  show u: "unat (e ! 0) = length e" using assms by (simp add: raw_entry_def unat_of_nat_lt)
  then show "e ! 0 \<noteq> 0" using assms by (auto simp: raw_entry_def)
  show "e \<noteq> []" using assms by (auto simp: raw_entry_def)
qed

lemma at_entry:
  assumes "raw_entry e" "data = pre @ e @ post" "off = length pre"
  shows "idx data off = Ok (e ! 0)" "idx data (off + 17) = Ok (e ! 17)"
    "sliceO data off (off + length e) = Ok e"
    "off < length data" "off + length e \<le> length data"
    "a + n \<le> length e \<Longrightarrow> sliceO data (off + a) (off + a + n) = Ok (bslice e a n)"
  using assms by (auto simp: idx_def sliceO_def bslice_def raw_entry_def nth_append)

lemma DirEntry_parse_at:
  assumes "idx data off = Ok (e ! 0)" "sliceO data off (off + length e) = Ok e"
    and "off < length data" "off + length e \<le> length data" "raw_entry e"
  shows "DirEntry_parse data off =
    bindO (DirEntry_parse e 0) (\<lambda>r. Ok (map_option (\<lambda>(x, _). (x, off + length e)) r))"
proof -
  have "idx e 0 = Ok (e ! 0)" "sliceO e 0 (length e) = Ok e" "18 \<le> length e" "e \<noteq> []"
    using assms(5) by (auto simp: idx_def sliceO_def bslice_def raw_entry_def)
  with assms raw_entry_size [OF assms(5)] show ?thesis
    by (simp add: DirEntry_parse_def Let_def bindO_assoc)
qed

lemma DirEntry_parse_self:
  assumes "raw_entry e"
  shows "DirEntry_parse e 0 = Ok (Some (parsed e, length e))"
    and "de_name (parsed e) = latin1_to_string (bslice e 18 (unat (e ! 17)))"
proof -
  obtain r where r: "DirEntry_parse e 0 = Ok r" using DirEntry_parse_ok by (auto simp: is_ok_iff)
  have e: "idx e 0 = Ok (e ! 0)" "sliceO e 0 (length e) = Ok e" "18 \<le> length e" "e \<noteq> []" "idx e 17 = Ok (e ! 17)"
    "sliceO e 18 (18 + unat (e ! 17)) = Ok (bslice e 18 (unat (e ! 17)))" "18 + unat (e ! 17) \<le> length e"
    using assms by (auto simp: idx_def sliceO_def bslice_def raw_entry_def)
  then obtain x where x: "r = Some (x, length e)" "de_name x = latin1_to_string (bslice e 18 (unat (e ! 17)))"
    using r raw_entry_size [OF assms] by (auto simp: DirEntry_parse_def Let_def bindO_eq_Ok min_absorb1)
  then show "DirEntry_parse e 0 = Ok (Some (parsed e, length e))"
    "de_name (parsed e) = latin1_to_string (bslice e 18 (unat (e ! 17)))"
    using r by (simp_all add: parsed_def)
qed

lemma DirEntry_parse_entry:
  assumes "raw_entry e" "data = pre @ e @ post" "off = length pre"
  shows "DirEntry_parse data off = Ok (Some (parsed e, off + length e))"
  using DirEntry_parse_at [OF at_entry(1,3,4,5) [OF assms] assms(1)] DirEntry_parse_self(1) [OF assms(1)] by simp

section \<open>The scans over a block\<close>

text \<open>The offset of the first raw entry with a property, when the entries start at \<open>pos\<close>.\<close>

fun find_pos :: "(bytes \<Rightarrow> bool) \<Rightarrow> nat \<Rightarrow> bytes list \<Rightarrow> nat option" where
  "find_pos P pos [] = None"
| "find_pos P pos (e # es) = (if P e then Some pos else find_pos P (pos + length e) es)"

lemma zero_at_end:
  "data = pre @ replicate k 0 \<Longrightarrow>
   idx data (length pre) = (if length pre < length data then Ok (0 :: u8) else Panic)"
  by (auto simp: idx_def nth_append)

lemma parse_entries_block:
  assumes "list_all raw_entry es" "data = pre @ concat es @ replicate k 0"
  shows "parse_entries_from data (length pre) = Ok (map parsed es)"
  using assms
proof (induction es arbitrary: pre)
  case Nil
  then show ?case
    using zero_at_end [of data pre k] by (subst parse_entries_from.simps) (simp add: DirEntry_parse_def)
next
  case (Cons e es)
  have e: "raw_entry e" "data = pre @ e @ (concat es @ replicate k 0)" using Cons.prems by simp_all
  have "parse_entries_from data (length (pre @ e)) = Ok (map parsed es)"
    using Cons.prems by (intro Cons.IH) simp_all
  with DirEntry_parse_entry [OF e refl] at_entry(4) [OF e refl] show ?case
    by (simp add: parse_entries_from.simps [of data "length pre"])
qed

lemma find_in_block_pos:
  assumes "list_all raw_entry es" "data = pre @ concat es @ replicate k 0"
  shows "find_in_block data (length data) name (length pre) =
    Ok (find_pos (\<lambda>e. name_eq_ci (de_name (parsed e)) name) (length pre) es)"
  using assms
proof (induction es arbitrary: pre)
  case Nil
  then show ?case
    using zero_at_end [of data pre k] by (subst find_in_block.simps) (simp)
next
  case (Cons e es)
  have e: "raw_entry e" "data = pre @ e @ (concat es @ replicate k 0)" using Cons.prems by simp_all
  have IH: "find_in_block data (length data) name (length (pre @ e)) =
      Ok (find_pos (\<lambda>e. name_eq_ci (de_name (parsed e)) name) (length (pre @ e)) es)"
    using Cons.prems by (intro Cons.IH) simp_all
  have "18 + unat (e ! 17) \<le> length e" using e(1) by (simp add: raw_entry_def)
  with IH at_entry [OF e refl] raw_entry_size [OF e(1)] DirEntry_parse_self(2) [OF e(1)] show ?case
    by (simp add: find_in_block.simps [of data "length data" name "length pre"])
qed

lemma entries_end_pos:
  assumes "list_all raw_entry es" "data = pre @ concat es @ replicate k 0"
  shows "entries_end data (length data) (length pre) = Ok (length pre + length (concat es))"
  using assms
proof (induction es arbitrary: pre)
  case Nil
  then show ?case
    using zero_at_end [of data pre k] by (subst entries_end.simps) (simp)
next
  case (Cons e es)
  have e: "raw_entry e" "data = pre @ e @ (concat es @ replicate k 0)" using Cons.prems by simp_all
  have IH: "entries_end data (length data) (length (pre @ e)) = Ok (length (pre @ e) + length (concat es))"
    using Cons.prems by (intro Cons.IH) simp_all
  with at_entry [OF e refl] raw_entry_size [OF e(1)] show ?case
    by (simp add: entries_end.simps [of data "length data" "length pre"])
qed

lemma find_pos_Some:
  "find_pos P pos es = Some q \<Longrightarrow>
   \<exists>xs e ys. es = xs @ e # ys \<and> P e \<and> (\<forall>x \<in> set xs. \<not> P x) \<and> q = pos + length (concat xs)"
proof (induction es arbitrary: pos)
  case (Cons x es)
  show ?case
  proof (cases "P x")
    case True
    with Cons.prems show ?thesis by (intro exI [of _ "[]"] exI [of _ x] exI [of _ es]) simp
  next
    case False
    with Cons.prems Cons.IH [of "pos + length x"] obtain xs e ys where
      "es = xs @ e # ys" "P e" "\<forall>x \<in> set xs. \<not> P x" "q = pos + length x + length (concat xs)" by auto
    with False show ?thesis by (intro exI [of _ "x # xs"] exI [of _ e] exI [of _ ys]) simp
  qed
qed simp

lemma find_pos_None: "find_pos P pos es = None \<longleftrightarrow> (\<forall>e \<in> set es. \<not> P e)"
  by (induction es arbitrary: pos) auto

section \<open>Adding and removing entries\<close>

lemma splice_mid: "length ys = length b \<Longrightarrow> off = length a \<Longrightarrow> splice (a @ b @ c) off ys = a @ ys @ c"
  by (rule nth_equalityI) (auto simp: splice_def nth_append)

lemma copy_at_mid:
  "length ys = length b \<Longrightarrow> off = length a \<Longrightarrow> copy_at (a @ b @ c) off ys = Ok (a @ ys @ c)"
  by (subst copy_at_Ok) (simp_all add: splice_mid)

lemma replicate_split: "n \<le> k \<Longrightarrow> replicate k x = replicate n x @ replicate (k - n) x"
  by (simp flip: replicate_add)

lemma built_entry_raw:
  assumes "build_dir_entry now name ty an fsize pr = Ok e"
  shows "raw_entry e" "parsed e = entry_of now name ty an fsize pr"
proof -
  obtain d m t where t: "current_amiga_datestamp now = (d, m, t)" by (metis prod_cases3)
  let ?n = "min (length (as_bytes name)) 107"
  from build_dir_entry_layout [OF t, of name ty an fsize pr] assms
  have e: "length e = entry_size_of name fsize" "e ! 0 = of_nat (length e)" "e ! 17 = of_nat ?n" by auto
  have "unat (of_nat ?n :: u8) = ?n" by (rule unat_of_nat_lt) simp
  then show "raw_entry e"
    using e entry_size_of_bounds [of name fsize]
    by (simp add: raw_entry_def) (simp add: entry_size_of_def Let_def)
  have "bslice e 0 (length e) = e" by (simp add: bslice_def)
  with parse_built_entry [OF assms, of 0 e] show "parsed e = entry_of now name ty an fsize pr"
    by (simp add: parsed_def)
qed

text \<open>
  C6. Adding an entry to a directory block adds it to what a reader lists.  On a well-formed block,
  \<open>append_entry\<close> with a built entry succeeds exactly when the entry and a terminator fit; the
  block stays well-formed with its header unchanged, and the listing is the old one with the
  new entry, as it was built, at the end.
\<close>

theorem append_entry_listed:
  assumes "length hdr = DIR_BLOCK_HEADER_SIZE" "list_all raw_entry es"
    and "build_dir_entry now name ty an fsize pr = Ok e"
  shows "append_entry (dir_block hdr es k) (length (dir_block hdr es k)) e =
      Ok (if length e < k then Some (dir_block hdr (es @ [e]) (k - length e)) else None) \<and>
    (length e < k \<longrightarrow>
      parse_dirblock_entries (dir_block hdr (es @ [e]) (k - length e)) =
        bindO (parse_dirblock_entries (dir_block hdr es k)) (\<lambda>old.
          Ok (old @ [entry_of now name ty an fsize pr])))"
proof -
  note e = built_entry_raw [OF assms(3)]
  let ?data = "dir_block hdr es k"
  let ?pos = "DIR_BLOCK_HEADER_SIZE + length (concat es)"
  have fin: "entries_end ?data (length ?data) DIR_BLOCK_HEADER_SIZE = Ok ?pos"
    using entries_end_pos [OF assms(2), of ?data hdr k] assms(1) by (simp add: dir_block_def)
  have len: "length ?data = ?pos + k" using assms(1) by (simp add: dir_block_def)
  have put: "copy_at ?data ?pos e = Ok (dir_block hdr (es @ [e]) (k - length e))" if "length e < k"
    using that assms(1) copy_at_mid [of e "replicate (length e) 0" ?pos "hdr @ concat es" "replicate (k - length e) 0"]
    by (simp add: dir_block_def replicate_split [of "length e" k])
  have stop: "set_idx (dir_block hdr (es @ [e]) (k - length e)) (?pos + length e) 0 =
      Ok (dir_block hdr (es @ [e]) (k - length e))" if "length e < k"
  proof -
    from that obtain j where "k - length e = Suc j" by (metis Suc_diff_Suc)
    then show ?thesis
      using assms(1) splice_mid [of "[0]" "[0]" "?pos + length e" "hdr @ concat es @ e" "replicate j 0"]
      by (simp add: dir_block_def set_idx_Ok)
  qed
  have "parse_dirblock_entries (dir_block hdr (es @ [e]) k') = Ok (map parsed (es @ [e]))" for k'
    using parse_entries_block [of "es @ [e]" _ hdr k'] assms(1,2) e(1)
    by (simp add: parse_dirblock_entries_def dir_block_def)
  moreover have "parse_dirblock_entries ?data = Ok (map parsed es)"
    using parse_entries_block [of es _ hdr k] assms(1,2) by (simp add: parse_dirblock_entries_def dir_block_def)
  moreover have "append_entry ?data (length ?data) e =
      Ok (if length e < k then Some (dir_block hdr (es @ [e]) (k - length e)) else None)"
    using fin len put stop by (simp add: append_entry_def)
  ultimately show ?thesis using e(2) by simp
qed

theorem append_entry_listed_witness:
  "\<exists>e. build_dir_entry 0 (rs ''a'') ST_FILE 7 0 0 = Ok e \<and>
     append_entry (dir_block (replicate 20 0) [] 100) 120 e =
       Ok (Some (dir_block (replicate 20 0) [e] (100 - length e))) \<and>
     parse_dirblock_entries (dir_block (replicate 20 0) [e] (100 - length e)) =
       Ok [entry_of 0 (rs ''a'') ST_FILE 7 0 0]"
proof -
  obtain d m t where "current_amiga_datestamp 0 = (d, m, t)" by (metis prod_cases3)
  then obtain e where e: "build_dir_entry 0 (rs ''a'') ST_FILE 7 0 0 = Ok e" "length e = entry_size_of (rs ''a'') 0"
    using build_dir_entry_layout [of 0 d m t "rs ''a''" ST_FILE 7 0 0] by blast
  have len: "length e < 100" by (simp add: e(2) entry_size_of_def rs_def utf8_encode_def)
  have old: "parse_dirblock_entries (dir_block (replicate 20 0) [] 100) = Ok []"
    using parse_entries_block [of "[]" _ "replicate 20 0" 100]
    by (simp add: parse_dirblock_entries_def dir_block_def DIR_BLOCK_HEADER_SIZE_def)
  have "length (replicate 20 (0 :: u8)) = DIR_BLOCK_HEADER_SIZE" by (simp add: DIR_BLOCK_HEADER_SIZE_def)
  from append_entry_listed [OF this _ e(1), of "[]" 100] len old
  show ?thesis using e(1) by (auto simp: dir_block_def)
qed

lemma cut_entry_block:
  assumes "length hdr = DIR_BLOCK_HEADER_SIZE" "raw_entry e"
  shows "cut_entry (dir_block hdr (xs @ e # ys) k) (length (dir_block hdr (xs @ e # ys) k))
      (DIR_BLOCK_HEADER_SIZE + length (concat xs)) = Ok (dir_block hdr (xs @ ys) (k + length e))"
proof -
  let ?pre = "hdr @ concat xs" and ?post = "concat ys @ replicate k (0 :: u8)"
  let ?pos = "DIR_BLOCK_HEADER_SIZE + length (concat xs)"
  let ?data = "?pre @ e @ ?post"
  have data: "dir_block hdr (xs @ e # ys) k = ?data" by (simp add: dir_block_def)
  have pos: "?pos = length ?pre" using assms(1) by simp
  note at = at_entry [where post = ?post, OF assms(2) refl pos]
  have rest: "sliceO ?data (?pos + length e) (?pos + length e + length ?post) = Ok ?post"
    using assms(1) by (simp add: sliceO_def bslice_def)
  define a where "a = take (length ?post) (e @ ?post)"
  define b where "b = drop (length ?post) (e @ ?post)"
  have ab: "e @ ?post = a @ b" "length a = length ?post" "length b = length e"
    unfolding a_def b_def by (rule append_take_drop_id [symmetric], simp_all)
  have cp: "copy_at ?data ?pos ?post = Ok (?pre @ ?post @ b)"
    using copy_at_mid [OF ab(2) [symmetric] pos, of b] ab(1) by simp
  have "zero_at (?pre @ ?post @ b) (?pos + length ?post) (length e) = Ok (?pre @ ?post @ replicate (length e) 0)"
    using copy_at_mid [of "replicate (length e) 0" b "?pos + length ?post" "?pre @ ?post" "[]"] ab(3) pos
    by (simp add: zero_at_def)
  with at rest cp show ?thesis
    using raw_entry_size [OF assms(2)] assms(1)
    by (simp add: data cut_entry_def Let_def) (simp add: dir_block_def replicate_add [symmetric] add.commute)
qed

text \<open>
  C7. The writer finds and removes the entry the reader would find.  On a well-formed block the scan for a
  name returns the offset of the first listed entry with that name, if there is one; cutting the
  block there leaves a block of the same size whose listing lacks exactly that entry.
\<close>

theorem remove_entry_listed:
  assumes "length hdr = DIR_BLOCK_HEADER_SIZE" "list_all raw_entry es" "data = dir_block hdr es k"
  shows "\<exists>old. parse_dirblock_entries data = Ok old \<and>
    (case find_in_block data (length data) name DIR_BLOCK_HEADER_SIZE of
       Ok None \<Rightarrow> \<forall>x \<in> set old. \<not> name_eq_ci (de_name x) name
     | Ok (Some pos) \<Rightarrow> \<exists>xs e ys data'. old = xs @ e # ys \<and> name_eq_ci (de_name e) name \<and>
         (\<forall>x \<in> set xs. \<not> name_eq_ci (de_name x) name) \<and>
         (\<exists>n. DirEntry_parse data pos = Ok (Some (e, n))) \<and>
         cut_entry data (length data) pos = Ok data' \<and> length data' = length data \<and>
         parse_dirblock_entries data' = Ok (xs @ ys)
     | _ \<Rightarrow> False)"
proof -
  let ?P = "\<lambda>e. name_eq_ci (de_name (parsed e)) name"
  have list: "parse_dirblock_entries (dir_block hdr es' k') = Ok (map parsed es')" if "list_all raw_entry es'" for es' k'
    using parse_entries_block [OF that, of _ hdr k'] assms(1) by (simp add: parse_dirblock_entries_def dir_block_def)
  have f: "find_in_block data (length data) name DIR_BLOCK_HEADER_SIZE = Ok (find_pos ?P DIR_BLOCK_HEADER_SIZE es)"
    using find_in_block_pos [OF assms(2), of data hdr k name] assms(1,3) by (simp add: dir_block_def)
  show ?thesis
  proof (cases "find_pos ?P DIR_BLOCK_HEADER_SIZE es")
    case None
    then have "\<forall>e \<in> set es. \<not> ?P e" by (simp add: find_pos_None)
    with None f list [OF assms(2), of k] assms(3) show ?thesis by auto
  next
    case (Some pos)
    then obtain xs e ys where s: "es = xs @ e # ys" "?P e" "\<forall>x \<in> set xs. \<not> ?P x"
        "pos = DIR_BLOCK_HEADER_SIZE + length (concat xs)"
      using find_pos_Some by blast
    have e: "raw_entry e" "list_all raw_entry (xs @ ys)" using assms(2) s(1) by simp_all
    have "DirEntry_parse data pos = Ok (Some (parsed e, pos + length e))"
      by (rule DirEntry_parse_entry [OF e(1), of _ "hdr @ concat xs" "concat ys @ replicate k 0"])
        (simp_all add: assms(1,3) s dir_block_def)
    moreover have "cut_entry data (length data) pos = Ok (dir_block hdr (xs @ ys) (k + length e))"
      unfolding assms(3) s(1,4) by (rule cut_entry_block [OF assms(1) e(1)])
    moreover have "length (dir_block hdr (xs @ ys) (k + length e)) = length data"
      by (simp add: assms(3) s(1) dir_block_def)
    ultimately show ?thesis
      using f Some list [OF assms(2)] list [OF e(2), of "k + length e"] s(1-3) assms(3)
      by (intro exI [of _ "map parsed es"] conjI)
        (simp_all, intro exI [of _ "map parsed xs"] exI [of _ "parsed e"] exI [of _ "map parsed ys"] conjI, auto)
  qed
qed

theorem remove_entry_listed_witness:
  "\<exists>e data'. raw_entry e \<and> de_name (parsed e) = rs ''a'' \<and>
     find_in_block (dir_block (replicate 20 0) [e] 9) (length (dir_block (replicate 20 0) [e] 9)) (rs ''A'') 20 = Ok (Some 20) \<and>
     cut_entry (dir_block (replicate 20 0) [e] 9) (length (dir_block (replicate 20 0) [e] 9)) 20 = Ok data' \<and>
     parse_dirblock_entries data' = Ok []"
proof -
  obtain d m t where "current_amiga_datestamp 0 = (d, m, t)" by (metis prod_cases3)
  then obtain e where e: "build_dir_entry 0 (rs ''a'') ST_FILE 7 0 0 = Ok e"
    using build_dir_entry_layout [of 0 d m t "rs ''a''" ST_FILE 7 0 0] by blast
  note raw = built_entry_raw [OF e]
  have name: "de_name (parsed e) = rs ''a''"
    using raw(2) by (simp add: entry_of_def rs_def utf8_encode_def latin1_to_string_def split: prod.splits)
  have ci: "name_eq_ci (rs ''a'') (rs ''A'')" by (simp add: name_eq_ci_def rs_def utf8_encode_def ascii_lower_def)
  let ?b = "dir_block (replicate 20 0) [e] 9"
  have hdr: "length (replicate 20 (0 :: u8)) = DIR_BLOCK_HEADER_SIZE" by (simp add: DIR_BLOCK_HEADER_SIZE_def)
  have f: "find_in_block ?b (length ?b) (rs ''A'') 20 = Ok (Some 20)"
    using find_in_block_pos [of "[e]" ?b "replicate 20 0" 9 "rs ''A''"] raw(1) name ci by (simp add: dir_block_def)
  have old: "parse_dirblock_entries ?b = Ok [parsed e]"
    using parse_entries_block [of "[e]" ?b "replicate 20 0" 9] raw(1)
    by (simp add: parse_dirblock_entries_def dir_block_def DIR_BLOCK_HEADER_SIZE_def)
  have "list_all raw_entry [e]" using raw(1) by simp
  from remove_entry_listed [OF hdr this refl, of 9 "rs ''A''"] f old
  obtain data' where "cut_entry ?b (length ?b) 20 = Ok data'" "parse_dirblock_entries data' = Ok []"
    by (auto simp: DIR_BLOCK_HEADER_SIZE_def Cons_eq_append_conv)
  with raw(1) name f show ?thesis by blast
qed

section \<open>The list of deleted files\<close>

lemma bslice_bslice: "a + n \<le> m \<Longrightarrow> bslice (bslice xs off m) a n = bslice xs (off + a) n"
  unfolding bslice_def drop_take take_take drop_drop by (simp add: add.commute)

lemma splice_zero_pad:
  assumes "off + n \<le> length xs" "length ys \<le> n"
  shows "splice (splice xs off (replicate n 0)) off ys = splice xs off (ys @ replicate (n - length ys) 0)"
  using assms by (intro nth_equalityI) (auto simp: nth_splice nth_append)

lemma trim_end_nul_pad: "s = [] \<or> last s \<noteq> 0 \<Longrightarrow> trim_end_nul (s @ replicate k 0) = s"
  by (cases s rule: rev_cases) (auto simp: trim_end_nul_def dropWhile_append)

text \<open>
  C39. A deleted file stays recoverable: the record that the writer puts into a slot of a deleted-files block
  is parsed back with the anode, the dates and the low 48 bits of the size of the deleted entry,
  and with its name when that is at most 16 ASCII characters.
\<close>

theorem deldir_entry_roundtrip:
  assumes "off + 32 \<le> length block" "de_anode entry \<noteq> 0"
  shows "\<exists>b dd. write_deldir_entry block off entry = Ok b \<and> length b = length block \<and>
    DelDirEntry_parse (bslice b off 32) = Ok (Some dd) \<and> dd_anode dd = de_anode entry \<and>
    dd_creation_day dd = de_creation_day entry \<and> dd_creation_minute dd = de_creation_minute entry \<and>
    dd_creation_tick dd = de_creation_tick entry \<and>
    DelDirEntry_file_size dd = take_bit 48 (file_size entry) \<and>
    (ascii_str (de_name entry) \<and> length (de_name entry) \<le> 16 \<and>
      (de_name entry = [] \<or> last (de_name entry) \<noteq> 0) \<longrightarrow> dd_filename dd = de_name entry)"
proof -
  define nm where "nm = take (min (length (as_bytes (de_name entry))) 16) (as_bytes (de_name entry))"
  have nm: "length nm \<le> 16" by (simp add: nm_def)
  define b where "b =
    splice (splice (splice (splice (splice (splice (splice block
      off (u32_to_be (de_anode entry))) (off + 4) (u32_to_be (ucast (file_size entry))))
      (off + 8) (u16_to_be (de_creation_day entry))) (off + 10) (u16_to_be (de_creation_minute entry)))
      (off + 12) (u16_to_be (de_creation_tick entry))) (off + 14) (nm @ replicate (16 - length nm) 0))
      (off + 30) (u16_to_be (ucast (drop_bit 32 (file_size entry))))"
  have w: "write_deldir_entry block off entry = Ok b"
    using assms(1) nm unfolding write_deldir_entry_def Let_def nm_def [symmetric]
    by (simp add: zero_at_Ok copy_at_Ok splice_zero_pad b_def)
  have len: "length b = length block" by (simp add: b_def)
  have fields: "be32 b off = Ok (de_anode entry)" "be32 b (off + 4) = Ok (ucast (file_size entry))"
    "be16 b (off + 8) = Ok (de_creation_day entry)" "be16 b (off + 10) = Ok (de_creation_minute entry)"
    "be16 b (off + 12) = Ok (de_creation_tick entry)" "bslice b (off + 14) 16 = nm @ replicate (16 - length nm) 0"
    "be16 b (off + 30) = Ok (ucast (drop_bit 32 (file_size entry)))"
    using assms(1) nm by (simp_all add: b_def bytes_simps)
  have name: "trim_end_nul (latin1_to_string (nm @ replicate (16 - length nm) 0)) = de_name entry"
    if "ascii_str (de_name entry)" "length (de_name entry) \<le> 16" "de_name entry = [] \<or> last (de_name entry) \<noteq> 0"
    using that latin1_ascii [of "de_name entry"] as_bytes_ascii [of "de_name entry"] trim_end_nul_pad [of "de_name entry"]
    by (simp add: nm_def latin1_to_string_def)
  show ?thesis
    using assms w len fields name
    by (simp add: DelDirEntry_parse_def bytes_simps sliceO_Ok bslice_bslice DelDirEntry_file_size_def join_size_split)
qed

theorem deldir_entry_roundtrip_witness:
  "\<exists>b dd. write_deldir_entry (replicate 64 9) 32 (entry_of 0 (rs ''a'') ST_FILE 7 600 0) = Ok b \<and>
     DelDirEntry_parse (bslice b 32 32) = Ok (Some dd) \<and> dd_anode dd = 7 \<and> dd_filename dd = rs ''a''"
proof -
  let ?e = "entry_of 0 (rs ''a'') ST_FILE 7 600 0"
  have "32 + 32 \<le> length (replicate 64 (9 :: u8))" "de_anode ?e \<noteq> 0" "de_anode ?e = 7" "de_name ?e = rs ''a''"
    by (simp_all add: entry_of_def rs_def utf8_encode_def latin1_to_string_def split: prod.splits)
  moreover have "ascii_str (rs ''a'')" "length (rs ''a'') \<le> 16" "last (rs ''a'') \<noteq> 0"
    by (simp_all add: ascii_str_def rs_def)
  ultimately show ?thesis using deldir_entry_roundtrip [of 32 "replicate 64 9" ?e] by auto
qed

end
