(* ===== verification/Writer_Data.thy ===== *)
theory Writer_Data
  imports Writer Writer_Bitmap
begin

text \<open>
  The contents of files (\<^verbatim>\<open>writer.rs\<close>, the data part of \<open>write_file_in_no_commit\<close>): what the writer stores
  is what the reader returns, and storing it changes no block that was in use.
\<close>

section \<open>Sectors on the device\<close>

lemma read_data_block_exact: "read_data_block d b = read_exact d b 1"
  by (simp add: read_block_def read_exact_def)

lemma on_dev_run:
  "on_dev m w = (case m (w_dev w) of (r, d) \<Rightarrow> (r, w\<lparr>w_vol := (w_vol w)\<lparr>v_dev := d\<rparr>\<rparr>))"
  by (auto simp: on_dev_def on_vol_def zoomM_def w_dev_def split: prod.split)

lemma write_block_device:
  assumes "write_block b data d = (Ok (), d')" "length data = unat (block_size d)"
  shows "block_size d' = block_size d" "read_data_block d' b = Ok data"
    "a \<noteq> b \<Longrightarrow> read_data_block d a = Ok xs \<Longrightarrow> read_data_block d' a = Ok xs"
proof -
  note w = assms(1) [unfolded write_block_def]
  show "block_size d' = block_size d"
    using write_blocks_Ok [OF w] by (simp add: block_size_def)
  show "read_data_block d' b = Ok data"
    using file_dev.rd_wr_same [OF w] assms(2) by (simp add: read_data_block_exact)
  show "a \<noteq> b \<Longrightarrow> read_data_block d a = Ok xs \<Longrightarrow> read_data_block d' a = Ok xs"
    using file_dev.rd_wr_other [OF w, of a 1 xs] by (simp add: read_data_block_exact) linarith
qed

lemma write_sectors_device:
  assumes "write_sectors data bs k bl w = (Ok (), w')" "bs = unat (block_size (w_dev w))" "distinct bl"
  shows "block_size (w_dev w') = block_size (w_dev w) \<and>
    (\<forall>i<length bl. read_data_block (w_dev w') (bl ! i) = Ok (sector_of data bs ((k + i) * bs))) \<and>
    (\<forall>b xs. b \<notin> set bl \<longrightarrow> read_data_block (w_dev w) b = Ok xs \<longrightarrow> read_data_block (w_dev w') b = Ok xs)"
  using assms
proof (induction bl arbitrary: k w)
  case (Cons b bl)
  obtain w1 where w1: "on_dev (write_block b (sector_of data bs (k * bs))) w = (Ok (), w1)"
      "write_sectors data bs (k + 1) bl w1 = (Ok (), w')"
    using Cons.prems(1) by (auto simp: bindM_eq_Ok)
  then have wr: "write_block b (sector_of data bs (k * bs)) (w_dev w) = (Ok (), w_dev w1)"
    by (auto simp: on_dev_run w_dev_def split: prod.splits)
  have len: "length (sector_of data bs (k * bs)) = unat (block_size (w_dev w))" using Cons.prems(2) by simp
  note step = write_block_device [OF wr len]
  have bs1: "bs = unat (block_size (w_dev w1))" and dist: "distinct bl" using Cons.prems(2,3) step(1) by simp_all
  have IH: "block_size (w_dev w') = block_size (w_dev w1)"
      "\<And>i. i < length bl \<Longrightarrow> read_data_block (w_dev w') (bl ! i) = Ok (sector_of data bs ((k + 1 + i) * bs))"
      "\<And>b xs. b \<notin> set bl \<Longrightarrow> read_data_block (w_dev w1) b = Ok xs \<Longrightarrow> read_data_block (w_dev w') b = Ok xs"
    using Cons.IH [OF w1(2) bs1 dist] by blast+
  have "read_data_block (w_dev w') ((b # bl) ! i) = Ok (sector_of data bs ((k + i) * bs))"
    if "i < length (b # bl)" for i
  proof (cases i)
    case 0
    with IH(3) [OF _ step(2)] Cons.prems(3) show ?thesis by simp
  next
    case (Suc j)
    with IH(2) [of j] that show ?thesis by simp
  qed
  moreover have "read_data_block (w_dev w') a = Ok xs"
    if "a \<notin> set (b # bl)" "read_data_block (w_dev w) a = Ok xs" for a xs
    using that IH(3) step(3) by simp
  ultimately show ?case using trans [OF IH(1) step(1)] by blast
qed simp

lemma read_extent_readable:
  assumes "\<forall>b\<in>set bl. is_ok (read_data_block d b)"
  shows "read_extent d bl (acc, n) =
    Ok (acc @ take n (blocks_content d bl), n - length bl * unat (block_size d))"
  using assms
proof (induction bl arbitrary: acc n)
  case (Cons b bl)
  obtain x where x: "read_data_block d b = Ok x" using Cons.prems by (auto simp: is_ok_iff)
  have len: "length x = unat (block_size d)" using length_read_block [OF x] by simp
  show ?case
    using Cons x len block_content_Ok [OF x]
    by (cases "n = 0") (auto simp: Let_def sliceO_def bslice_def min_def)
qed simp

lemma write_sectors_readback:
  assumes "write_sectors data bs 0 bl w = (Ok (), w')" "bs = unat (block_size (w_dev w))" "distinct bl"
    "length data \<le> length bl * bs"
  shows "read_extent (w_dev w') bl ([], length data) = Ok (data, 0)"
proof -
  note dev = write_sectors_device [OF assms(1-3)]
  have bs: "unat (block_size (w_dev w')) = bs" using dev assms(2) by simp
  have rd: "read_data_block (w_dev w') (bl ! i) = Ok (sector_of data bs (i * bs))" if "i < length bl" for i
    using dev [THEN conjunct2, THEN conjunct1, rule_format, OF that] by (simp only: add_0)
  then have "\<forall>b\<in>set bl. is_ok (read_data_block (w_dev w') b)"
    by (auto simp: in_set_conv_nth)
  note re = read_extent_readable [OF this, of "[]" "length data"]
  have "map (block_content (w_dev w')) bl = map (\<lambda>i. sector_of data bs (i * bs)) [0..<length bl]"
    by (intro nth_equalityI) (simp_all add: block_content_Ok [OF rd])
  then have "blocks_content (w_dev w') bl = data @ replicate (length bl * bs - length data) 0"
    using concat_sectors [OF assms(4)] by (simp add: blocks_content_def)
  then show ?thesis using re bs assms(4) by simp
qed

section \<open>Storing a file\<close>

lemma div_ceil_lt: "0 < b \<Longrightarrow> a \<le> (m - 1) * b \<Longrightarrow> 0 < m \<Longrightarrow> div_ceil a b < m"
proof -
  assume b: "0 < b" and a: "a \<le> (m - 1) * b" and m: "0 < m"
  have le: "a div b \<le> m - 1" using div_le_mono [OF a, of b] b by simp
  show "div_ceil a b < m"
  proof (cases "a mod b = 0")
    case False
    then have "a div b * b < a" using div_mult_mod_eq [of a b] by linarith
    then have "a div b < m - 1" using a by (metis mult_less_cancel2 order_less_le_trans)
    with False show ?thesis by (simp add: div_ceil_def)
  qed (use le m in \<open>simp add: div_ceil_def\<close>)
qed

lemma div_ceil_covers: "0 < b \<Longrightarrow> a \<le> div_ceil a b * b"
proof (cases "a mod b = 0")
  case False
  assume "0 < b"
  then have "a mod b < b" by simp
  then have "a \<le> b + a div b * b" using div_mult_mod_eq [of a b] by linarith
  with False show ?thesis by (simp add: div_ceil_def)
next
  case True
  then show ?thesis using div_mult_mod_eq [of a b] by (simp add: div_ceil_def)
qed

lemma alloc_length:
  assumes "alloc_data_blocks (of_nat n) w = (Ok blocks, w')" "data_bm_ok w" "0 < n" "n < 2 ^ 32"
  shows "length blocks = n"
proof -
  have d: "distinct blocks" and c: "(of_nat (length blocks) :: u32) = of_nat n"
    using alloc_data_blocks_result [OF assms(1,2)] by blast+
  have n: "unat (of_nat n :: u32) = n" using assms(4) by (intro unat_of_nat_lt) simp
  have "length blocks = card (unat ` set blocks)"
    using d by (simp add: card_image [OF inj_unat] distinct_card)
  also have "\<dots> \<le> card {..<2 ^ 32 :: nat}"
  proof (rule card_mono)
    show "unat ` set blocks \<subseteq> {..<2 ^ 32}" using unat_lt_2p [where 'a = 32] by auto
  qed simp
  finally have le: "length blocks \<le> 2 ^ 32" by simp
  have "unat (of_nat (length blocks) :: u32) = length blocks mod 2 ^ 32" by (simp add: unat_of_nat)
  then have "length blocks mod 2 ^ 32 = n" using c n by simp
  with le assms(3) show ?thesis by (cases "length blocks = 2 ^ 32") auto
qed

text \<open>
  C8. Storing a file never overwrites data and stores what was given: when \<open>store_data\<close> succeeds on a
  well-formed bitmap, it has written to different blocks that were free, reading any anode chain over
  these blocks returns the data, and every block of the device outside them reads as before.
\<close>

theorem store_data_readback:
  assumes "store_data data w = (Ok nr, w')" "data_bm_ok w"
    "length data \<le> (2 ^ 32 - 1) * unat (vol_block_size (w_vol w))"
  shows "\<exists>blocks. distinct blocks \<and>
    (\<forall>b\<in>set blocks. w_bitmapstart w \<le> b \<and> unat b - unat (w_bitmapstart w) \<in> data_free w) \<and>
    (\<exists>w1. create_anode_chain blocks w1 = (Ok nr, w')) \<and>
    (\<forall>chain. chain_blocks chain = map unat blocks \<longrightarrow>
       read_extents (w_dev w') chain ([], length data) = Ok (data, 0)) \<and>
    (\<forall>b xs. b \<notin> unat ` set blocks \<longrightarrow> read_data_block (w_dev w) b = Ok xs \<longrightarrow>
       read_data_block (w_dev w') b = Ok xs)"
proof -
  let ?bs = "unat (vol_block_size (w_vol w))"
  let ?n = "max (div_ceil (length data) ?bs) 1"
  obtain blocks w1 w2 where pos: "?bs \<noteq> 0" and al: "alloc_data_blocks (of_nat ?n) w = (Ok blocks, w1)"
      and ws: "write_sectors data ?bs 0 (map unat blocks) w1 = (Ok (), w2)"
      and cr: "create_anode_chain blocks w2 = (Ok nr, w')"
    using assms(1)
    by (auto simp: store_data_def blocks_needed_def bindM_eq_Ok on_dev_flush split: if_splits)
  have "div_ceil (length data) ?bs < 2 ^ 32"
    using assms(3) pos by (intro div_ceil_lt) simp_all
  then have n: "?n < 2 ^ 32" by simp
  note alloc = alloc_data_blocks_result [OF al assms(2)]
  have len: "length blocks = ?n" by (rule alloc_length [OF al assms(2) _ n]) simp
  have dev1: "w_dev w1 = w_dev w" using alloc by blast
  then have bs: "?bs = unat (block_size (w_dev w1))" by (simp add: vol_block_size_def w_dev_def)
  have dist: "distinct (map unat blocks)" using alloc by (simp add: distinct_map inj_unat)
  have "length data \<le> div_ceil (length data) ?bs * ?bs" using pos by (intro div_ceil_covers) simp
  also have "\<dots> \<le> ?n * ?bs" by (intro mult_le_mono1) simp
  finally have le: "length data \<le> length (map unat blocks) * ?bs" using len by simp
  have dev2: "w_dev w' = w_dev w2"
    using keeps_dev [OF keeps_create_anode_chain, of blocks w2] cr by simp
  note rb = write_sectors_readback [OF ws bs dist le] write_sectors_device [OF ws bs dist]
  have "read_extents (w_dev w') chain ([], length data) = Ok (data, 0)" if "chain_blocks chain = map unat blocks" for chain
    using rb(1) that by (simp add: read_extents_flat dev2)
  moreover have "read_data_block (w_dev w') b = Ok xs"
    if "b \<notin> unat ` set blocks" "read_data_block (w_dev w) b = Ok xs" for b xs
    using rb(2) [THEN conjunct2, THEN conjunct2, rule_format, of b xs] that by (simp add: dev1 dev2)
  ultimately show ?thesis
    using alloc cr by (intro exI [of _ blocks]) (auto simp: image_subset_iff)
qed

text \<open>The sample volume with four data blocks behind it, of which blocks 5 and 6 are free.\<close>

definition sample_file_device :: device where
  "sample_file_device = sample_dir_device
     \<lparr>d_contents := d_contents sample_dir_device @ replicate 512 0, d_total_blocks := 8\<rparr>"

definition sample_file_writer :: writer where
  "sample_file_writer = sample_bm_writer\<lparr>w_vol := (w_vol sample_bm_writer)\<lparr>v_dev := sample_file_device\<rparr>\<rparr>"

lemma sample_file_fields:
  "w_dev sample_file_writer = sample_file_device" "v_anodes (w_vol sample_file_writer) = sample_dir_reader"
  "v_cache (w_vol sample_file_writer) = BlockCache_new" "data_bm_ok sample_file_writer"
  "unat (vol_block_size (w_vol sample_file_writer)) = 128"
  "is_splitted_anodes (w_rootblock sample_file_writer)" "w_anodes_per_block sample_file_writer = 9"
  by (simp_all add: sample_file_writer_def sample_bm_writer_def sample_writer_def upd_rootblock_def w_dev_def
      sample_volume_reader data_bm_ok_def vol_block_size_def block_size_def sample_file_device_def
      sample_dir_device_def create_def w_rootblock_def is_splitted_anodes_def has_flag_def mode_defs)
    (simp_all add: sample_volume_def Let_def)

lemma sample_file_read: "b < 4 \<Longrightarrow> dev_reserved sample_file_device b 128 = Ok (sample_dir_blocks b)"
proof -
  assume "b < 4"
  then consider "b = 0" | "b = 1" | "b = 2" | "b = 3" by linarith
  then show ?thesis
    by cases (simp_all add: dev_reserved_def divO_def block_size_def sample_file_device_def sample_dir_device_def create_def
      read_blocks_def byte_offset_def splice_replicate_full bslice_def)
qed

lemma be32_slot: "be32 (sample_dir_blocks 2) 88 = Ok 0" "be32 (sample_dir_blocks 2) 92 = Ok 0"
  by (simp_all add: sample_dir_blocks_def bytes_simps be32_replicate_0)

lemma sample_alloc_anode:
  assumes "dev_reserved (w_dev w) 1 128 = Ok (sample_dir_blocks 1)" "v_anodes (w_vol w) = sample_dir_reader"
    "coherent (w_dev w) 128 (v_cache (w_vol w))" "w_anodes_per_block w = 9"
    "is_splitted_anodes (w_rootblock w)" "\<And>c. read_reserved_raw 2 (upd_cache (\<lambda>_. c) w) = Ok (sample_dir_blocks 2)"
  shows "fst (alloc_anode 1 5 0 w) = Ok 6"
proof -
  have "anode_block_ref sample_dir_reader (w_dev w) 0 = Ok 2"
    using assms(1) by (simp add: anode_block_ref_def divO_def modO_def index_entry_ref_def get_or_0_def sample_dir_reader_def
        Let_def size_defs be32_sample_dir)
  then have "fst (resolve_anode_block sample_dir_reader 0 (w_dev w) (v_cache (w_vol w))) = Ok 2"
    using transparentD1 [OF resolve_anode_block_transparent assms(3), of sample_dir_reader 0]
    by (simp add: sample_dir_reader_def)
  then obtain c where "resolve_anode_block sample_dir_reader 0 (w_dev w) (v_cache (w_vol w)) = (Ok 2, c)"
    by (metis prod.collapse)
  then have c: "get_anode_block_nr 0 w = (Ok 2, upd_cache (\<lambda>_. c) w)"
    using assms(2) by (simp add: get_anode_block_nr_def on_vol_def on_cache_def zoomM_def upd_cache_def w_dev_def)
  let ?w = "upd_cache (\<lambda>_. c) w"
  have f: "w_anodes_per_block ?w = 9" "is_splitted_anodes (w_rootblock ?w)" "w_datestamp ?w = w_datestamp w"
    using assms(4,5) by (simp_all add: upd_cache_def w_rootblock_def)
  have slot: "free_slot (sample_dir_blocks 2) True 9 0 [0..<9] = Ok (Some (6, 6))"
    by (simp add: upt_conv_Cons join_anodenr_def ANODE_USERFIRST_def size_defs be32_slot)
  obtain x where x: "put_anode 88 1 5 0 (w_datestamp w) (sample_dir_blocks 2) = Ok x"
    by (simp add: put_anode_def put_u32_def copy_at_def)
  have "fst (alloc_anode_in 1 5 0 0 w) = Ok (Some 6)"
    using f slot x by (simp add: alloc_anode_in_def bindM_def c reserved_raw_def assms(6) be32_sample_dir size_defs
        write_reserved_def Let_def)
  then obtain w' where "alloc_anode_in 1 5 0 0 w = (Ok (Some 6), w')" by (metis prod.collapse)
  moreover have "map of_nat [0..<256] = (0 :: u32) # map of_nat [1..<256]" by (simp add: upt_conv_Cons)
  ultimately show ?thesis by (simp add: alloc_anode_def bindM_Ok bindM_assoc)
qed

lemma sample_alloc_data:
  obtains w1 where "alloc_data_blocks 1 sample_file_writer = (Ok [5], w1)" "v_anodes (w_vol w1) = sample_dir_reader"
    "w_dev w1 = sample_file_device" "coherent d 128 (v_cache (w_vol w1))" "w_anodes_per_block w1 = 9"
    "is_splitted_anodes (w_rootblock w1)" "map fst (w_pending w1) = [3]" "w_rescluster w1 = 1"
    "w_resblocksize w1 = 128"
proof -
  let ?r = "alloc_data_blocks 1 sample_file_writer"
  note run = alloc_data_blocks_def alloc_bm_block_def alloc_bit_def sample_file_writer_def sample_bm_writer_def
    upt_conv_Cons bm_mask_def data_blk_nr_def sample_writer_def upd_rootblock_def w_rootblock_def
    write_data_bitmap_block_def idx_def reserved_raw_def read_reserved_raw_def write_reserved_def Let_def
    bindM_def upd_cache_def w_dev_def
  have "fst ?r = Ok [5]" by (simp add: run)
  then have "?r = (Ok [5], snd ?r)" by (metis prod.collapse)
  moreover have "v_anodes (w_vol (snd ?r)) = sample_dir_reader" "w_dev (snd ?r) = sample_file_device"
      "w_anodes_per_block (snd ?r) = 9" "map fst (w_pending (snd ?r)) = [3]" "w_rescluster (snd ?r) = 1"
      "w_resblocksize (snd ?r) = 128" "v_cache (w_vol (snd ?r)) = invalidate 3 BlockCache_new"
      "rb_options (w_rootblock (snd ?r)) = 2"
    by (simp_all add: run sample_volume_reader) (simp_all add: sample_volume_def Let_def)
  ultimately show thesis
    by (intro that) (simp_all add: is_splitted_anodes_def has_flag_def mode_defs coherent_invalidate coherent_new)
qed

lemma dev_reserved_data_block: "block_size d = 128 \<Longrightarrow> dev_reserved d b 128 = read_data_block d b"
  by (simp add: dev_reserved_def divO_def read_block_def)

lemma read_raw_data_block:
  assumes "2 \<notin> fst ` set (w_pending w)" "w_rescluster w = 1" "w_resblocksize w = 128" "block_size (w_dev w) = 128"
  shows "read_reserved_raw 2 w = read_data_block (w_dev w) 2"
proof -
  have "find (\<lambda>(b, _). b = 2) (rev (w_pending w)) = None"
    using assms(1) by (force simp: find_None_iff)
  then show ?thesis using assms(2-4) by (simp add: read_reserved_raw_def read_block_def)
qed

theorem store_data_readback_witness:
  "data_bm_ok sample_file_writer \<and>
   (\<exists>w' (blocks :: u32 list). store_data [42] sample_file_writer = (Ok 6, w') \<and>
      (\<forall>chain. chain_blocks chain = map unat blocks \<longrightarrow> read_extents (w_dev w') chain ([], 1) = Ok ([42], 0)))"
proof -
  obtain w1 where w1: "alloc_data_blocks 1 sample_file_writer = (Ok [5], w1)" "v_anodes (w_vol w1) = sample_dir_reader"
    "w_dev w1 = sample_file_device" "\<And>d. coherent d 128 (v_cache (w_vol w1))" "w_anodes_per_block w1 = 9"
    "is_splitted_anodes (w_rootblock w1)" "map fst (w_pending w1) = [3]" "w_rescluster w1 = 1"
    "w_resblocksize w1 = 128"
    using sample_alloc_data by (metis fst_conv snd_conv)
  have bs: "block_size sample_file_device = 128"
    by (simp add: block_size_def sample_file_device_def sample_dir_device_def create_def)
  obtain d2 where "write_block 5 (sector_of [42] 128 0) sample_file_device = (Ok (), d2)"
    by (simp add: write_block_def write_blocks_def sample_file_device_def sample_dir_device_def create_def Let_def)
  then obtain w2 where w2: "write_sectors [42] 128 0 [5] w1 = (Ok (), w2)" "w2 = w1\<lparr>w_vol := (w_vol w1)\<lparr>v_dev := d2\<rparr>\<rparr>"
    by (simp add: on_dev_run w1(3) bindM_def)
  have "128 = unat (block_size (w_dev w1))" "distinct [5 :: nat]" using bs by (simp_all add: w1(3))
  note dev = write_sectors_device [OF w2(1) this]
  have bs2: "block_size (w_dev w2) = 128" using dev bs by (simp add: w1(3))
  have rd: "read_data_block (w_dev w2) b = Ok (sample_dir_blocks b)" if "b < 4" for b
    using dev [THEN conjunct2, THEN conjunct2, rule_format, of b "sample_dir_blocks b"] sample_file_read [OF that] that
    by (simp add: w1(3) dev_reserved_data_block [OF bs])
  have "fst (alloc_anode 1 5 0 w2) = Ok 6"
  proof (rule sample_alloc_anode)
    show "dev_reserved (w_dev w2) 1 128 = Ok (sample_dir_blocks 1)"
      using rd [of 1] by (simp add: dev_reserved_data_block [OF bs2])
    show "read_reserved_raw 2 (upd_cache (\<lambda>_. c) w2) = Ok (sample_dir_blocks 2)" for c
      using rd [of 2] bs2 w1(7-9)
      by (subst read_raw_data_block) (auto simp: w2(2) upd_cache_def w_dev_def map_eq_Cons_conv)
  qed (use w1 in \<open>simp_all add: w2(2) w_rootblock_def\<close>)
  then obtain w3 where w3: "alloc_anode 1 5 0 w2 = (Ok 6, w3)" by (metis prod.collapse)
  have "store_data [42] sample_file_writer = (Ok 6, w3)"
    using w1(1) w2(1) w3
    by (simp add: store_data_def blocks_needed_def div_ceil_def sample_file_fields bindM_def on_dev_flush
        create_anode_chain_def)
  moreover from store_data_readback [OF this sample_file_fields(4)]
  obtain blocks :: "u32 list" where "\<forall>chain. chain_blocks chain = map unat blocks \<longrightarrow>
      read_extents (w_dev w3) chain ([], 1) = Ok ([42], 0)"
    by (simp add: sample_file_fields) blast
  ultimately show ?thesis using sample_file_fields(4) by blast
qed

end
