(* ===== verification/Writer_Commit.thy ===== *)
theory Writer_Commit
  imports Writer_State
begin

text \<open>
  The commit (\<^verbatim>\<open>writer.rs\<close>, \<open>update_rootblock\<close>): what it leaves in the rootblock cluster is what opening the
  volume and the writer read back.
\<close>

section \<open>Words in a buffer\<close>

lemma put_words_spec:
  "\<exists>b. put_words off ws buf = Ok b \<and> length b = length buf \<and>
     (\<forall>i<length ws. off + i * 4 + 4 \<le> length buf \<longrightarrow> be32 b (off + i * 4) = Ok (ws ! i)) \<and>
     (\<forall>q. q + 4 \<le> off \<longrightarrow> be32 b q = be32 buf q)"
proof (induction ws arbitrary: off buf)
  case (Cons v ws)
  define buf1 where "buf1 = (if off + 4 \<le> length buf then splice buf off (u32_to_be v) else buf)"
  have len1: "length buf1 = length buf" by (simp add: buf1_def)
  obtain b where b: "put_words (off + 4) ws buf1 = Ok b" "length b = length buf"
      "\<And>i. i < length ws \<Longrightarrow> off + 4 + i * 4 + 4 \<le> length buf \<Longrightarrow> be32 b (off + 4 + i * 4) = Ok (ws ! i)"
      "\<And>q. q + 4 \<le> off + 4 \<Longrightarrow> be32 b q = be32 buf1 q"
    using Cons.IH [of "off + 4" buf1] unfolding len1 by blast
  have "put_words off (v # ws) buf = Ok b" using b(1) by (auto simp: buf1_def)
  moreover have "be32 b (off + i * 4) = Ok ((v # ws) ! i)"
    if "i < length (v # ws)" "off + i * 4 + 4 \<le> length buf" for i
  proof (cases i)
    case 0
    with b(4) [of off] that(2) show ?thesis by (simp add: buf1_def be32_splice_same)
  next
    case (Suc j)
    with b(3) [of j] that show ?thesis by (simp add: algebra_simps)
  qed
  moreover have "be32 b q = be32 buf q" if "q + 4 \<le> off" for q
    using b(4) [of q] that by (simp add: buf1_def be32_splice_disjoint)
  ultimately show ?case using b(2) by blast
qed simp

section \<open>What flushing leaves alone\<close>

definition kept_fields :: "writer \<Rightarrow> rootblock \<times> u32 list \<times> u32 \<times> u32 \<times> u32 \<times> u32" where
  "kept_fields w = (w_rootblock w, w_res_bitmap w, w_firstreserved w, w_numreserved w, w_datestamp w, block_size (w_dev w))"

lemma kept_on_dev:
  assumes "\<And>d. block_size (snd (m d)) = block_size d"
  shows "kept_fields (snd (on_dev m w)) = kept_fields w"
proof -
  obtain r d where "m (v_dev (w_vol w)) = (r, d)" by force
  with assms [of "v_dev (w_vol w)"] show ?thesis
    by (simp add: kept_fields_def on_dev_def on_vol_def zoomM_def w_dev_def w_rootblock_def)
qed

lemma kept_flush: "preserves (\<lambda>w. kept_fields w = k) flush_pending"
proof -
  have "preserves (\<lambda>w. kept_fields w = k) (on_dev (write_reserved_blocks write_block blk data n bs))" for blk data n bs
    by (simp add: preserves_def kept_on_dev write_reserved_blocks_bs)
  moreover have "preserves (\<lambda>w. kept_fields w = k) (on_dev flush)"
    by (simp add: preserves_def on_dev_flush)
  moreover have "preserves (\<lambda>w. kept_fields w = k) (modifyM (upd_cache f))" for f
    by (simp add: preserves_def kept_fields_def upd_cache_def w_dev_def w_rootblock_def)
  moreover have "preserves (\<lambda>w. kept_fields w = k) (modifyM (\<lambda>w. w\<lparr>w_pending := []\<rparr>))"
    by (simp add: preserves_def kept_fields_def w_dev_def w_rootblock_def)
  ultimately show ?thesis unfolding flush_pending_def by (intro keeps)
qed

section \<open>The commit\<close>

lemma update_rootblock_Ok:
  assumes "update_rootblock w = (Ok (), w')"
  obtains w1 cluster cluster' where "flush_pending w = (Ok (), w1)" "read_cluster w1 = Ok cluster"
    "chainO [\<lambda>b. put_u32 b RB_OFF_DATESTAMP (w_datestamp w1 + 1),
       \<lambda>b. put_u32 b RB_OFF_RESERVED_FREE (rb_reserved_free (w_rootblock w1)),
       \<lambda>b. put_u32 b RB_OFF_BLOCKSFREE (rb_blocksfree (w_rootblock w1)),
       \<lambda>b. put_words (unat (vol_block_size (w_vol w1)) + 12) (w_res_bitmap w1) b] cluster = Ok cluster'"
    "write_blocks (unat (w_firstreserved w1)) (unat (rb_rblkcluster (w_rootblock w1))) cluster' (w_dev w1) =
       (Ok (), w_dev w')"
    "w_rootblock w' = w_rootblock w1" "w_firstreserved w' = w_firstreserved w1"
  using assms unfolding update_rootblock_def next_datestamp_def
  by (auto simp: bindM_eq_Ok on_dev_def on_vol_def zoomM_def w_dev_def w_rootblock_def vol_block_size_def flush_def
      split: prod.splits)

lemma read_cluster_exact:
  "read_cluster w = read_exact (w_dev w) (unat (w_firstreserved w)) (unat (rb_rblkcluster (w_rootblock w)))"
  by (simp add: read_cluster_def read_exact_def vol_block_size_def w_dev_def Let_def)

text \<open>
  C9. A commit is what the next opening sees: when \<open>update_rootblock\<close> succeeds on a device with blocks
  of at least 72 bytes, the rootblock cluster reads back; any rootblock parsed from it carries the
  writer's two free counters; and the words of the reserved bitmap that fit the cluster are
  read back from it in order, which is what \<open>load_reserved_bitmap\<close> reads.
\<close>

theorem commit_persists:
  assumes "update_rootblock w = (Ok (), w')" "72 \<le> unat (block_size (w_dev w))"
  shows "\<exists>cluster. read_cluster w' = Ok cluster \<and>
    length cluster = unat (rb_rblkcluster (w_rootblock w)) * unat (block_size (w_dev w)) \<and>
    (\<forall>rb. Rootblock_parse cluster = Ok rb \<longrightarrow>
       rb_blocksfree rb = rb_blocksfree (w_rootblock w) \<and> rb_reserved_free rb = rb_reserved_free (w_rootblock w)) \<and>
    (\<forall>i<length (w_res_bitmap w). unat (block_size (w_dev w)) + 12 + i * 4 + 4 \<le> length cluster \<longrightarrow>
       be32 cluster (unat (block_size (w_dev w)) + 12 + i * 4) = Ok (w_res_bitmap w ! i))"
proof -
  obtain w1 cluster cluster' where f: "flush_pending w = (Ok (), w1)" and rd: "read_cluster w1 = Ok cluster"
    and ch: "chainO [\<lambda>b. put_u32 b RB_OFF_DATESTAMP (w_datestamp w1 + 1),
       \<lambda>b. put_u32 b RB_OFF_RESERVED_FREE (rb_reserved_free (w_rootblock w1)),
       \<lambda>b. put_u32 b RB_OFF_BLOCKSFREE (rb_blocksfree (w_rootblock w1)),
       \<lambda>b. put_words (unat (vol_block_size (w_vol w1)) + 12) (w_res_bitmap w1) b] cluster = Ok cluster'"
    and wr: "write_blocks (unat (w_firstreserved w1)) (unat (rb_rblkcluster (w_rootblock w1))) cluster' (w_dev w1) =
       (Ok (), w_dev w')"
    and w': "w_rootblock w' = w_rootblock w1" "w_firstreserved w' = w_firstreserved w1"
    using assms(1) by (rule update_rootblock_Ok)
  have "kept_fields w1 = kept_fields w" using preservesD [OF kept_flush refl, of w] f by simp
  then have k: "w_rootblock w1 = w_rootblock w" "w_res_bitmap w1 = w_res_bitmap w"
      "block_size (w_dev w1) = block_size (w_dev w)"
    by (simp_all add: kept_fields_def)
  let ?bs = "unat (block_size (w_dev w))" and ?n = "unat (rb_rblkcluster (w_rootblock w))"
  have bs: "unat (vol_block_size (w_vol w1)) = ?bs" using k(3) by (simp add: vol_block_size_def w_dev_def)
  have len: "length cluster = ?n * ?bs"
    using file_dev.rd_length [OF rd [unfolded read_cluster_exact]] k by simp
  have long: "0x48 \<le> length cluster"
  proof (rule ccontr)
    assume "\<not> 0x48 \<le> length cluster"
    then have "put_u32 b 0x44 v = Panic" if "length b = length cluster" for b v
      using that by (simp add: put_u32_def copy_at_def)
    with ch show False by (auto simp: bindO_eq_Ok rb_off_defs put_u32_def copy_at_def split: if_splits)
  qed
  define b3 where "b3 = splice (splice (splice cluster 0x08 (u32_to_be (w_datestamp w1 + 1)))
      0x3C (u32_to_be (rb_reserved_free (w_rootblock w)))) 0x44 (u32_to_be (rb_blocksfree (w_rootblock w)))"
  have "put_words (?bs + 12) (w_res_bitmap w) b3 = Ok cluster'"
    using ch long by (auto simp: rb_off_defs bs k b3_def bindO_eq_Ok)
  then have c: "length cluster' = length cluster"
      "\<And>i. i < length (w_res_bitmap w) \<Longrightarrow> ?bs + 12 + i * 4 + 4 \<le> length cluster \<Longrightarrow>
         be32 cluster' (?bs + 12 + i * 4) = Ok (w_res_bitmap w ! i)"
      "\<And>q. q + 4 \<le> ?bs + 12 \<Longrightarrow> be32 cluster' q = be32 b3 q"
    using put_words_spec [of "?bs + 12" "w_res_bitmap w" b3] by (auto simp: b3_def)
  have cnt: "be32 cluster' 0x3C = Ok (rb_reserved_free (w_rootblock w))"
      "be32 cluster' 0x44 = Ok (rb_blocksfree (w_rootblock w))"
    using c(3) [of "0x3C"] c(3) [of "0x44"] assms(2) long by (simp_all add: b3_def bytes_simps)
  have "read_cluster w' = Ok cluster'"
    using file_dev.rd_wr_same [OF wr] c(1) len k by (simp add: read_cluster_exact w')
  moreover have "rb_blocksfree rb = rb_blocksfree (w_rootblock w) \<and> rb_reserved_free rb = rb_reserved_free (w_rootblock w)"
    if "Rootblock_parse cluster' = Ok rb" for rb
    using Rootblock_parse_fields [OF that] cnt by (auto simp: cur32_def rb_off_defs split: if_splits)
  ultimately show ?thesis using c(1,2) len by (intro exI [of _ cluster']) simp
qed

lemma sample_commit: "\<exists>w'. update_rootblock sample_writer = (Ok (), w')"
proof -
  have "fst (update_rootblock sample_writer) = Ok ()"
    by (simp add: update_rootblock_def flush_pending_def next_datestamp_def read_cluster_def sample_writer_def
        w_dev_def w_rootblock_def sample_volume_reader vol_block_size_def block_size_def sample_dir_device_def create_def
        bindM_def on_dev_def on_vol_def zoomM_def write_blocks_def read_blocks_def byte_offset_def Let_def flush_def
        rb_off_defs sample_volume_def sample_rootblock_def)
  then show ?thesis by (metis prod.collapse)
qed

theorem commit_persists_witness:
  "\<exists>w' cluster. update_rootblock sample_writer = (Ok (), w') \<and> read_cluster w' = Ok cluster \<and>
     be32 cluster 140 = Ok 0x30000000"
proof -
  obtain w' where w': "update_rootblock sample_writer = (Ok (), w')" using sample_commit by blast
  have bs: "unat (block_size (w_dev sample_writer)) = 128" "w_res_bitmap sample_writer = [0x30000000]"
      "rb_rblkcluster (w_rootblock sample_writer) = 2"
    by (simp_all add: sample_writer_def w_dev_def sample_volume_reader block_size_def sample_dir_device_def create_def
        w_rootblock_def) (simp add: sample_volume_def sample_rootblock_def Let_def)
  from commit_persists [OF w'] show ?thesis using w' by (auto simp: bs)
qed

end
