(* ===== verification/Check.thy ===== *)
theory Check
  imports Writer
begin

text \<open>
  \<^verbatim>\<open>src/cmd/check.rs\<close>: the consistency check of a volume and its repairs.  What is printed is not
  modelled.  \<open>scan_dir\<close> recurses with a bound \<open>fuel\<close> on the depth of the recursion; running out of it
  stands for a recursion that does not return.
\<close>

record check_ctx =
  cx_errors :: u32
  cx_warnings :: u32
  cx_files :: u32
  cx_dirs :: u32
  cx_used_blocks :: "nat \<rightharpoonup> rstr"
  cx_used_anodes :: "u32 set"
  cx_repairs :: u32
  cx_broken_files :: "(u32 \<times> rstr) list"
  cx_wrong_size :: "(u32 \<times> rstr \<times> u64) list"
  cx_correct_blocksfree :: "u32 option"
  cx_correct_reserved_free :: "u32 option"

definition CheckCtx_default :: check_ctx where
  "CheckCtx_default = \<lparr>cx_errors = 0, cx_warnings = 0, cx_files = 0, cx_dirs = 0, cx_used_blocks = Map.empty,
     cx_used_anodes = {}, cx_repairs = 0, cx_broken_files = [], cx_wrong_size = [],
     cx_correct_blocksfree = None, cx_correct_reserved_free = None\<rparr>"

definition add_error :: "check_ctx \<Rightarrow> check_ctx" where
  "add_error cx = cx\<lparr>cx_errors := cx_errors cx + 1\<rparr>"

definition add_warning :: "check_ctx \<Rightarrow> check_ctx" where
  "add_warning cx = cx\<lparr>cx_warnings := cx_warnings cx + 1\<rparr>"

section \<open>The scan of the directory tree\<close>

fun record_blocks :: "nat list \<Rightarrow> rstr \<Rightarrow> check_ctx \<Rightarrow> check_ctx" where
  "record_blocks [] owner cx = cx"
| "record_blocks (b # blocks) owner cx =
     (let prev = cx_used_blocks cx b;
          cx = cx\<lparr>cx_used_blocks := (cx_used_blocks cx)(b \<mapsto> owner)\<rparr>
      in record_blocks blocks owner (if prev = None then cx else add_error cx))"

text \<open>The scan works on the volume and the context.\<close>

type_synonym scan_state = "volume \<times> check_ctx"

definition on_volume :: "(volume, 'a) rm \<Rightarrow> (scan_state, 'a) rm" where
  "on_volume m = zoomM fst (\<lambda>v s. (v, snd s)) m"

definition upd_ctx :: "(check_ctx \<Rightarrow> check_ctx) \<Rightarrow> (scan_state, unit) rm" where
  "upd_ctx f = modifyM (\<lambda>s. (fst s, f (snd s)))"

definition record_anode_chain :: "u32 \<Rightarrow> (scan_state, unit) rm" where
  "record_anode_chain anodenr =
     bindM (tryM (on_volume (get_anode_chain anodenr))) (\<lambda>r. case r of
       Some chain \<Rightarrow> upd_ctx (\<lambda>cx. cx\<lparr>cx_used_anodes := cx_used_anodes cx \<union> set (map an_nr chain)\<rparr>)
     | None \<Rightarrow> retM ())"

text \<open>What is done for one file entry with the blocks of its chain.\<close>

definition check_file_size :: "u32 \<Rightarrow> dir_entry \<Rightarrow> nat \<Rightarrow> nat \<Rightarrow> (scan_state, unit) rm" where
  "check_file_size dir_anode entry nblocks bs =
     (if bs = 0 then (\<lambda>s. (Panic, s))
      else
        let expected = div_ceil (unat (file_size entry)) bs in
        if nblocks < expected \<and> file_size entry > 0
        then upd_ctx (\<lambda>cx. (add_warning cx)\<lparr>cx_wrong_size :=
               cx_wrong_size cx @ [(dir_anode, de_name entry, of_nat (nblocks * bs))]\<rparr>)
        else retM ())"

definition record_broken :: "u32 \<Rightarrow> dir_entry \<Rightarrow> (scan_state, unit) rm" where
  "record_broken dir_anode entry =
     upd_ctx (\<lambda>cx. (add_error cx)\<lparr>cx_broken_files := cx_broken_files cx @ [(dir_anode, de_name entry)]\<rparr>)"

definition check_file :: "u32 \<Rightarrow> rstr \<Rightarrow> dir_entry \<Rightarrow> (scan_state, unit) rm" where
  "check_file dir_anode entry_path entry =
     bindM (upd_ctx (\<lambda>cx. cx\<lparr>cx_files := cx_files cx + 1\<rparr>)) (\<lambda>_.
     bindM (tryM (on_volume (validate_anode_chain (de_anode entry)))) (\<lambda>r. case r of
       Some blocks \<Rightarrow>
         bindM (getM (\<lambda>s. unat (vol_block_size (fst s)))) (\<lambda>bs.
         bindM (check_file_size dir_anode entry (length blocks) bs) (\<lambda>_.
         bindM (upd_ctx (record_blocks blocks entry_path)) (\<lambda>_.
           record_anode_chain (de_anode entry))))
     | None \<Rightarrow> record_broken dir_anode entry))"

text \<open>What is done for one directory entry; \<open>scan\<close> is the recursive call.\<close>

definition check_dir ::
  "(u32 \<Rightarrow> rstr \<Rightarrow> (scan_state, unit) rm) \<Rightarrow> u32 \<Rightarrow> rstr \<Rightarrow> dir_entry \<Rightarrow> (scan_state, unit) rm" where
  "check_dir scan dir_anode entry_path entry =
     bindM (upd_ctx (\<lambda>cx. cx\<lparr>cx_dirs := cx_dirs cx + 1\<rparr>)) (\<lambda>_.
     bindM (tryM (on_volume (validate_anode_chain (de_anode entry)))) (\<lambda>r. case r of
       Some blocks \<Rightarrow>
         bindM (upd_ctx (record_blocks blocks entry_path)) (\<lambda>_.
         bindM (record_anode_chain (de_anode entry)) (\<lambda>_.
           scan (de_anode entry) entry_path))
     | None \<Rightarrow> record_broken dir_anode entry))"

text \<open>\<open>path.matches('/').count()\<close>\<close>

definition slashes :: "rstr \<Rightarrow> nat" where
  "slashes path = length (filter (\<lambda>c. c = SLASH) path)"

fun scan_dir :: "nat \<Rightarrow> u32 \<Rightarrow> rstr \<Rightarrow> (scan_state, unit) rm" where
  "scan_dir 0 dir_anode path = (\<lambda>s. (Panic, s))"
| "scan_dir (Suc fuel) dir_anode path =
     (if slashes path > MAX_DIR_DEPTH then upd_ctx add_error
      else
        bindM (tryM (on_volume (list_dir_by_anode dir_anode))) (\<lambda>r. case r of
          None \<Rightarrow> upd_ctx add_error
        | Some entries \<Rightarrow>
            forM entries (\<lambda>entry.
              let entry_path = join_pfs3_path path (de_name entry) in
              if is_dir entry
              then check_dir (\<lambda>anode path. scan_dir fuel anode path) dir_anode entry_path entry
              else if is_file entry \<or> de_entry_type entry = ST_ROLLOVERFILE
              then check_file dir_anode entry_path entry
              else retM ())))"

section \<open>The checks and the repairs\<close>

definition check_rootblock :: "rootblock \<Rightarrow> check_ctx \<Rightarrow> check_ctx" where
  "check_rootblock rb cx =
     (if rb_firstreserved rb \<ge> rb_lastreserved rb then add_error cx
      else if rb_disksize rb = 0 then add_error cx else cx)"

definition check_extension :: "volume \<Rightarrow> check_ctx \<Rightarrow> check_ctx" where
  "check_extension v cx =
     (if has_extension (v_rootblock v) \<and> v_rootblock_ext v = None then add_error cx else cx)"

text \<open>Phase 1, on the volume opened read-only.\<close>

definition check_scan :: "nat \<Rightarrow> bool \<Rightarrow> (scan_state, unit) rm" where
  "check_scan fuel repair =
     bindM (getM fst) (\<lambda>v.
     bindM (upd_ctx (\<lambda>cx. check_extension v (check_rootblock (v_rootblock v) cx))) (\<lambda>_.
     bindM (scan_dir fuel ANODE_ROOTDIR [SLASH]) (\<lambda>_.
     bindM (tryM (on_volume bitmap_count_free)) (\<lambda>r.
     let bitmap_free = (case r of Some n \<Rightarrow> n | None \<Rightarrow> 0);
         blocksfree = rb_blocksfree (v_rootblock v) in
     bindM (if bitmap_free = blocksfree then retM ()
            else upd_ctx (\<lambda>cx. let cx = add_warning cx in
              if repair then cx\<lparr>cx_correct_blocksfree := Some bitmap_free\<rparr> else cx)) (\<lambda>_.
     bindM (upd_ctx (\<lambda>cx. if 0 \<in> cx_used_anodes cx then add_warning cx else cx)) (\<lambda>_.
     bindM (tryM (\<lambda>s. (reserved_count_free (fst s), s))) (\<lambda>r. case r of
       None \<Rightarrow> retM ()
     | Some actual_free \<Rightarrow>
         if actual_free = rb_reserved_free (v_rootblock v) then retM ()
         else upd_ctx (\<lambda>cx. let cx = add_warning cx in
           if repair then cx\<lparr>cx_correct_reserved_free := Some actual_free\<rparr> else cx))))))))"

definition needs_repair :: "bool \<Rightarrow> check_ctx \<Rightarrow> bool" where
  "needs_repair repair cx \<longleftrightarrow>
     repair \<and> (cx_broken_files cx \<noteq> [] \<or> cx_wrong_size cx \<noteq> [] \<or>
       cx_correct_blocksfree cx \<noteq> None \<or> cx_correct_reserved_free cx \<noteq> None)"

text \<open>Phase 2, with a writer on the volume opened again for writing.  A broken entry that cannot be removed is skipped.\<close>

definition check_repairs :: "check_ctx \<Rightarrow> (writer, u32) rm" where
  "check_repairs cx =
     bindM (case cx_correct_blocksfree cx of
         Some bf \<Rightarrow> bindM (repair_blocksfree bf) (\<lambda>_. retM 1) | None \<Rightarrow> retM 0) (\<lambda>n1.
     bindM (case cx_correct_reserved_free cx of
         Some rf \<Rightarrow> bindM (repair_reserved_free rf) (\<lambda>_. retM 1) | None \<Rightarrow> retM 0) (\<lambda>n2.
       foldM (\<lambda>n (parent_anode, name).
         bindM (tryM (force_remove_entry parent_anode name)) (\<lambda>r.
           retM (case r of Some _ \<Rightarrow> n + 1 | None \<Rightarrow> n)))
         (n1 + n2) (cx_broken_files cx)))"

text \<open>
  The command on the contents of the image; \<open>rw\<close> is whether the operating system lets the image be opened
  again for writing.  The result comes with the device as the scan or the repairs leave it, if one was opened.
\<close>

definition check_run ::
  "nat \<Rightarrow> bytes \<Rightarrow> unit outcome \<Rightarrow> nat \<Rightarrow> rstr option \<Rightarrow> bool \<Rightarrow> check_ctx outcome \<times> device option" where
  "check_run fuel img rw offset part_name repair =
     (case open_auto img offset part_name False of
        Ok v \<Rightarrow>
          (case check_scan fuel repair (v, CheckCtx_default) of
             (Ok _, (v', cx)) \<Rightarrow>
               if needs_repair repair cx
               then (case bindO rw (\<lambda>_. bindO (open_auto (d_contents (v_dev v')) offset part_name True) Writer_open) of
                   Ok w \<Rightarrow>
                     (case check_repairs cx w of (r, w') \<Rightarrow>
                        (bindO r (\<lambda>n. Ok (cx\<lparr>cx_repairs := n\<rparr>)), Some (w_dev w')))
                 | Err e \<Rightarrow> (Err e, Some (v_dev v')) | Panic \<Rightarrow> (Panic, Some (v_dev v')))
               else (Ok cx, Some (v_dev v'))
           | (Err e, (v', _)) \<Rightarrow> (Err e, Some (v_dev v'))
           | (Panic, (v', _)) \<Rightarrow> (Panic, Some (v_dev v')))
      | Err e \<Rightarrow> (Err e, None) | Panic \<Rightarrow> (Panic, None))"

section \<open>Blocks with two owners\<close>

lemma record_blocks_errors:
  "\<exists>k \<le> length blocks.
     cx_errors (record_blocks blocks owner cx) = cx_errors cx + of_nat k \<and>
     (k = 0 \<longleftrightarrow> distinct blocks \<and> set blocks \<inter> dom (cx_used_blocks cx) = {}) \<and>
     dom (cx_used_blocks (record_blocks blocks owner cx)) = dom (cx_used_blocks cx) \<union> set blocks"
proof (induction blocks arbitrary: cx)
  case (Cons b blocks)
  let ?cx = "cx\<lparr>cx_used_blocks := (cx_used_blocks cx)(b \<mapsto> owner)\<rparr>"
  have rec: "dom (cx_used_blocks ?cx) = insert b (dom (cx_used_blocks cx))" "cx_errors ?cx = cx_errors cx"
    "dom (cx_used_blocks (add_error ?cx)) = insert b (dom (cx_used_blocks cx))"
    "cx_errors (add_error ?cx) = cx_errors cx + 1"
    by (simp_all add: add_error_def)
  show ?case
  proof (cases "cx_used_blocks cx b")
    case None
    from Cons.IH [of ?cx, unfolded rec] obtain k where k: "k \<le> length blocks"
        "cx_errors (record_blocks blocks owner ?cx) = cx_errors cx + of_nat k"
        "k = 0 \<longleftrightarrow> distinct blocks \<and> set blocks \<inter> insert b (dom (cx_used_blocks cx)) = {}"
        "dom (cx_used_blocks (record_blocks blocks owner ?cx)) = insert b (dom (cx_used_blocks cx)) \<union> set blocks"
      by blast
    have "b \<notin> dom (cx_used_blocks cx)" using None by blast
    then have "k = 0 \<longleftrightarrow> distinct (b # blocks) \<and> set (b # blocks) \<inter> dom (cx_used_blocks cx) = {}"
      unfolding k(3) by auto
    with None k(1,2,4) show ?thesis by (intro exI [of _ k]) (simp add: Let_def)
  next
    case (Some prev)
    from Cons.IH [of "add_error ?cx", unfolded rec] obtain k where k: "k \<le> length blocks"
        "cx_errors (record_blocks blocks owner (add_error ?cx)) = cx_errors cx + 1 + of_nat k"
        "dom (cx_used_blocks (record_blocks blocks owner (add_error ?cx))) = insert b (dom (cx_used_blocks cx)) \<union> set blocks"
      by blast
    have "b \<in> dom (cx_used_blocks cx)" using Some by blast
    then have "set (b # blocks) \<inter> dom (cx_used_blocks cx) \<noteq> {}"
      "insert b (dom (cx_used_blocks cx)) \<union> set blocks = dom (cx_used_blocks cx) \<union> set (b # blocks)" by auto
    with Some k show ?thesis by (intro exI [of _ "Suc k"]) (simp add: Let_def add.assoc)
  qed
qed simp

text \<open>
  C22. The check notices every block that two owners claim.  Recording the blocks of a chain leaves the error
  count unchanged if and only if no block occurs twice in the chain and none was claimed before;
  afterwards exactly those blocks are claimed in addition.
\<close>

theorem record_blocks_detects:
  assumes "length blocks < 2 ^ 32"
  shows "(cx_errors (record_blocks blocks owner cx) = cx_errors cx \<longleftrightarrow>
      distinct blocks \<and> set blocks \<inter> dom (cx_used_blocks cx) = {}) \<and>
    dom (cx_used_blocks (record_blocks blocks owner cx)) = dom (cx_used_blocks cx) \<union> set blocks"
proof -
  obtain k where k: "k \<le> length blocks" "cx_errors (record_blocks blocks owner cx) = cx_errors cx + of_nat k"
      "k = 0 \<longleftrightarrow> distinct blocks \<and> set blocks \<inter> dom (cx_used_blocks cx) = {}"
      "dom (cx_used_blocks (record_blocks blocks owner cx)) = dom (cx_used_blocks cx) \<union> set blocks"
    using record_blocks_errors by blast
  have "k < 2 ^ LENGTH(32)" using k(1) assms by (simp add: len32)
  then have "unat (of_nat k :: u32) = k" by (rule unat_of_nat_lt)
  then have "(of_nat k :: u32) = 0 \<longleftrightarrow> k = 0" using unat_eq_zero [of "of_nat k :: u32"] by (simp only:)
  with k show ?thesis by simp
qed

theorem record_blocks_detects_witness:
  "length [4, 5 :: nat] < 2 ^ 32 \<and>
   cx_errors (record_blocks [4, 5] (rs ''b'') (record_blocks [5] (rs ''a'') CheckCtx_default)) \<noteq>
   cx_errors (record_blocks [5] (rs ''a'') CheckCtx_default)"
  using record_blocks_detects [of "[4, 5]" "rs ''b''" "record_blocks [5] (rs ''a'') CheckCtx_default"]
  by (simp add: CheckCtx_default_def)

section \<open>When the scan ends\<close>

text \<open>
  The depth of a path in half steps: a name that is not empty takes the path deeper, because it adds a
  separator or ends a path that ended with one.
\<close>

definition path_level :: "rstr \<Rightarrow> nat" where
  "path_level p = 2 * slashes p + (if p \<noteq> [] \<and> last p = SLASH then 0 else 1)"

lemma path_level_join: "name \<noteq> [] \<Longrightarrow> path_level p < path_level (join_pfs3_path p name)"
proof -
  assume n: "name \<noteq> []"
  have "last name = SLASH \<Longrightarrow> 1 \<le> slashes name"
    using n by (cases name rule: rev_cases) (simp_all add: slashes_def)
  moreover have "slashes (p @ q) = slashes p + slashes q" for p q by (simp add: slashes_def)
  moreover have "slashes [SLASH] = 1" by (simp add: slashes_def)
  ultimately show ?thesis
    using n by (auto simp: path_level_def join_pfs3_path_def slashes_def)
qed

definition dirs_named :: "volume \<Rightarrow> bool" where
  "dirs_named v \<longleftrightarrow>
     (\<forall>a es e. dir_entries_ref (v_anodes v) (v_dev v) (rb_reserved_blksize (v_rootblock v)) a = Ok es \<longrightarrow>
        e \<in> set es \<longrightarrow> is_dir e \<longrightarrow> de_name e \<noteq> [])"

abbreviation scanning :: "volume \<Rightarrow> scan_state \<Rightarrow> bool" where
  "scanning v s \<equiv> same_volume v (fst s)"

lemma on_volume_transparent:
  "transparent (same_volume v) m r \<Longrightarrow> transparent (scanning v) (on_volume m) r"
  unfolding on_volume_def by (erule transparent_zoom) simp_all

lemma try_volume:
  "transparent (same_volume v) m r \<Longrightarrow> r \<noteq> Panic \<Longrightarrow>
   transparent (scanning v) (tryM (on_volume m)) (Ok (case r of Ok x \<Rightarrow> Some x | _ \<Rightarrow> None))"
  by (intro transparent_try on_volume_transparent)

lemma upd_ctx_returns [rets]: "returns (scanning v) (upd_ctx f)"
  unfolding upd_ctx_def by (rule returns_modify) simp

lemma record_broken_returns [rets]: "returns (scanning v) (record_broken a e)"
  unfolding record_broken_def by (rule rets)

lemma record_anode_chain_returns [rets]: "vol_wf v \<Longrightarrow> returns (scanning v) (record_anode_chain nr)"
  unfolding record_anode_chain_def
  by (rule returns_bind_value [OF try_volume [OF get_anode_chain_transparent vol_chain_not_Panic]])
    (auto intro: rets)

lemma validate_transparent:
  "vol_wf v \<Longrightarrow> transparent (same_volume v) (validate_anode_chain nr) (bindO (vol_chain v nr) (\<lambda>c. Ok (chain_blocks c)))"
  unfolding validate_anode_chain_def by (intro transparent_bind get_anode_chain_transparent transparent_ret)

lemma validate_not_Panic: "vol_wf v \<Longrightarrow> bindO (vol_chain v nr) (\<lambda>c. Ok (chain_blocks c)) \<noteq> Panic"
  by (simp add: bindO_eq_Panic vol_chain_not_Panic)

lemmas try_validate = try_volume [OF validate_transparent validate_not_Panic]

lemma check_file_returns [rets]:
  assumes "vol_wf v"
  shows "returns (scanning v) (check_file a p e)"
proof -
  have "unat (vol_block_size v) \<noteq> 0" using assms by (auto simp: vol_wf_def vol_block_size_def block_size_def unat_eq_zero)
  then have size: "returns (scanning v) (check_file_size a e n (unat (vol_block_size v)))" for n
    unfolding check_file_size_def Let_def by (simp add: rets)
  have "transparent (scanning v) (getM (\<lambda>s. unat (vol_block_size (fst s)))) (Ok (unat (vol_block_size v)))"
    by (simp add: transparent_def vol_block_size_def same_volume_fields)
  note bs = returns_bind_value [OF this]
  show ?thesis
    unfolding check_file_def
    by (intro returns_bind [OF upd_ctx_returns] returns_bind_value [OF try_validate [OF assms assms]] returns_option bs)
      (intro rets size assms)+
qed

lemma scan_dir_returns:
  assumes "vol_wf v" "dirs_named v"
  shows "2 * MAX_DIR_DEPTH + 3 \<le> fuel + min (path_level p) (2 * MAX_DIR_DEPTH + 2) \<Longrightarrow>
    returns (scanning v) (scan_dir fuel a p)"
proof (induction fuel arbitrary: a p)
  case 0
  then show ?case by simp
next
  case (Suc fuel)
  let ?entries = "dir_entries_ref (v_anodes v) (v_dev v) (rb_reserved_blksize (v_rootblock v)) a"
  show ?case
  proof (cases "slashes p > MAX_DIR_DEPTH")
    case True
    then show ?thesis by (simp add: rets)
  next
    case False
    then have p: "path_level p \<le> 2 * MAX_DIR_DEPTH + 1" by (simp add: path_level_def)
    have sub: "returns (scanning v) (scan_dir fuel (de_anode e) (join_pfs3_path p (de_name e)))"
      if "?entries = Ok es" "e \<in> set es" "is_dir e" for es e
    proof (rule Suc.IH)
      have "de_name e \<noteq> []" using assms(2) that by (auto simp: dirs_named_def)
      then have "path_level p < path_level (join_pfs3_path p (de_name e))" by (rule path_level_join)
      then show "2 * MAX_DIR_DEPTH + 3 \<le> fuel + min (path_level (join_pfs3_path p (de_name e))) (2 * MAX_DIR_DEPTH + 2)"
        using Suc.prems p by linarith
    qed
    have list: "transparent (scanning v) (tryM (on_volume (list_dir_by_anode a)))
        (Ok (case ?entries of Ok x \<Rightarrow> Some x | _ \<Rightarrow> None))"
      by (rule try_volume [OF list_dir_by_anode_transparent [OF assms(1)] dir_entries_ref_not_Panic [OF assms(1)]])
    have dir: "returns (scanning v) (check_dir (scan_dir fuel) a (join_pfs3_path p (de_name e)) e)"
      if "?entries = Ok es" "e \<in> set es" "is_dir e" for es e
      unfolding check_dir_def
      by (intro returns_bind [OF upd_ctx_returns] returns_bind_value [OF try_validate [OF assms(1) assms(1)]]
          returns_option rets assms(1) sub [OF that])
    have "returns (scanning v) (scan_dir (Suc fuel) a p)" if "?entries = Ok es" for es
      using False dir [OF that] that
      by (simp only: scan_dir.simps if_False)
        (rule returns_bind_value [OF list], simp add: Let_def, intro returns_for returns_if, auto intro: rets assms(1))
    moreover have "returns (scanning v) (scan_dir (Suc fuel) a p)" if "\<forall>es. ?entries \<noteq> Ok es"
      using False that
      by (simp only: scan_dir.simps if_False)
        (rule returns_bind_value [OF list], cases ?entries, auto intro: rets)
    ultimately show ?thesis by blast
  qed
qed

text \<open>
  C23. The scan of the directory tree ends.  On an opened volume in which every directory has a name, the
  scan from the root returns, without an error of its own and without panic, after at most 257
  nested calls, whatever cycles the tree has; the volume is unchanged except for its cache.
\<close>

theorem scan_dir_terminates:
  assumes "vol_wf v" "dirs_named v" "257 \<le> fuel"
  shows "\<exists>v' cx'. scan_dir fuel ANODE_ROOTDIR [SLASH] (v, cx) = (Ok (), (v', cx')) \<and> same_volume v v'"
proof -
  have "path_level [SLASH] = 2" by (simp add: path_level_def slashes_def)
  then have "returns (scanning v) (scan_dir fuel ANODE_ROOTDIR [SLASH])"
    using assms(3) by (intro scan_dir_returns [OF assms(1,2)]) (simp add: MAX_DIR_DEPTH_def)
  from returnsD [OF this, of "(v, cx)"] same_volume_refl [OF assms(1)] show ?thesis
    by (cases "scan_dir fuel ANODE_ROOTDIR [SLASH] (v, cx)") (auto simp: is_ok_iff)
qed

lemma transparent_run: "transparent P m r \<Longrightarrow> P s \<Longrightarrow> \<exists>t. m s = (r, t) \<and> P t"
  unfolding transparent_def by (metis prod.collapse)

lemma scan_self:
  assumes "vol_wf v" "vol_chain v a = Ok c"
    and "dir_entries_ref (v_anodes v) (v_dev v) (rb_reserved_blksize (v_rootblock v)) a = Ok (e # es)"
    and "is_dir e" "de_name e = []" "de_anode e = a"
  shows "same_volume v (fst s) \<Longrightarrow> fst (scan_dir fuel a [SLASH] s) = Panic"
proof (induction fuel arbitrary: s)
  case (Suc fuel)
  let ?valid = "bindO (vol_chain v a) (\<lambda>c. Ok (chain_blocks c))"
  have depth: "\<not> slashes [SLASH] > MAX_DIR_DEPTH" "join_pfs3_path [SLASH] [] = [SLASH]"
    by (simp_all add: slashes_def MAX_DIR_DEPTH_def join_pfs3_path_def)
  obtain s1 where s1: "tryM (on_volume (list_dir_by_anode a)) s = (Ok (Some (e # es)), s1)" "scanning v s1"
    using transparent_run [OF try_volume [OF list_dir_by_anode_transparent [OF assms(1), of a]
          dir_entries_ref_not_Panic [OF assms(1)]] Suc.prems] assms(3) by auto
  let ?s2 = "(fst s1, (snd s1)\<lparr>cx_dirs := cx_dirs (snd s1) + 1\<rparr>)"
  have "scanning v ?s2" using s1(2) by simp
  from transparent_run [OF try_validate [OF assms(1) assms(1), of a] this] assms(2)
  obtain s3 where s3: "tryM (on_volume (validate_anode_chain a)) ?s2 = (Ok (Some (chain_blocks c)), s3)" "scanning v s3"
    by auto
  let ?s4 = "(fst s3, record_blocks (chain_blocks c) [SLASH] (snd s3))"
  obtain s5 where s5: "record_anode_chain a ?s4 = (Ok (), s5)" "scanning v s5"
    using returnsD [OF record_anode_chain_returns [OF assms(1)], of "?s4" a] s3(2)
    by (cases "record_anode_chain a ?s4") (auto simp: is_ok_iff)
  have "fst (check_dir (scan_dir fuel) a [SLASH] e s1) = Panic"
    using Suc.IH [OF s5(2)] s3(1) s5(1) assms(6)
    by (simp add: check_dir_def upd_ctx_def bindM_Ok)
  then have "fst (forM (e # es) (\<lambda>entry.
      let entry_path = join_pfs3_path [SLASH] (de_name entry) in
      if is_dir entry then check_dir (scan_dir fuel) a entry_path entry
      else if is_file entry \<or> de_entry_type entry = ST_ROLLOVERFILE then check_file a entry_path entry
      else retM ()) s1) = Panic"
    using assms(4,5) depth(2) by (auto simp: bindM_def split: prod.splits)
  then show ?case using depth(1) s1(1) by (simp add: bindM_Ok)
qed simp

text \<open>
  Without that hypothesis the scan need not end: when the root directory starts with a directory entry that has
  no name and leads back to the root, the path does not grow, the depth limit is never
  reached and no number of nested calls is enough.
\<close>

lemma scan_dir_diverges:
  assumes "vol_wf v" "vol_chain v ANODE_ROOTDIR = Ok c"
    and "dir_entries_ref (v_anodes v) (v_dev v) (rb_reserved_blksize (v_rootblock v)) ANODE_ROOTDIR = Ok (e # es)"
    and "is_dir e" "de_name e = []" "de_anode e = ANODE_ROOTDIR"
  shows "fst (scan_dir fuel ANODE_ROOTDIR [SLASH] (v, cx)) = Panic"
  by (rule scan_self [OF assms]) (simp add: same_volume_refl assms(1))

text \<open>A volume with given bytes in the block of its root directory.\<close>

definition root_blocks :: "bytes \<Rightarrow> nat \<Rightarrow> bytes" where
  "root_blocks ent b =
     (if b = 3 then splice (splice (replicate 128 0) 0 (u16_to_be DBLKID)) 20 ent else sample_dir_blocks b)"

definition root_volume :: "bytes \<Rightarrow> volume" where
  "root_volume ent =
     sample_volume\<lparr>v_dev := sample_dir_device\<lparr>d_contents := concat (map (root_blocks ent) [0, 1, 2, 3])\<rparr>\<rparr>"

lemma length_root_blocks [simp]: "length ent \<le> 108 \<Longrightarrow> length (root_blocks ent b) = 128"
  by (simp add: root_blocks_def)

lemma root_blocks_other: "b \<noteq> 3 \<Longrightarrow> root_blocks ent b = sample_dir_blocks b"
  by (simp add: root_blocks_def)

lemma root_volume_wf: "vol_wf (root_volume ent)"
  using sample_volume_wf by (simp add: vol_wf_def root_volume_def sample_dir_device_def create_def)
    (simp add: sample_volume_def coherent_new Let_def)

lemma root_read:
  assumes "length ent \<le> 108" "b < 4"
  shows "dev_reserved (v_dev (root_volume ent)) b 128 = Ok (root_blocks ent b)"
proof -
  consider "b = 0" | "b = 1" | "b = 2" | "b = 3" using assms(2) by linarith
  then show ?thesis
    using assms(1)
    by cases (simp_all add: root_volume_def dev_reserved_def divO_def block_size_def sample_dir_device_def create_def
      read_blocks_def byte_offset_def splice_replicate_full bslice_def)
qed

lemma root_reader:
  "v_anodes (root_volume ent) = sample_dir_reader" "rb_reserved_blksize (v_rootblock (root_volume ent)) = 128"
  by (simp_all add: root_volume_def sample_volume_reader) (simp add: sample_volume_def Let_def)

lemma root_chain:
  assumes "length ent \<le> 108"
  shows "vol_chain (root_volume ent) 5 = Ok [\<lparr>an_clustersize = 1, an_blocknr = 3, an_next = 0, an_nr = 5\<rparr>]"
proof -
  have "anode_ref sample_dir_reader (v_dev (root_volume ent)) 5 =
      Ok \<lparr>an_clustersize = 1, an_blocknr = 3, an_next = 0, an_nr = 5\<rparr>"
    by (simp add: anode_ref_def split_anodenr_def divO_def modO_def anode_block_ref_def
        index_entry_ref_def get_or_0_def sample_dir_reader_def root_read [OF assms] Let_def size_defs root_blocks_other
        AnodeBlockHeader_parse_def parse_header_fields_def Anode_parse_def
        cur32_def sliceO_def bytes_simps be32_sample_dir)
  then show ?thesis
    by (simp add: vol_chain_def root_reader chain_ref_iff anode_chain_Cons anode_chain_Nil ANODE_EOF_def MAX_CHAIN_LEN_def)
qed

lemma root_entries:
  assumes "length ent \<le> 108" "dirblock_entries (root_blocks ent 3) = es"
  shows "dir_entries_ref (v_anodes (root_volume ent)) (v_dev (root_volume ent))
      (rb_reserved_blksize (v_rootblock (root_volume ent))) 5 = Ok es"
  using root_chain [OF assms(1)] assms(2)
  by (simp add: dir_entries_ref_def vol_chain_def root_reader chain_blocks_def root_read [OF assms(1)])

text \<open>An unnamed entry for the root directory itself.\<close>

definition loop_entry :: bytes where
  "loop_entry = [20, 2, 0, 0, 0, 5, 0, 0, 0, 0, 0, 0, 0, 0, 0, 0, 0, 0, 0, 0]"

definition loop_dirent :: dir_entry where
  "loop_dirent = \<lparr>de_entry_size = 20, de_entry_type = 2, de_anode = 5, de_fsize = 0, de_creation_day = 0,
     de_creation_minute = 0, de_creation_tick = 0, de_protection = 0, de_name = [], de_comment = [],
     de_extra = ExtraFields_default\<rparr>"

abbreviation loop_volume :: volume where
  "loop_volume \<equiv> root_volume loop_entry"

lemma loop_bytes:
  "root_blocks loop_entry 3 ! 20 = 20" "root_blocks loop_entry 3 ! 40 = 0"
  "bslice (root_blocks loop_entry 3) 20 20 = loop_entry"
  "length loop_entry = 20" "be16 (root_blocks loop_entry 3) 0 = Ok DBLKID"
  by (simp_all add: root_blocks_def loop_entry_def bytes_simps)

lemma loop_parse:
  "DirEntry_parse (root_blocks loop_entry 3) 20 = Ok (Some (loop_dirent, 40))"
  "DirEntry_parse (root_blocks loop_entry 3) 40 = Ok None"
  by (simp_all add: DirEntry_parse_def idx_def loop_bytes sliceO_def be32_def be16_def Let_def
      parse_extrafields_def extra32_def extra16_def)
    (simp add: loop_entry_def u32_from_be_def u16_from_be_def bslice_def latin1_to_string_def
      loop_dirent_def ExtraFields_default_def rs_def)

lemma loop_dirblock: "dirblock_entries (root_blocks loop_entry 3) = [loop_dirent]"
  by (simp add: dirblock_entries_def loop_bytes parse_dirblock_entries_def DIR_BLOCK_HEADER_SIZE_def
      parse_entries_from.simps [of _ 20] parse_entries_from.simps [of _ 40] loop_parse)

lemmas loop_facts = root_chain [of loop_entry, unfolded loop_bytes, simplified]
  root_entries [of loop_entry, OF _ loop_dirblock, unfolded loop_bytes, simplified]

lemma scan_dir_diverges_witness:
  "vol_wf loop_volume \<and> fst (scan_dir 1000 ANODE_ROOTDIR [SLASH] (loop_volume, CheckCtx_default)) = Panic"
proof -
  have "is_dir loop_dirent" "de_name loop_dirent = []" "de_anode loop_dirent = ANODE_ROOTDIR"
    by (simp_all add: loop_dirent_def is_dir_def ST_USERDIR_def ANODE_ROOTDIR_def)
  with scan_dir_diverges [OF root_volume_wf, of loop_entry _ loop_dirent "[]"] loop_facts root_volume_wf show ?thesis
    by (simp add: ANODE_ROOTDIR_def)
qed

section \<open>The scan keeps the image\<close>

abbreviation scanning_on :: "device \<Rightarrow> scan_state \<Rightarrow> bool" where
  "scanning_on d s \<equiv> on_device d (fst s)"

lemma on_volume_keeps [keeps]: "preserves (on_device d) m \<Longrightarrow> preserves (scanning_on d) (on_volume m)"
  unfolding on_volume_def by (erule preserves_zoom) simp_all

lemma upd_ctx_keeps [keeps]: "preserves (scanning_on d) (upd_ctx f)"
  by (simp add: preserves_def upd_ctx_def)

lemma check_entry_keeps [keeps]:
  "preserves (scanning_on d) (record_anode_chain a)" "preserves (scanning_on d) (record_broken a e)"
  "preserves (scanning_on d) (check_file_size a e n bs)"
  unfolding record_anode_chain_def record_broken_def check_file_size_def Let_def by (intro keeps)+

lemma check_file_keeps [keeps]: "preserves (scanning_on d) (check_file a p e)"
  unfolding check_file_def by (intro keeps)

lemma scan_dir_keeps [keeps]: "preserves (scanning_on d) (scan_dir fuel a p)"
proof (induction fuel arbitrary: a p)
  case (Suc fuel)
  show ?case unfolding scan_dir.simps check_dir_def Let_def by (intro keeps Suc.IH)
qed (simp add: preserves_pure)

lemma check_scan_keeps: "preserves (scanning_on d) (check_scan fuel repair)"
  unfolding check_scan_def Let_def by (intro keeps)

lemma check_run_without_repair:
  assumes "check_run fuel img rw off part False = (r, Some d)"
  shows "d_contents d = img"
proof -
  from assms obtain v where v: "open_auto img off part False = Ok v"
    by (auto simp: check_run_def split: outcome.splits)
  obtain s v' cx where s: "check_scan fuel False (v, CheckCtx_default) = (s, (v', cx))" by (metis prod.exhaust)
  have "v_dev v' = v_dev v"
    using preservesD [OF check_scan_keeps [of "v_dev v" fuel False], of "(v, CheckCtx_default)"] s by simp
  moreover have "d = v_dev v'"
    using assms v s by (auto simp: check_run_def needs_repair_def split: outcome.splits)
  ultimately show ?thesis using open_auto_device(2) [OF v] by simp
qed

section \<open>A volume on which the scan ends\<close>

lemma sample_dirs_named: "dirs_named sample_volume"
proof -
  have "de_name e \<noteq> []"
    if es: "dir_entries_ref sample_dir_reader sample_dir_device 128 a = Ok es" and e: "e \<in> set es" for a es e
  proof -
    from es obtain bl blocks where b: "mapO (\<lambda>b. dev_reserved sample_dir_device b 128) bl = Ok blocks"
        "es = concat (map dirblock_entries blocks)"
      by (auto simp: dir_entries_ref_def bindO_eq_Ok)
    with e obtain x where "x \<in> set blocks" "e \<in> set (dirblock_entries x)" by auto
    then obtain i where i: "i < length blocks" "e \<in> set (dirblock_entries (blocks ! i))"
      by (metis in_set_conv_nth)
    have r: "dev_reserved sample_dir_device (bl ! i) 128 = Ok (blocks ! i)"
      using nth_mapO [OF b(1)] i(1) length_mapO [OF b(1)] by simp
    then have "bl ! i < 4"
      by (auto simp: dev_reserved_def divO_def block_size_def sample_dir_device_def create_def read_blocks_def
          byte_offset_def bindO_eq_Ok split: if_splits)
    then have "blocks ! i = sample_dir_blocks (bl ! i)" using r sample_dir_read by simp
    moreover have "dirblock_entries (sample_dir_blocks b) = []" if "b < 3" for b
    proof -
      from that consider "b = 0" | "b = 1" | "b = 2" by linarith
      moreover have "be16 (sample_dir_blocks 0) 0 = Ok 0"
        by (simp add: sample_dir_blocks_def be16_def u16_from_be_def)
      moreover have "be16 (sample_dir_blocks 1) 0 = Ok IBLKID"
        by (simp add: sample_dir_blocks_def bytes_simps)
      ultimately have "be16 (sample_dir_blocks b) 0 \<noteq> Ok DBLKID"
        using be32_sample_dir(2) by cases (simp_all add: const_defs)
      then show ?thesis by (simp add: dirblock_entries_def)
    qed
    ultimately have "e = sample_dir_dirent"
      using i(2) \<open>bl ! i < 4\<close> sample_dir_entries by (cases "bl ! i = 3") auto
    then show "de_name e \<noteq> []" by (simp add: sample_dir_dirent_def rs_def)
  qed
  then show ?thesis
    unfolding dirs_named_def sample_volume_reader by (simp add: sample_volume_def Let_def)
qed

theorem scan_dir_terminates_witness:
  "vol_wf sample_volume \<and> dirs_named sample_volume \<and>
   (\<exists>v' cx'. scan_dir 257 ANODE_ROOTDIR [SLASH] (sample_volume, CheckCtx_default) = (Ok (), (v', cx')))"
proof -
  have "(257 :: nat) \<le> 257" by simp
  from scan_dir_terminates [OF sample_volume_wf sample_dirs_named this, of CheckCtx_default]
  show ?thesis using sample_volume_wf sample_dirs_named by blast
qed

end
