(* ===== verification/Fuse_Types.thy ===== *)
theory Fuse_Types
  imports Writer
begin

text \<open>
  \<^verbatim>\<open>crates/pfs3-fuse/src/types.rs\<close>: the state of the FUSE server, inode numbers and attributes, and the
  snapshot of deleted files.  The hash maps are maps; the user and group of the process are
  parameters of the constructor.
\<close>

section \<open>Text from the kernel\<close>

text \<open>\<open>str::from_utf8\<close> and \<open>OsStr::to_str\<close>: \<open>None\<close> when the bytes are not UTF-8.\<close>

definition utf8_cont :: "u8 \<Rightarrow> bool" where
  "utf8_cont b \<longleftrightarrow> 0x80 \<le> unat b \<and> unat b < 0xC0"

definition utf8_bits :: "u8 \<Rightarrow> nat" where
  "utf8_bits b = unat b mod 0x40"

fun utf8_decode :: "bytes \<Rightarrow> rstr option" where
  "utf8_decode [] = Some []"
| "utf8_decode (a # bs) =
     (if unat a < 0x80 then map_option (Cons (unat a)) (utf8_decode bs)
      else if 0xC2 \<le> unat a \<and> unat a < 0xE0 then
        (case bs of b # rest \<Rightarrow>
           if utf8_cont b then map_option (Cons ((unat a - 0xC0) * 0x40 + utf8_bits b)) (utf8_decode rest)
           else None
         | _ \<Rightarrow> None)
      else if 0xE0 \<le> unat a \<and> unat a < 0xF0 then
        (case bs of b # c # rest \<Rightarrow>
           let code = (unat a - 0xE0) * 0x1000 + utf8_bits b * 0x40 + utf8_bits c in
           if utf8_cont b \<and> utf8_cont c \<and> 0x800 \<le> code \<and> \<not> (0xD800 \<le> code \<and> code < 0xE000)
           then map_option (Cons code) (utf8_decode rest) else None
         | _ \<Rightarrow> None)
      else if 0xF0 \<le> unat a \<and> unat a < 0xF5 then
        (case bs of b # c # d # rest \<Rightarrow>
           let code = (unat a - 0xF0) * 0x40000 + utf8_bits b * 0x1000 + utf8_bits c * 0x40 + utf8_bits d in
           if utf8_cont b \<and> utf8_cont c \<and> utf8_cont d \<and> 0x10000 \<le> code \<and> code < 0x110000
           then map_option (Cons code) (utf8_decode rest) else None
         | _ \<Rightarrow> None)
      else None)"

text \<open>\<open>str::trim\<close>: characters with the Unicode property White\_Space.\<close>

definition is_whitespace :: "nat \<Rightarrow> bool" where
  "is_whitespace c \<longleftrightarrow> 9 \<le> c \<and> c \<le> 13 \<or> c = 32 \<or> c = 0x85 \<or> c = 0xA0 \<or> c = 0x1680 \<or>
     0x2000 \<le> c \<and> c \<le> 0x200A \<or> c = 0x2028 \<or> c = 0x2029 \<or> c = 0x202F \<or> c = 0x205F \<or> c = 0x3000"

definition str_trim :: "rstr \<Rightarrow> rstr" where
  "str_trim s = rev (dropWhile is_whitespace (rev (dropWhile is_whitespace s)))"

text \<open>\<open>to_ascii_lowercase\<close>\<close>

definition str_lower :: "rstr \<Rightarrow> rstr" where
  "str_lower s = map (\<lambda>c. if 65 \<le> c \<and> c \<le> 90 then c + 32 else c) s"

section \<open>Attributes and inodes\<close>

definition FUSE_ROOT_INO :: u64 where "FUSE_ROOT_INO = 1"
definition TRASHCAN_INO :: u64 where "TRASHCAN_INO = 2"
definition INODE_ANODE_OFFSET :: u64 where "INODE_ANODE_OFFSET = 100"
definition DELDIR_INO_BASE :: u64 where "DELDIR_INO_BASE = 0x80000000"

lemmas ino_defs = FUSE_ROOT_INO_def TRASHCAN_INO_def INODE_ANODE_OFFSET_def DELDIR_INO_BASE_def

datatype file_kind = Directory | Symlink | RegularFile

type_synonym systime = "nat \<times> nat"

record file_attr =
  fa_ino :: u64
  fa_size :: u64
  fa_blocks :: u64
  fa_atime :: systime
  fa_mtime :: systime
  fa_ctime :: systime
  fa_crtime :: systime
  fa_kind :: file_kind
  fa_perm :: u16
  fa_nlink :: u32
  fa_uid :: u32
  fa_gid :: u32
  fa_rdev :: u32
  fa_blksize :: u32
  fa_flags :: u32

record inode_info =
  ii_attr :: file_attr
  ii_anode :: u32
  ii_parent_ino :: u64
  ii_amiga_protection :: u8
  ii_name :: rstr

datatype volume_access = VA_ReadOnly volume | VA_ReadWrite writer

fun va_vol :: "volume_access \<Rightarrow> volume" where
  "va_vol (VA_ReadOnly v) = v"
| "va_vol (VA_ReadWrite w) = w_vol w"

text \<open>\<open>vol_mut\<close>: run a method of the volume.\<close>

fun va_set_vol :: "volume \<Rightarrow> volume_access \<Rightarrow> volume_access" where
  "va_set_vol v (VA_ReadOnly _) = VA_ReadOnly v"
| "va_set_vol v (VA_ReadWrite w) = VA_ReadWrite (w\<lparr>w_vol := v\<rparr>)"

fun va_writer :: "volume_access \<Rightarrow> writer option" where
  "va_writer (VA_ReadWrite w) = Some w"
| "va_writer (VA_ReadOnly _) = None"

record fuse_deldir =
  fd_ino :: u64
  fd_anode :: u32
  fd_size :: u64
  fd_display_name :: rstr
  fd_time :: systime

record fs_inner =
  fs_access :: volume_access
  fs_inodes :: "u64 \<rightharpoonup> inode_info"
  fs_name_cache :: "u64 \<times> rstr \<rightharpoonup> u64"
  fs_write_bufs :: "u64 \<rightharpoonup> u32 \<times> rstr \<times> bytes"
  fs_deldir :: "fuse_deldir list"

definition on_fs_vol :: "(volume, 'a) rm \<Rightarrow> (fs_inner, 'a) rm" where
  "on_fs_vol m =
     zoomM (\<lambda>fs. va_vol (fs_access fs)) (\<lambda>v fs. fs\<lparr>fs_access := va_set_vol v (fs_access fs)\<rparr>) m"

text \<open>A method of the writer, given that there is one.\<close>

definition on_writer :: "writer \<Rightarrow> (writer, 'a) rm \<Rightarrow> (fs_inner, 'a) rm" where
  "on_writer w m fs = (case m w of (r, w') \<Rightarrow> (r, fs\<lparr>fs_access := VA_ReadWrite w'\<rparr>))"

definition has_deldir :: "fs_inner \<Rightarrow> bool" where
  "has_deldir fs = has_flag (v_rootblock (va_vol (fs_access fs))) MODE_DELDIR"

text \<open>\<open>u64::div_ceil\<close>\<close>

definition u64_div_ceil :: "u64 \<Rightarrow> u64 \<Rightarrow> u64 outcome" where
  "u64_div_ceil a b = (if b = 0 then Panic else Ok (if a mod b = 0 then a div b else a div b + 1))"

section \<open>Deleted files\<close>

text \<open>The loop of \<open>rebuild_deldir\<close>: a repeated name, ignoring case, gets a number.\<close>

fun deldir_snapshot :: "nat \<Rightarrow> (rstr \<rightharpoonup> u32) \<Rightarrow> deldir_entry list \<Rightarrow> fuse_deldir list" where
  "deldir_snapshot i name_counts [] = []"
| "deldir_snapshot i name_counts (e # es) =
     (let base = dd_filename e;
          key = str_lower base;
          count = (case name_counts key of Some n \<Rightarrow> n | None \<Rightarrow> 0);
          display_name = (if count = 0 then base else base @ rs ''.'' @ show_nat (unat count))
      in \<lparr>fd_ino = DELDIR_INO_BASE + of_nat i, fd_anode = dd_anode e, fd_size = DelDirEntry_file_size e,
          fd_display_name = display_name,
          fd_time = amiga_to_systime (dd_creation_day e) (dd_creation_minute e) (dd_creation_tick e)\<rparr>
         # deldir_snapshot (i + 1) (name_counts(key \<mapsto> count + 1)) es)"

definition rebuild_deldir :: "(fs_inner, unit) rm" where
  "rebuild_deldir =
     bindM (tryM (on_fs_vol list_deldir)) (\<lambda>r.
       let entries = (case r of Some es \<Rightarrow> es | None \<Rightarrow> []) in
       modifyM (\<lambda>fs. fs\<lparr>fs_inodes := fs_inodes fs |` (- fd_ino ` set (fs_deldir fs)),
                        fs_deldir := deldir_snapshot 0 Map.empty entries\<rparr>))"

definition trashcan_attr :: "u32 \<Rightarrow> u32 \<Rightarrow> file_attr" where
  "trashcan_attr uid gid =
     \<lparr>fa_ino = TRASHCAN_INO, fa_size = 0, fa_blocks = 0, fa_atime = (0, 0), fa_mtime = (0, 0),
      fa_ctime = (0, 0), fa_crtime = (0, 0), fa_kind = Directory, fa_perm = 0x16D, fa_nlink = 2,
      fa_uid = uid, fa_gid = gid, fa_rdev = 0, fa_blksize = 512, fa_flags = 0\<rparr>"

section \<open>Inode numbers\<close>

definition anode_to_ino :: "u32 \<Rightarrow> u64" where
  "anode_to_ino anode = (if anode = ANODE_ROOTDIR then FUSE_ROOT_INO else ucast anode + INODE_ANODE_OFFSET)"

definition mode_perm :: "u8 \<Rightarrow> bool \<Rightarrow> u16" where
  "mode_perm prot dir = ucast (amiga_protection_to_mode prot dir AND 0x1FF)"

definition make_attr :: "dir_entry \<Rightarrow> u64 \<Rightarrow> u32 \<Rightarrow> u32 \<Rightarrow> u32 \<Rightarrow> (u64 \<times> inode_info) outcome" where
  "make_attr entry parent_ino uid gid bs =
     (let ino = anode_to_ino (de_anode entry);
          kind = (if is_dir entry then Directory else if is_softlink entry then Symlink else RegularFile);
          time = amiga_to_systime (de_creation_day entry) (de_creation_minute entry) (de_creation_tick entry);
          sz = file_size entry
      in bindO (u64_div_ceil sz (ucast bs)) (\<lambda>blocks.
         Ok (ino,
           \<lparr>ii_attr =
              \<lparr>fa_ino = ino, fa_size = sz, fa_blocks = blocks, fa_atime = time, fa_mtime = time,
               fa_ctime = time, fa_crtime = time, fa_kind = kind,
               fa_perm = mode_perm (de_protection entry) (is_dir entry),
               fa_nlink = (if is_dir entry then 2 else 1), fa_uid = uid, fa_gid = gid, fa_rdev = 0,
               fa_blksize = bs, fa_flags = 0\<rparr>,
            ii_anode = de_anode entry, ii_parent_ino = parent_ino,
            ii_amiga_protection = de_protection entry, ii_name = de_name entry\<rparr>)))"

section \<open>The server\<close>

text \<open>The fields of \<open>Pfs3Fs\<close> that never change; the rest is behind its mutex.\<close>

record fuse_config =
  fc_uid :: u32
  fc_gid :: u32
  fc_block_size :: u32
  fc_writable :: bool

definition root_attr :: "volume \<Rightarrow> u32 \<Rightarrow> u32 \<Rightarrow> file_attr" where
  "root_attr vol uid gid =
     (let rb = v_rootblock vol;
          time = amiga_to_systime (rb_creation_day rb) (rb_creation_minute rb) (rb_creation_tick rb)
      in \<lparr>fa_ino = FUSE_ROOT_INO, fa_size = 0, fa_blocks = 0, fa_atime = time, fa_mtime = time,
          fa_ctime = time, fa_crtime = time, fa_kind = Directory, fa_perm = 0x1ED, fa_nlink = 2,
          fa_uid = uid, fa_gid = gid, fa_rdev = 0, fa_blksize = vol_block_size vol, fa_flags = 0\<rparr>)"

definition fs_initial :: "u32 \<Rightarrow> u32 \<Rightarrow> volume_access \<Rightarrow> fs_inner" where
  "fs_initial uid gid access =
     \<lparr>fs_access = access,
      fs_inodes = [FUSE_ROOT_INO \<mapsto>
        \<lparr>ii_attr = root_attr (va_vol access) uid gid, ii_anode = ANODE_ROOTDIR,
         ii_parent_ino = FUSE_ROOT_INO, ii_amiga_protection = 0, ii_name = []\<rparr>],
      fs_name_cache = Map.empty, fs_write_bufs = Map.empty, fs_deldir = []\<rparr>"

definition Pfs3Fs_new :: "u32 \<Rightarrow> u32 \<Rightarrow> volume_access \<Rightarrow> fuse_config \<times> fs_inner outcome" where
  "Pfs3Fs_new uid gid access =
     (let writable = (case access of VA_ReadWrite _ \<Rightarrow> True | VA_ReadOnly _ \<Rightarrow> False)
      in (\<lparr>fc_uid = uid, fc_gid = gid, fc_block_size = vol_block_size (va_vol access), fc_writable = writable\<rparr>,
          case rebuild_deldir (fs_initial uid gid access) of (r, inner) \<Rightarrow> bindO r (\<lambda>_. Ok inner)))"

end
