(* ===== verification/Fuse.thy ===== *)
theory Fuse
  imports Fuse_Types
begin

text \<open>
  \<^verbatim>\<open>crates/pfs3-fuse/src/main.rs\<close>: the request handlers of the FUSE server.  Every handler takes the lock
  of the inner state for its whole run, so a handler is one atomic step; its reply is a value.
  A handler that panics poisons the lock, after which no request is served.  What the reply buffer
  of \<open>readdir\<close> accepts belongs to the FUSE library and is a parameter.
\<close>

section \<open>Replies\<close>

datatype errno = ENOENT | EIO | EPERM | ENOTDIR | EISDIR | ENOTEMPTY | NO_XATTR | ENOTSUP | ERANGE

type_synonym dirent = "u64 \<times> u64 \<times> file_kind \<times> rstr"

record statfs_reply =
  sf_blocks :: u64
  sf_bfree :: u64
  sf_bavail :: u64
  sf_files :: u64
  sf_ffree :: u64
  sf_bsize :: u32
  sf_namelen :: u32
  sf_frsize :: u32

datatype fuse_reply =
    RError errno
  | RAttr file_attr
  | REntry file_attr
  | RDirectory "dirent list"
  | ROpened
  | RData bytes
  | RStatfs statfs_reply
  | ROk
  | RWritten u32
  | RCreated file_attr
  | RSize u32

type_synonym handler = "(fs_inner, fuse_reply) rm"

definition inode :: "u64 \<Rightarrow> (fs_inner, inode_info option) rm" where
  "inode ino = getM (\<lambda>fs. fs_inodes fs ino)"

definition put_inode :: "u64 \<Rightarrow> inode_info \<Rightarrow> (fs_inner, unit) rm" where
  "put_inode ino info = modifyM (\<lambda>fs. fs\<lparr>fs_inodes := (fs_inodes fs)(ino \<mapsto> info)\<rparr>)"

text \<open>\<open>if let Some(info) = inodes.get_mut(&ino)\<close>\<close>

definition upd_inode :: "u64 \<Rightarrow> (inode_info \<Rightarrow> inode_info) \<Rightarrow> (fs_inner, unit) rm" where
  "upd_inode ino f = modifyM (\<lambda>fs. fs\<lparr>fs_inodes := (fs_inodes fs)(ino := map_option f (fs_inodes fs ino))\<rparr>)"

definition put_name :: "u64 \<Rightarrow> rstr \<Rightarrow> u64 \<Rightarrow> (fs_inner, unit) rm" where
  "put_name parent name ino =
     modifyM (\<lambda>fs. fs\<lparr>fs_name_cache := (fs_name_cache fs)((parent, name) \<mapsto> ino)\<rparr>)"

definition put_buf :: "u64 \<Rightarrow> u32 \<times> rstr \<times> bytes \<Rightarrow> (fs_inner, unit) rm" where
  "put_buf ino b = modifyM (\<lambda>fs. fs\<lparr>fs_write_bufs := (fs_write_bufs fs)(ino \<mapsto> b)\<rparr>)"

definition drop_buf :: "u64 \<Rightarrow> (fs_inner, unit) rm" where
  "drop_buf ino = modifyM (\<lambda>fs. fs\<lparr>fs_write_bufs := (fs_write_bufs fs)(ino := None)\<rparr>)"

definition reply :: "fuse_reply \<Rightarrow> handler" where
  "reply r = retM r"

definition is_dir_inode :: "inode_info \<Rightarrow> bool" where
  "is_dir_inode info \<longleftrightarrow> fa_kind (ii_attr info) = Directory"

text \<open>\<open>make_attr\<close> of an entry, remembered under its inode number.\<close>

definition add_entry :: "fuse_config \<Rightarrow> u64 \<Rightarrow> dir_entry \<Rightarrow> (fs_inner, u64 \<times> file_attr) rm" where
  "add_entry cfg parent entry =
     bindM (liftO (make_attr entry parent (fc_uid cfg) (fc_gid cfg) (fc_block_size cfg))) (\<lambda>(ino, info).
     bindM (put_inode ino info) (\<lambda>_. retM (ino, ii_attr info)))"

section \<open>Read operations\<close>

definition fuse_getattr :: "fuse_config \<Rightarrow> u64 \<Rightarrow> handler" where
  "fuse_getattr cfg ino =
     bindM (getM has_deldir) (\<lambda>dd.
     if ino = TRASHCAN_INO \<and> dd then reply (RAttr (trashcan_attr (fc_uid cfg) (fc_gid cfg)))
     else bindM (inode ino) (\<lambda>i. case i of
            Some info \<Rightarrow> reply (RAttr (ii_attr info))
          | None \<Rightarrow> reply (RError ENOENT)))"

text \<open>A deleted file found in \<open>.Trashcan\<close>.\<close>

definition deldir_attr :: "fuse_config \<Rightarrow> fuse_deldir \<Rightarrow> u64 \<Rightarrow> file_attr" where
  "deldir_attr cfg de blocks =
     \<lparr>fa_ino = fd_ino de, fa_size = fd_size de, fa_blocks = blocks, fa_atime = fd_time de,
      fa_mtime = fd_time de, fa_ctime = fd_time de, fa_crtime = fd_time de, fa_kind = RegularFile,
      fa_perm = 0x124, fa_nlink = 1, fa_uid = fc_uid cfg, fa_gid = fc_gid cfg, fa_rdev = 0,
      fa_blksize = fc_block_size cfg, fa_flags = 0\<rparr>"

definition lookup_deleted :: "fuse_config \<Rightarrow> rstr \<Rightarrow> handler" where
  "lookup_deleted cfg name =
     bindM (getM fs_deldir) (\<lambda>dd.
     case find (\<lambda>de. name_eq_ci (fd_display_name de) name) dd of
       None \<Rightarrow> reply (RError ENOENT)
     | Some de \<Rightarrow>
         bindM (liftO (u64_div_ceil (fd_size de) 512)) (\<lambda>blocks.
         let attr = deldir_attr cfg de blocks in
         bindM (put_inode (fd_ino de)
           \<lparr>ii_attr = attr, ii_anode = fd_anode de, ii_parent_ino = TRASHCAN_INO,
            ii_amiga_protection = 0, ii_name = fd_display_name de\<rparr>) (\<lambda>_.
         bindM (put_name TRASHCAN_INO name (fd_ino de)) (\<lambda>_.
           reply (REntry attr)))))"

definition lookup_entry :: "fuse_config \<Rightarrow> u64 \<Rightarrow> rstr \<Rightarrow> handler" where
  "lookup_entry cfg parent name =
     bindM (inode parent) (\<lambda>p. case p of
       None \<Rightarrow> reply (RError ENOENT)
     | Some pinfo \<Rightarrow>
         bindM (tryM (on_fs_vol (list_dir_by_anode (ii_anode pinfo)))) (\<lambda>r. case r of
           None \<Rightarrow> reply (RError EIO)
         | Some entries \<Rightarrow>
             (case find (\<lambda>e. name_eq_ci (de_name e) name) entries of
                None \<Rightarrow> reply (RError ENOENT)
              | Some entry \<Rightarrow>
                  bindM (add_entry cfg parent entry) (\<lambda>(ino, attr).
                  bindM (put_name parent name ino) (\<lambda>_.
                    reply (REntry attr))))))"

definition fuse_lookup :: "fuse_config \<Rightarrow> u64 \<Rightarrow> bytes \<Rightarrow> handler" where
  "fuse_lookup cfg parent name =
     (case utf8_decode name of
        None \<Rightarrow> reply (RError ENOENT)
      | Some name_str \<Rightarrow>
          bindM (getM has_deldir) (\<lambda>dd.
          if parent = FUSE_ROOT_INO \<and> name_str = rs ''.Trashcan'' \<and> dd
          then reply (REntry (trashcan_attr (fc_uid cfg) (fc_gid cfg)))
          else if parent = TRASHCAN_INO \<and> dd then lookup_deleted cfg name_str
          else
            bindM (getM (\<lambda>fs. case fs_name_cache fs (parent, name_str) of
                None \<Rightarrow> None | Some ino \<Rightarrow> fs_inodes fs ino)) (\<lambda>c. case c of
              Some info \<Rightarrow> reply (REntry (ii_attr info))
            | None \<Rightarrow> lookup_entry cfg parent name_str)))"

text \<open>
  \<open>reply.add\<close> answers whether the buffer is full, in which case the entry is not added; the loop
  starts at \<open>offset\<close> and every entry carries the offset of the next one.
\<close>

fun fill_dir ::
  "(dirent list \<Rightarrow> dirent \<Rightarrow> bool) \<Rightarrow> dirent list \<Rightarrow> nat \<Rightarrow> (u64 \<times> file_kind \<times> rstr) list \<Rightarrow> dirent list" where
  "fill_dir full acc i [] = acc"
| "fill_dir full acc i ((ino, kind, name) # xs) =
     (let e = (ino, of_nat (i + 1), kind, name) in
      if full acc e then acc else fill_dir full (acc @ [e]) (i + 1) xs)"

definition reply_dir ::
  "(dirent list \<Rightarrow> dirent \<Rightarrow> bool) \<Rightarrow> u64 \<Rightarrow> (u64 \<times> file_kind \<times> rstr) list \<Rightarrow> handler" where
  "reply_dir full offset xs =
     reply (RDirectory (fill_dir full [] (unat offset) (drop (unat offset) xs)))"

definition child_rows ::
  "fuse_config \<Rightarrow> u64 \<Rightarrow> dir_entry list \<Rightarrow> (fs_inner, (u64 \<times> file_kind \<times> rstr) list) rm" where
  "child_rows cfg ino entries =
     foldM (\<lambda>rows entry.
       bindM (add_entry cfg ino entry) (\<lambda>(child_ino, attr).
         retM (rows @ [(child_ino, fa_kind attr, de_name entry)]))) [] entries"

definition fuse_readdir :: "fuse_config \<Rightarrow> (dirent list \<Rightarrow> dirent \<Rightarrow> bool) \<Rightarrow> u64 \<Rightarrow> u64 \<Rightarrow> handler" where
  "fuse_readdir cfg full ino offset =
     bindM (getM has_deldir) (\<lambda>dd.
     if ino = TRASHCAN_INO \<and> dd
     then bindM (getM fs_deldir) (\<lambda>del.
            reply_dir full offset
              ([(TRASHCAN_INO, Directory, rs ''.''), (FUSE_ROOT_INO, Directory, rs ''..'')] @
               map (\<lambda>de. (fd_ino de, RegularFile, fd_display_name de)) del))
     else
       bindM (inode ino) (\<lambda>i. case i of
         None \<Rightarrow> reply (RError ENOENT)
       | Some info \<Rightarrow>
           if \<not> is_dir_inode info then reply (RError ENOTDIR)
           else
             bindM (tryM (on_fs_vol (list_dir_by_anode (ii_anode info)))) (\<lambda>r. case r of
               None \<Rightarrow> reply (RError EIO)
             | Some entries \<Rightarrow>
                 bindM (child_rows cfg ino entries) (\<lambda>rows.
                 reply_dir full offset
                   ([(ino, Directory, rs ''.''), (ii_parent_ino info, Directory, rs ''..'')] @ rows @
                    (if ino = FUSE_ROOT_INO \<and> dd then [(TRASHCAN_INO, Directory, rs ''.Trashcan'')]
                     else []))))))"

text \<open>The open flags the handler looks at, as booleans.\<close>

record open_flags =
  o_wronly :: bool
  o_rdwr :: bool
  o_trunc :: bool
  o_append :: bool

definition open_buffer :: "u64 \<Rightarrow> inode_info \<Rightarrow> bool \<Rightarrow> (fs_inner, unit) rm" where
  "open_buffer ino info trunc =
     bindM (inode (ii_parent_ino info)) (\<lambda>p.
     let parent_anode = (case p of None \<Rightarrow> ANODE_ROOTDIR | Some i \<Rightarrow> ii_anode i) in
     bindM (if trunc then retM []
            else bindM (tryM (on_fs_vol (read_file_data (ii_anode info) (fa_size (ii_attr info))))) (\<lambda>r.
                   retM (case r of Some data \<Rightarrow> data | None \<Rightarrow> []))) (\<lambda>data.
       put_buf ino (parent_anode, ii_name info, data)))"

definition fuse_open :: "fuse_config \<Rightarrow> u64 \<Rightarrow> open_flags \<Rightarrow> handler" where
  "fuse_open cfg ino flags =
     bindM (inode ino) (\<lambda>i. case i of
       None \<Rightarrow> reply (RError ENOENT)
     | Some info \<Rightarrow>
         if is_dir_inode info then reply (RError EISDIR)
         else if fc_writable cfg \<and> (o_wronly flags \<or> o_rdwr flags \<or> o_trunc flags \<or> o_append flags)
         then bindM (open_buffer ino info (o_trunc flags)) (\<lambda>_. reply ROpened)
         else reply ROpened)"

definition fuse_read :: "u64 \<Rightarrow> u64 \<Rightarrow> u32 \<Rightarrow> handler" where
  "fuse_read ino offset sz =
     bindM (inode ino) (\<lambda>i. case i of
       None \<Rightarrow> reply (RError ENOENT)
     | Some info \<Rightarrow>
         bindM (tryM (on_fs_vol (read_file_range (ii_anode info) (fa_size (ii_attr info)) offset sz))) (\<lambda>r.
         case r of Some data \<Rightarrow> reply (RData data) | None \<Rightarrow> reply (RError EIO)))"

definition fuse_readlink :: "u64 \<Rightarrow> handler" where
  "fuse_readlink ino =
     bindM (inode ino) (\<lambda>i. case i of
       None \<Rightarrow> reply (RError ENOENT)
     | Some info \<Rightarrow>
         bindM (tryM (on_fs_vol (read_file_data (ii_anode info) (fa_size (ii_attr info))))) (\<lambda>r.
         case r of Some data \<Rightarrow> reply (RData data) | None \<Rightarrow> reply (RError EIO)))"

definition fuse_statfs :: handler where
  "fuse_statfs =
     bindM (getM (\<lambda>fs. va_vol (fs_access fs))) (\<lambda>vol.
     let rb = v_rootblock vol in
     reply (RStatfs \<lparr>sf_blocks = ucast (rb_disksize rb), sf_bfree = ucast (rb_blocksfree rb),
       sf_bavail = ucast (rb_blocksfree rb), sf_files = 0, sf_ffree = 0, sf_bsize = vol_block_size vol,
       sf_namelen = ucast (fnsize vol), sf_frsize = 0\<rparr>))"

section \<open>Write operations\<close>

definition fs_writer :: "(fs_inner, writer option) rm" where
  "fs_writer = getM (\<lambda>fs. va_writer (fs_access fs))"

text \<open>\<open>mkdir\<close> and \<open>create\<close> read the directory again to find the new entry.\<close>

definition reread_entry :: "u32 \<Rightarrow> rstr \<Rightarrow> (fs_inner, dir_entry option) rm" where
  "reread_entry parent_anode name =
     bindM (tryM (on_fs_vol (list_dir_by_anode parent_anode))) (\<lambda>r. retM (case r of
       None \<Rightarrow> None
     | Some entries \<Rightarrow> find (\<lambda>e. name_eq_ci (de_name e) name) entries))"

definition fuse_mkdir :: "nat \<Rightarrow> fuse_config \<Rightarrow> u64 \<Rightarrow> bytes \<Rightarrow> handler" where
  "fuse_mkdir now cfg parent name =
     (if \<not> fc_writable cfg then reply (RError EPERM)
      else case utf8_decode name of
        None \<Rightarrow> reply (RError EIO)
      | Some name_str \<Rightarrow>
          bindM (inode parent) (\<lambda>p. case p of
            None \<Rightarrow> reply (RError ENOENT)
          | Some pinfo \<Rightarrow>
              if \<not> is_dir_inode pinfo then reply (RError ENOENT)
              else bindM fs_writer (\<lambda>ww. case ww of
                None \<Rightarrow> reply (RError EPERM)
              | Some w \<Rightarrow>
                  bindM (tryM (on_writer w (create_dir_in now (ii_anode pinfo) name_str))) (\<lambda>r.
                  if r = None then reply (RError EIO)
                  else bindM (reread_entry (ii_anode pinfo) name_str) (\<lambda>e. case e of
                    None \<Rightarrow> reply (RError EIO)
                  | Some entry \<Rightarrow>
                      bindM (add_entry cfg parent entry) (\<lambda>(ino, attr).
                      bindM (put_name parent name_str ino) (\<lambda>_.
                        reply (REntry attr))))))))"

text \<open>\<open>unlink\<close> and \<open>rmdir\<close> share the removal and differ in their error and in the snapshot.\<close>

definition forget_name :: "u64 \<Rightarrow> rstr \<Rightarrow> (fs_inner, unit) rm" where
  "forget_name parent name =
     modifyM (\<lambda>fs. case fs_name_cache fs (parent, name) of
       None \<Rightarrow> fs
     | Some ino \<Rightarrow> fs\<lparr>fs_name_cache := (fs_name_cache fs)((parent, name) := None),
                    fs_inodes := (fs_inodes fs)(ino := None)\<rparr>)"

definition remove_name :: "errno \<Rightarrow> (fs_inner, unit) rm \<Rightarrow> fuse_config \<Rightarrow> u64 \<Rightarrow> bytes \<Rightarrow> handler" where
  "remove_name failed after cfg parent name =
     (if \<not> fc_writable cfg then reply (RError EPERM)
      else case utf8_decode name of
        None \<Rightarrow> reply (RError EIO)
      | Some name_str \<Rightarrow>
          bindM (inode parent) (\<lambda>p. case p of
            None \<Rightarrow> reply (RError ENOENT)
          | Some pinfo \<Rightarrow>
              bindM fs_writer (\<lambda>ww. case ww of
                None \<Rightarrow> reply (RError EPERM)
              | Some w \<Rightarrow>
                  bindM (tryM (on_writer w (delete_in (ii_anode pinfo) name_str))) (\<lambda>r.
                  if r = None then reply (RError failed)
                  else bindM (forget_name parent name_str) (\<lambda>_.
                       bindM after (\<lambda>_.
                         reply ROk))))))"

definition fuse_unlink :: "fuse_config \<Rightarrow> u64 \<Rightarrow> bytes \<Rightarrow> handler" where
  "fuse_unlink cfg parent name = remove_name EIO rebuild_deldir cfg parent name"

definition fuse_rmdir :: "fuse_config \<Rightarrow> u64 \<Rightarrow> bytes \<Rightarrow> handler" where
  "fuse_rmdir cfg parent name = remove_name ENOTEMPTY (retM ()) cfg parent name"

text \<open>The cached name moves with the file.\<close>

definition move_name :: "u64 \<Rightarrow> rstr \<Rightarrow> u64 \<Rightarrow> rstr \<Rightarrow> (fs_inner, unit) rm" where
  "move_name parent src newparent dst =
     bindM (getM (\<lambda>fs. fs_name_cache fs (parent, src))) (\<lambda>c.
     bindM (case c of
         None \<Rightarrow> retM ()
       | Some ino \<Rightarrow>
           bindM (upd_inode ino (\<lambda>info. info\<lparr>ii_name := dst, ii_parent_ino := newparent\<rparr>)) (\<lambda>_.
             put_name newparent dst ino)) (\<lambda>_.
     modifyM (\<lambda>fs. fs\<lparr>fs_name_cache := (fs_name_cache fs)((parent, src) := None)\<rparr>)))"

definition fuse_rename :: "nat \<Rightarrow> fuse_config \<Rightarrow> u64 \<Rightarrow> bytes \<Rightarrow> u64 \<Rightarrow> bytes \<Rightarrow> handler" where
  "fuse_rename now cfg parent name newparent newname =
     (if \<not> fc_writable cfg then reply (RError EPERM)
      else case utf8_decode name of
        None \<Rightarrow> reply (RError EIO)
      | Some src_name \<Rightarrow> (case utf8_decode newname of
          None \<Rightarrow> reply (RError EIO)
        | Some dst_name \<Rightarrow>
            bindM (inode parent) (\<lambda>p. case p of
              None \<Rightarrow> reply (RError ENOENT)
            | Some pinfo \<Rightarrow>
            bindM (inode newparent) (\<lambda>q. case q of
              None \<Rightarrow> reply (RError ENOENT)
            | Some qinfo \<Rightarrow>
            bindM fs_writer (\<lambda>ww. case ww of
              None \<Rightarrow> reply (RError EPERM)
            | Some w \<Rightarrow>
                bindM (tryM (on_writer w (rename_in now (ii_anode pinfo) src_name (ii_anode qinfo) dst_name))) (\<lambda>r.
                if r = None then reply (RError EIO)
                else bindM (move_name parent src_name newparent dst_name) (\<lambda>_. reply ROk)))))))"

text \<open>\<open>buf.resize(n, 0)\<close>, and the change \<open>write\<close> makes to a buffer; \<open>usize\<close> addition wraps.\<close>

definition resize :: "bytes \<Rightarrow> nat \<Rightarrow> bytes" where
  "resize buf n = take n buf @ replicate (n - length buf) 0"

definition write_buf :: "bytes \<Rightarrow> nat \<Rightarrow> bytes \<Rightarrow> bytes outcome" where
  "write_buf buf off data =
     (let fin = (off + length data) mod 2 ^ 64;
          buf = (if fin > length buf then resize buf fin else buf)
      in if off \<le> fin \<and> fin \<le> length buf \<and> fin - off = length data then Ok (splice buf off data) else Panic)"

definition set_attr_size :: "u64 \<Rightarrow> inode_info \<Rightarrow> inode_info" where
  "set_attr_size n info = info\<lparr>ii_attr := (ii_attr info)\<lparr>fa_size := n\<rparr>\<rparr>"

definition fuse_write :: "fuse_config \<Rightarrow> u64 \<Rightarrow> u64 \<Rightarrow> bytes \<Rightarrow> handler" where
  "fuse_write cfg ino offset data =
     (if \<not> fc_writable cfg then reply (RError EPERM)
      else
        bindM (getM (\<lambda>fs. fs_write_bufs fs ino)) (\<lambda>b. case b of
          None \<Rightarrow> reply (RError EIO)
        | Some (parent_anode, name, buf) \<Rightarrow>
            bindM (liftO (write_buf buf (unat offset) data)) (\<lambda>buf'.
            bindM (put_buf ino (parent_anode, name, buf')) (\<lambda>_.
            bindM (upd_inode ino (set_attr_size (of_nat (length buf')))) (\<lambda>_.
              reply (RWritten (of_nat (length data))))))))"

definition fuse_create :: "nat \<Rightarrow> fuse_config \<Rightarrow> u64 \<Rightarrow> bytes \<Rightarrow> handler" where
  "fuse_create now cfg parent name =
     (if \<not> fc_writable cfg then reply (RError EPERM)
      else case utf8_decode name of
        None \<Rightarrow> reply (RError EIO)
      | Some name_str \<Rightarrow>
          bindM (inode parent) (\<lambda>p. case p of
            None \<Rightarrow> reply (RError ENOENT)
          | Some pinfo \<Rightarrow>
              if \<not> is_dir_inode pinfo then reply (RError ENOENT)
              else bindM fs_writer (\<lambda>ww. case ww of
                None \<Rightarrow> reply (RError EPERM)
              | Some w \<Rightarrow>
                  bindM (tryM (on_writer w (write_file_in now (ii_anode pinfo) name_str []))) (\<lambda>r.
                  if r = None then reply (RError EIO)
                  else bindM (reread_entry (ii_anode pinfo) name_str) (\<lambda>e. case e of
                    None \<Rightarrow> reply (RError EIO)
                  | Some entry \<Rightarrow>
                      bindM (add_entry cfg parent entry) (\<lambda>(ino, attr).
                      bindM (put_name parent name_str ino) (\<lambda>_.
                      bindM (put_buf ino (ii_anode pinfo, name_str, [])) (\<lambda>_.
                        reply (RCreated attr)))))))))"

definition set_attr_len :: "u64 \<Rightarrow> u64 \<Rightarrow> inode_info \<Rightarrow> inode_info" where
  "set_attr_len len blocks info = info\<lparr>ii_attr := (ii_attr info)\<lparr>fa_size := len, fa_blocks := blocks\<rparr>\<rparr>"

definition store_buffer :: "nat \<Rightarrow> fuse_config \<Rightarrow> u64 \<Rightarrow> u32 \<Rightarrow> rstr \<Rightarrow> bytes \<Rightarrow> handler" where
  "store_buffer now cfg ino parent_anode name data =
     bindM (inode ino) (\<lambda>i.
     let file_anode = (case i of None \<Rightarrow> 0 | Some info \<Rightarrow> ii_anode info) in
     bindM fs_writer (\<lambda>ww. case ww of
       None \<Rightarrow> reply ROk
     | Some w \<Rightarrow>
         if file_anode = 0 then reply ROk
         else
           bindM (tryM (on_writer w (overwrite_file_in now parent_anode name file_anode data))) (\<lambda>r.
           if r = None
           then bindM (put_buf ino (parent_anode, name, data)) (\<lambda>_. reply (RError EIO))
           else
             let len = of_nat (length data) :: u64 in
             bindM (if i = None then retM 0
                    else liftO (u64_div_ceil len (ucast (fc_block_size cfg)))) (\<lambda>blocks.
             bindM (upd_inode ino (set_attr_len len blocks)) (\<lambda>_.
             bindM (drop_buf ino) (\<lambda>_.
               reply ROk))))))"

definition fuse_release :: "nat \<Rightarrow> fuse_config \<Rightarrow> u64 \<Rightarrow> handler" where
  "fuse_release now cfg ino =
     bindM (getM (\<lambda>fs. fs_write_bufs fs ino)) (\<lambda>b.
     bindM (drop_buf ino) (\<lambda>_. case b of
       None \<Rightarrow> reply ROk
     | Some (parent_anode, name, data) \<Rightarrow>
         if data = [] then reply ROk else store_buffer now cfg ino parent_anode name data))"

definition set_attr_prot :: "u8 \<Rightarrow> bool \<Rightarrow> inode_info \<Rightarrow> inode_info" where
  "set_attr_prot prot dir info =
     info\<lparr>ii_attr := (ii_attr info)\<lparr>fa_perm := mode_perm prot dir\<rparr>, ii_amiga_protection := prot\<rparr>"

text \<open>
  Store new protection bits for an inode: in its directory entry when there is a writer, then in
  the inode table; \<open>Some\<close> is the error reply.
\<close>

definition store_protection :: "u64 \<Rightarrow> inode_info \<Rightarrow> u8 \<Rightarrow> (fs_inner, fuse_reply option) rm" where
  "store_protection ino info prot =
     bindM (inode (ii_parent_ino info)) (\<lambda>p. case p of
       None \<Rightarrow> retM None
     | Some pinfo \<Rightarrow>
         bindM fs_writer (\<lambda>ww.
         bindM (case ww of
             None \<Rightarrow> retM (Some ())
           | Some w \<Rightarrow> tryM (on_writer w (update_dir_entry_protection (ii_anode pinfo) (ii_name info) prot))) (\<lambda>r.
         if r = None then retM (Some (RError EIO))
         else bindM (upd_inode ino (set_attr_prot prot (is_dir_inode info))) (\<lambda>_. retM None))))"

definition setattr_size :: "u64 \<Rightarrow> u64 \<Rightarrow> (fs_inner, unit) rm" where
  "setattr_size ino new_size =
     bindM (upd_inode ino (set_attr_size new_size)) (\<lambda>_.
     bindM (getM (\<lambda>fs. fs_write_bufs fs ino)) (\<lambda>b. case b of
       None \<Rightarrow> retM ()
     | Some (parent_anode, name, buf) \<Rightarrow>
         put_buf ino (parent_anode, name, resize buf (unat new_size))))"

definition fuse_setattr :: "fuse_config \<Rightarrow> u64 \<Rightarrow> u32 option \<Rightarrow> u64 option \<Rightarrow> handler" where
  "fuse_setattr cfg ino mode sz =
     bindM (case sz of None \<Rightarrow> retM () | Some new_size \<Rightarrow> setattr_size ino new_size) (\<lambda>_.
     bindM (inode ino) (\<lambda>i.
     bindM (case mode of
         None \<Rightarrow> retM None
       | Some new_mode \<Rightarrow>
           if \<not> fc_writable cfg then retM (Some (RError EPERM))
           else (case i of
             None \<Rightarrow> retM None
           | Some info \<Rightarrow>
               store_protection ino info
                 ((ii_amiga_protection info AND 0xF0) OR (unix_mode_to_amiga_protection new_mode AND 0x0F))))
       (\<lambda>early. case early of
         Some r \<Rightarrow> reply r
       | None \<Rightarrow>
           bindM (inode ino) (\<lambda>i. case i of
             Some info \<Rightarrow> reply (RAttr (ii_attr info))
           | None \<Rightarrow> reply (RError ENOENT)))))"

section \<open>Extended attributes\<close>

definition XATTR_PROTECTION :: rstr where
  "XATTR_PROTECTION = rs ''user.amiga.protection''"

definition reply_xattr :: "u32 \<Rightarrow> bytes \<Rightarrow> handler" where
  "reply_xattr sz val =
     (if sz = 0 then reply (RSize (of_nat (length val)))
      else if sz < of_nat (length val) then reply (RError ERANGE)
      else reply (RData val))"

definition fuse_getxattr :: "u64 \<Rightarrow> bytes \<Rightarrow> u32 \<Rightarrow> handler" where
  "fuse_getxattr ino name sz =
     (if ino = FUSE_ROOT_INO \<or> ino = TRASHCAN_INO then reply (RError NO_XATTR)
      else case utf8_decode name of
        None \<Rightarrow> reply (RError ENOENT)
      | Some name_str \<Rightarrow>
          if name_str \<noteq> XATTR_PROTECTION then reply (RError NO_XATTR)
          else bindM (inode ino) (\<lambda>i. case i of
            None \<Rightarrow> reply (RError ENOENT)
          | Some info \<Rightarrow> reply_xattr sz (as_bytes (amiga_protection_string (ii_amiga_protection info)))))"

definition fuse_setxattr :: "fuse_config \<Rightarrow> u64 \<Rightarrow> bytes \<Rightarrow> bytes \<Rightarrow> handler" where
  "fuse_setxattr cfg ino name val =
     (if \<not> fc_writable cfg then reply (RError EPERM)
      else case utf8_decode name of
        None \<Rightarrow> reply (RError EIO)
      | Some name_str \<Rightarrow>
          if name_str \<noteq> XATTR_PROTECTION then reply (RError ENOTSUP)
          else (case utf8_decode val of
            None \<Rightarrow> reply (RError EIO)
          | Some s \<Rightarrow>
              bindM (inode ino) (\<lambda>i.
              let current = (case i of None \<Rightarrow> 0 | Some info \<Rightarrow> ii_amiga_protection info) in
              case parse_amiga_protection current (str_trim s) of
                None \<Rightarrow> reply (RError EIO)
              | Some new_prot \<Rightarrow>
                  (case i of
                     None \<Rightarrow> reply (RError ENOENT)
                   | Some info \<Rightarrow>
                       bindM (store_protection ino info new_prot) (\<lambda>early.
                       reply (case early of Some r \<Rightarrow> r | None \<Rightarrow> ROk))))))"

definition fuse_listxattr :: "u64 \<Rightarrow> u32 \<Rightarrow> handler" where
  "fuse_listxattr ino sz =
     bindM (inode ino) (\<lambda>i.
     if i = None then reply (RError ENOENT)
     else if ino = FUSE_ROOT_INO \<or> ino = TRASHCAN_INO
     then (if sz = 0 then reply (RSize 0) else reply (RData []))
     else reply_xattr sz (as_bytes XATTR_PROTECTION @ [0]))"

section \<open>The server\<close>

datatype request =
    GetAttr u64
  | Lookup u64 bytes
  | ReadDir u64 u64
  | Open u64 open_flags
  | Read u64 u64 u32
  | ReadLink u64
  | StatFs
  | MkDir u64 bytes
  | Unlink u64 bytes
  | RmDir u64 bytes
  | Rename u64 bytes u64 bytes
  | Write u64 u64 bytes
  | Create u64 bytes
  | Release u64
  | SetAttr u64 "u32 option" "u64 option"
  | GetXattr u64 bytes u32
  | SetXattr u64 bytes bytes
  | ListXattr u64 u32

text \<open>The handlers of \<open>impl Filesystem for Pfs3Fs\<close>; \<open>now\<close> is the clock.\<close>

fun fuse_handle :: "(dirent list \<Rightarrow> dirent \<Rightarrow> bool) \<Rightarrow> nat \<Rightarrow> fuse_config \<Rightarrow> request \<Rightarrow> handler" where
  "fuse_handle full now cfg (GetAttr ino) = fuse_getattr cfg ino"
| "fuse_handle full now cfg (Lookup parent name) = fuse_lookup cfg parent name"
| "fuse_handle full now cfg (ReadDir ino offset) = fuse_readdir cfg full ino offset"
| "fuse_handle full now cfg (Open ino flags) = fuse_open cfg ino flags"
| "fuse_handle full now cfg (Read ino offset sz) = fuse_read ino offset sz"
| "fuse_handle full now cfg (ReadLink ino) = fuse_readlink ino"
| "fuse_handle full now cfg StatFs = fuse_statfs"
| "fuse_handle full now cfg (MkDir parent name) = fuse_mkdir now cfg parent name"
| "fuse_handle full now cfg (Unlink parent name) = fuse_unlink cfg parent name"
| "fuse_handle full now cfg (RmDir parent name) = fuse_rmdir cfg parent name"
| "fuse_handle full now cfg (Rename parent name newparent newname) =
     fuse_rename now cfg parent name newparent newname"
| "fuse_handle full now cfg (Write ino offset data) = fuse_write cfg ino offset data"
| "fuse_handle full now cfg (Create parent name) = fuse_create now cfg parent name"
| "fuse_handle full now cfg (Release ino) = fuse_release now cfg ino"
| "fuse_handle full now cfg (SetAttr ino mode sz) = fuse_setattr cfg ino mode sz"
| "fuse_handle full now cfg (GetXattr ino name sz) = fuse_getxattr ino name sz"
| "fuse_handle full now cfg (SetXattr ino name val) = fuse_setxattr cfg ino name val"
| "fuse_handle full now cfg (ListXattr ino sz) = fuse_listxattr ino sz"

text \<open>
  The states the server reaches, with the requests and replies so far.  The lock serialises the
  handlers; a handler that panics poisons it, so there is no step after a panic.
\<close>

inductive fuse_reach ::
  "(dirent list \<Rightarrow> dirent \<Rightarrow> bool) \<Rightarrow> fuse_config \<Rightarrow> fs_inner \<Rightarrow> (request \<times> fuse_reply) list \<Rightarrow> fs_inner \<Rightarrow> bool"
  for full cfg fs0 where
  reach_start: "fuse_reach full cfg fs0 [] fs0"
| reach_step: "fuse_reach full cfg fs0 tr fs \<Longrightarrow> fuse_handle full now cfg req fs = (Ok r, fs') \<Longrightarrow>
    fuse_reach full cfg fs0 (tr @ [(req, r)]) fs'"

inductive_cases reach_snocE: "fuse_reach full cfg fs0 (tr @ [x]) fs"

text \<open>The set-up of \<open>main\<close>: open the volume, for writing with \<open>--write\<close>, and start the server.\<close>

definition mount_access :: "bytes \<Rightarrow> nat \<Rightarrow> bool \<Rightarrow> volume_access outcome" where
  "mount_access img offset rw =
     (if rw then bindO (open_auto img offset None True) (\<lambda>vol. bindO (Writer_open vol) (\<lambda>w. Ok (VA_ReadWrite w)))
      else bindO (open_auto img offset None False) (\<lambda>vol. Ok (VA_ReadOnly vol)))"

definition fuse_mount :: "u32 \<Rightarrow> u32 \<Rightarrow> bytes \<Rightarrow> nat \<Rightarrow> bool \<Rightarrow> (fuse_config \<times> fs_inner) outcome" where
  "fuse_mount uid gid img offset rw =
     bindO (mount_access img offset rw) (\<lambda>access.
       case Pfs3Fs_new uid gid access of (cfg, r) \<Rightarrow> bindO r (\<lambda>fs. Ok (cfg, fs)))"

end
