(* ===== verification/Fuse_Server.thy ===== *)
theory Fuse_Server
  imports Fuse
begin

text \<open>
  Properties of the FUSE server: what every sequence of requests keeps, what \<open>read\<close>, \<open>readdir\<close>,
  \<open>write\<close> and \<open>release\<close> answer, and where the server's view and the volume part.
\<close>

section \<open>What every step keeps\<close>

text \<open>
  An invariant of the served state is kept by every sequence of requests when it is kept by every
  handler.
\<close>

lemma fuse_reach_invariant:
  assumes "fuse_reach full cfg fs0 tr fs" "P fs0" "\<And>now req. preserves P (fuse_handle full now cfg req)"
  shows "P fs"
  using assms
proof (induction rule: fuse_reach.induct)
  case (reach_step tr fs now req r fs')
  then show ?case using preservesD [OF reach_step.prems(2) [of now req], of fs] by simp
qed

lemma preserves_modify: "(\<And>s. P s \<Longrightarrow> P (f s)) \<Longrightarrow> preserves P (modifyM f)"
  by (simp add: preserves_def)

lemma preserves_reply [keeps]: "preserves P (reply r)"
  by (simp add: reply_def preserves_ret)

lemma preserves_xattr [keeps]: "preserves P (reply_xattr sz v)"
  unfolding reply_xattr_def by (intro keeps)

lemma preserves_fs_writer [keeps]: "preserves P fs_writer"
  and preserves_inode [keeps]: "preserves P (inode ino)"
  by (simp_all add: fs_writer_def inode_def preserves_get)

text \<open>Handlers touch the inode table, the name cache and the buffers through these operations only.\<close>

lemmas table_defs = put_inode_def upd_inode_def put_name_def put_buf_def drop_buf_def

text \<open>A read-only mount: the volume is the one that was opened, up to its cache.\<close>

definition mounted_ro :: "volume \<Rightarrow> fs_inner \<Rightarrow> bool" where
  "mounted_ro v0 fs \<longleftrightarrow> (\<exists>v. fs_access fs = VA_ReadOnly v \<and> same_volume v0 v)"

lemma mounted_ro_access: "fs_access fs' = fs_access fs \<Longrightarrow> mounted_ro v0 fs \<Longrightarrow> mounted_ro v0 fs'"
  by (simp add: mounted_ro_def)

lemma ro_table [keeps]:
  "preserves (mounted_ro v0) (put_inode ino info)" "preserves (mounted_ro v0) (upd_inode ino f)"
  "preserves (mounted_ro v0) (put_name p n ino)" "preserves (mounted_ro v0) (put_buf ino b)"
  "preserves (mounted_ro v0) (drop_buf ino)"
  by (auto simp: table_defs mounted_ro_def intro!: preserves_modify)

lemma ro_volume:
  assumes "transparent (same_volume v0) m r"
  shows "preserves (mounted_ro v0) (on_fs_vol m)"
  unfolding on_fs_vol_def
  by (rule preserves_zoom [where Q = "same_volume v0"])
    (use assms in \<open>auto simp: mounted_ro_def transparent_def preserves_def\<close>)

lemma ro_no_writer:
  assumes "preserves (mounted_ro v0) (k None)"
  shows "preserves (mounted_ro v0) (bindM fs_writer k)"
  using assms by (auto simp: preserves_def mounted_ro_def fs_writer_def)

lemma ro_store_buffer: "preserves (mounted_ro v0) (store_buffer now cfg ino pa n data)"
  unfolding store_buffer_def Let_def
  by (rule preserves_bind [OF preserves_inode]) (rule ro_no_writer, simp add: preserves_reply)

lemma same_volume_trans:
  assumes "same_volume v0 v1" "same_volume v1 v2"
  shows "same_volume v0 v2"
proof -
  obtain c where v1: "v1 = v0\<lparr>v_cache := c\<rparr>" using assms(1) unfolding same_volume_def by blast
  have v2: "v2 = v1\<lparr>v_cache := v_cache v2\<rparr>" using assms(2) unfolding same_volume_def by blast
  then have "v2 = v0\<lparr>v_cache := v_cache v2\<rparr>" unfolding v1 by simp
  with same_volume_coherent [OF assms(2)] show ?thesis by (simp add: same_volume_def v1)
qed

lemma ro_volume_wf:
  assumes "vol_wf v0" "\<And>v. vol_wf v \<Longrightarrow> same_volume v (snd (m v))"
  shows "preserves (mounted_ro v0) (on_fs_vol m)"
  unfolding on_fs_vol_def
  by (rule preserves_zoom [where Q = "same_volume v0"])
    (use assms in \<open>auto simp: mounted_ro_def preserves_def intro: same_volume_trans same_volume_wf\<close>)

lemma read_file_range_same:
  assumes "vol_wf v"
  shows "same_volume v (snd (read_file_range nr fsize off len v))"
proof (cases "off < fsize")
  case True
  then show ?thesis
    using transparentD2 [OF read_file_range_transparent [OF assms True]] same_volume_refl [OF assms] by blast
qed (simp add: read_file_range_def not_less same_volume_refl assms)

lemma ro_reads:
  assumes "vol_wf v0"
  shows "preserves (mounted_ro v0) (on_fs_vol (list_dir_by_anode a))"
    "preserves (mounted_ro v0) (on_fs_vol (read_file_data a n))"
    "preserves (mounted_ro v0) (on_fs_vol (read_file_range a n off len))"
    "preserves (mounted_ro v0) (on_fs_vol list_deldir)"
  by (rule ro_volume [OF list_dir_by_anode_transparent [OF assms]]
      ro_volume [OF read_file_data_transparent [OF assms]]
      ro_volume_wf [OF assms read_file_range_same] ro_volume_wf [OF assms list_deldir_ref [THEN conjunct2]],
      assumption?)+

lemma ro_handle:
  assumes wf: "vol_wf v0" and ro: "\<not> fc_writable cfg"
  shows "preserves (mounted_ro v0) (fuse_handle full now cfg req)"
proof (cases req)
  case (GetAttr ino) then show ?thesis by (simp add: fuse_getattr_def) (intro keeps)
next
  case (Lookup parent name)
  have "preserves (mounted_ro v0) (lookup_deleted cfg n)" for n
    unfolding lookup_deleted_def Let_def by (intro keeps)
  moreover have "preserves (mounted_ro v0) (lookup_entry cfg parent n)" for n
    unfolding lookup_entry_def add_entry_def by (intro keeps ro_reads wf)
  ultimately show ?thesis unfolding Lookup fuse_handle.simps fuse_lookup_def by (intro keeps)
next
  case (ReadDir ino offset)
  have "preserves (mounted_ro v0) (child_rows cfg i es)" for i es
    unfolding child_rows_def add_entry_def by (intro keeps)
  then show ?thesis unfolding ReadDir fuse_handle.simps fuse_readdir_def reply_dir_def by (intro keeps ro_reads wf)
next
  case (Open ino flags) then show ?thesis using ro by (simp add: fuse_open_def) (intro keeps, simp)
next
  case (Read ino offset sz) then show ?thesis by (simp add: fuse_read_def) (intro keeps ro_reads wf)
next
  case (ReadLink ino) then show ?thesis by (simp add: fuse_readlink_def) (intro keeps ro_reads wf)
next
  case StatFs then show ?thesis by (simp add: fuse_statfs_def Let_def) (intro keeps)
next
  case (MkDir parent name) then show ?thesis using ro by (simp add: fuse_mkdir_def preserves_reply)
next
  case (Unlink parent name)
  then show ?thesis using ro by (simp add: fuse_unlink_def remove_name_def preserves_reply)
next
  case (RmDir parent name)
  then show ?thesis using ro by (simp add: fuse_rmdir_def remove_name_def preserves_reply)
next
  case (Rename p n q m) then show ?thesis using ro by (simp add: fuse_rename_def preserves_reply)
next
  case (Write ino off data) then show ?thesis using ro by (simp add: fuse_write_def preserves_reply)
next
  case (Create parent name) then show ?thesis using ro by (simp add: fuse_create_def preserves_reply)
next
  case (Release ino) then show ?thesis by (simp add: fuse_release_def) (intro keeps ro_store_buffer)
next
  case (SetAttr ino mode sz)
  then show ?thesis using ro by (simp add: fuse_setattr_def setattr_size_def cong: option.case_cong) (intro keeps)
next
  case (GetXattr ino name sz)
  show ?thesis unfolding GetXattr fuse_handle.simps fuse_getxattr_def by (intro keeps)
next
  case (SetXattr ino name val) then show ?thesis using ro by (simp add: fuse_setxattr_def preserves_reply)
next
  case (ListXattr ino sz)
  show ?thesis unfolding ListXattr fuse_handle.simps fuse_listxattr_def by (intro keeps)
qed

section \<open>Mounting\<close>

lemma ro_rebuild_deldir: "vol_wf v0 \<Longrightarrow> preserves (mounted_ro v0) rebuild_deldir"
  unfolding rebuild_deldir_def Let_def
  by (intro keeps ro_reads preserves_modify) (auto intro: mounted_ro_access)

lemma fuse_mount_ro:
  assumes "fuse_mount uid gid img off False = Ok (cfg, fs)"
  obtains v where "vol_wf v" "d_contents (v_dev v) = img" "mounted_ro v fs" "\<not> fc_writable cfg"
proof -
  obtain v where v: "open_auto img off None False = Ok v" "Pfs3Fs_new uid gid (VA_ReadOnly v) = (cfg, Ok fs)"
    using assms by (cases "open_auto img off None False")
      (auto simp: fuse_mount_def mount_access_def bindO_eq_Ok split: prod.splits)
  note wf = open_auto_device [OF v(1)]
  let ?fs0 = "fs_initial uid gid (VA_ReadOnly v)"
  have "mounted_ro v ?fs0" using same_volume_refl [OF wf(1)] by (simp add: mounted_ro_def fs_initial_def)
  then have "mounted_ro v (snd (rebuild_deldir ?fs0))" by (rule preservesD [OF ro_rebuild_deldir [OF wf(1)]])
  then have "mounted_ro v fs" "\<not> fc_writable cfg"
    using v(2) by (auto simp: Pfs3Fs_new_def Let_def bindO_eq_Ok split: prod.splits)
  with wf show thesis by (rule that)
qed

text \<open>
  C10. A volume mounted without \<^verbatim>\<open>--write\<close> is never changed: whatever sequence of requests the server
  answers, the image behind its device keeps every byte of the image that was mounted.
\<close>

theorem fuse_readonly_image:
  assumes "fuse_mount uid gid img off False = Ok (cfg, fs0)" "fuse_reach full cfg fs0 tr fs"
  shows "d_contents (v_dev (va_vol (fs_access fs))) = img"
proof -
  obtain v where v: "vol_wf v" "d_contents (v_dev v) = img" "mounted_ro v fs0" "\<not> fc_writable cfg"
    using fuse_mount_ro [OF assms(1)] by blast
  have "mounted_ro v fs"
    by (rule fuse_reach_invariant [OF assms(2), where P = "mounted_ro v"]) (rule v(3), rule ro_handle [OF v(1,4)])
  then show ?thesis using v(2) by (auto simp: mounted_ro_def same_volume_fields)
qed

lemma rebuild_deldir_returns:
  assumes "vol_wf v" "fs_access fs = VA_ReadOnly v"
  shows "\<exists>fs'. rebuild_deldir fs = (Ok (), fs')"
proof -
  have "fst (list_deldir v) \<noteq> Panic"
    using list_deldir_ref [OF assms(1)] mapO_not_Panic [of _ "deldir_ref v"] deldir_ref_not_Panic [OF assms(1)]
    by (auto simp: bindO_eq_Panic split: option.splits)
  then show ?thesis
    using assms(2) by (auto simp: rebuild_deldir_def bindM_def tryM_def on_fs_vol_def zoomM_def Let_def
        split: prod.splits outcome.splits)
qed

lemma sample_image_mounts: "\<exists>cfg fs. fuse_mount 0 0 sample_image 512 False = Ok (cfg, fs) \<and> \<not> fc_writable cfg"
proof -
  obtain v where v: "open_auto sample_image 512 None False = Ok v" using sample_image_opens by blast
  obtain fs where "rebuild_deldir (fs_initial 0 0 (VA_ReadOnly v)) = (Ok (), fs)"
    using rebuild_deldir_returns [OF open_auto_device(1) [OF v]] by (force simp: fs_initial_def)
  then show ?thesis by (simp add: fuse_mount_def mount_access_def v Pfs3Fs_new_def)
qed

theorem fuse_readonly_image_witness:
  "\<exists>cfg fs0 fs. fuse_mount 0 0 sample_image 512 False = Ok (cfg, fs0) \<and>
     fuse_reach (\<lambda>_ _. False) cfg fs0 [(Unlink 1 [102], RError EPERM)] fs \<and>
     d_contents (v_dev (va_vol (fs_access fs))) = sample_image"
proof -
  obtain cfg fs0 where m: "fuse_mount 0 0 sample_image 512 False = Ok (cfg, fs0)" "\<not> fc_writable cfg"
    using sample_image_mounts by blast
  have "fuse_handle (\<lambda>_ _. False) 0 cfg (Unlink 1 [102]) fs0 = (Ok (RError EPERM), fs0)"
    using m(2) by (simp add: fuse_unlink_def remove_name_def reply_def)
  from reach_step [OF reach_start this]
  have r: "fuse_reach (\<lambda>_ _. False) cfg fs0 [(Unlink 1 [102], RError EPERM)] fs0" by simp
  from fuse_readonly_image [OF m(1) r] m(1) r show ?thesis by blast
qed

lemma fuse_mountE:
  assumes "fuse_mount uid gid img off rw = Ok (cfg, fs)"
  obtains access where "mount_access img off rw = Ok access"
    "fs = snd (rebuild_deldir (fs_initial uid gid access))"
proof (cases "mount_access img off rw")
  case (Ok access)
  obtain r t where "rebuild_deldir (fs_initial uid gid access) = (r, t)" by force
  with assms Ok show thesis
    by (intro that [OF Ok]) (auto simp: fuse_mount_def Pfs3Fs_new_def Let_def bindO_eq_Ok)
qed (use assms in \<open>simp_all add: fuse_mount_def\<close>)

lemma fuse_mount_root:
  assumes "fuse_mount uid gid img off rw = Ok (cfg, fs)"
  shows "fs_inodes fs FUSE_ROOT_INO \<noteq> None"
proof -
  obtain access where "fs = snd (rebuild_deldir (fs_initial uid gid access))"
    using fuse_mountE [OF assms] by blast
  moreover have "fs_inodes (snd (rebuild_deldir (fs_initial uid gid access))) FUSE_ROOT_INO \<noteq> None" for access
    by (auto simp: rebuild_deldir_def bindM_def tryM_def on_fs_vol_def zoomM_def fs_initial_def Let_def
        split: prod.splits outcome.splits)
  ultimately show ?thesis by simp
qed

section \<open>The inode table\<close>

text \<open>An inode number stands for an anode: its own, or that of a file of the current snapshot.\<close>

definition inode_ok :: "fuse_deldir list \<Rightarrow> u64 \<Rightarrow> inode_info \<Rightarrow> bool" where
  "inode_ok dd ino info \<longleftrightarrow>
     fa_ino (ii_attr info) = ino \<and>
     (ino = anode_to_ino (ii_anode info) \<or> (\<exists>de\<in>set dd. fd_ino de = ino \<and> fd_anode de = ii_anode info))"

definition inodes_ok :: "fs_inner \<Rightarrow> bool" where
  "inodes_ok fs \<longleftrightarrow> (\<forall>ino info. fs_inodes fs ino = Some info \<longrightarrow> inode_ok (fs_deldir fs) ino info)"

lemma inodes_ok_on_vol [keeps]: "preserves inodes_ok (on_fs_vol m)"
  by (auto simp: preserves_def on_fs_vol_def zoomM_def inodes_ok_def split: prod.splits)

lemma inodes_ok_on_writer [keeps]: "preserves inodes_ok (on_writer w m)"
  by (auto simp: preserves_def on_writer_def inodes_ok_def split: prod.splits)

lemma inodes_ok_tables [keeps]:
  "preserves inodes_ok (put_name p n i)" "preserves inodes_ok (put_buf i b)" "preserves inodes_ok (drop_buf i)"
  "preserves inodes_ok (forget_name p n)"
  by (auto simp: table_defs forget_name_def inodes_ok_def intro!: preserves_modify split: option.splits if_splits)

lemma inodes_okD: "inodes_ok fs \<Longrightarrow> fs_inodes fs ino = Some info \<Longrightarrow> inode_ok (fs_deldir fs) ino info"
  by (simp add: inodes_ok_def)

lemma inodes_ok_upd:
  assumes "\<And>info. ii_anode (f info) = ii_anode info" "\<And>info. fa_ino (ii_attr (f info)) = fa_ino (ii_attr info)"
  shows "preserves inodes_ok (upd_inode ino f)"
proof -
  have "inode_ok dd i (f info) = inode_ok dd i info" for dd i info by (simp add: inode_ok_def assms)
  then show ?thesis by (auto simp: upd_inode_def inodes_ok_def intro!: preserves_modify split: if_splits)
qed

lemma inodes_ok_setters [keeps]:
  "preserves inodes_ok (upd_inode ino (set_attr_size n))" "preserves inodes_ok (upd_inode ino (set_attr_len n b))"
  "preserves inodes_ok (upd_inode ino (set_attr_prot p dr))"
  "preserves inodes_ok (upd_inode ino (\<lambda>info. info\<lparr>ii_name := nm, ii_parent_ino := q\<rparr>))"
  by (auto simp: set_attr_size_def set_attr_len_def set_attr_prot_def intro!: inodes_ok_upd)

lemma inodes_ok_add_entry [keeps]: "preserves inodes_ok (add_entry cfg parent e)"
  by (auto simp: preserves_def add_entry_def make_attr_def put_inode_def inodes_ok_def inode_ok_def Let_def
      u64_div_ceil_def bindM_def split: if_splits)

lemma inodes_ok_rebuild [keeps]: "preserves inodes_ok rebuild_deldir"
proof -
  have "preserves inodes_ok (modifyM (\<lambda>fs. fs\<lparr>fs_inodes := fs_inodes fs |` (- fd_ino ` set (fs_deldir fs)),
      fs_deldir := dd\<rparr>))" for dd
    by (rule preserves_modify) (auto simp: inodes_ok_def inode_ok_def restrict_map_def image_iff split: if_splits; metis)
  then show ?thesis unfolding rebuild_deldir_def Let_def by (intro keeps)
qed

lemma inodes_ok_lookup_deleted [keeps]: "preserves inodes_ok (lookup_deleted cfg n)"
proof -
  have "inode_ok dd (fd_ino de) \<lparr>ii_attr = deldir_attr cfg de b, ii_anode = fd_anode de,
      ii_parent_ino = TRASHCAN_INO, ii_amiga_protection = 0, ii_name = fd_display_name de\<rparr>"
    if "find P dd = Some de" for P dd de b
  proof -
    have "de \<in> set dd" using that by (auto simp: find_Some_iff)
    then show ?thesis by (auto simp: inode_ok_def deldir_attr_def)
  qed
  then show ?thesis
    by (auto simp: preserves_def lookup_deleted_def Let_def put_inode_def put_name_def inodes_ok_def
      u64_div_ceil_def reply_def split: option.splits)
qed

lemma inodes_ok_parts [keeps]:
  "preserves inodes_ok (store_protection ino info p)" "preserves inodes_ok (setattr_size ino n)"
  "preserves inodes_ok (open_buffer ino info t)" "preserves inodes_ok (child_rows cfg ino es)"
  "preserves inodes_ok (lookup_entry cfg ino nm)" "preserves inodes_ok (reread_entry a nm)"
  "preserves inodes_ok (store_buffer now cfg ino a nm data)"
  unfolding store_protection_def setattr_size_def open_buffer_def child_rows_def lookup_entry_def
    reread_entry_def store_buffer_def Let_def
  by (intro keeps)+

lemma inodes_ok_move_name [keeps]: "preserves inodes_ok (move_name p n q m)"
  unfolding move_name_def by (intro keeps preserves_modify) (auto simp: inodes_ok_def)

lemmas handler_defs = fuse_getattr_def fuse_lookup_def fuse_readdir_def reply_dir_def fuse_open_def fuse_read_def
  fuse_readlink_def fuse_statfs_def fuse_mkdir_def fuse_unlink_def fuse_rmdir_def remove_name_def fuse_rename_def
  fuse_write_def fuse_create_def fuse_release_def fuse_setattr_def fuse_getxattr_def fuse_setxattr_def
  fuse_listxattr_def

lemma inodes_ok_handle: "preserves inodes_ok (fuse_handle full now cfg req)"
  by (cases req; simp only: fuse_handle.simps handler_defs Let_def; intro keeps)


text \<open>
  C11. The inode table of a mounted volume is consistent at every moment, read-only or not: an inode's
  attributes carry its own number, and the number is the one computed from the anode the inode
  refers to, unless it belongs to a deleted file of the current snapshot, which then names the
  same anode.
\<close>

theorem fuse_inodes_consistent:
  assumes "fuse_mount uid gid img off rw = Ok (cfg, fs0)" "fuse_reach full cfg fs0 tr fs"
    "fs_inodes fs ino = Some info"
  shows "fa_ino (ii_attr info) = ino \<and>
    (ino = anode_to_ino (ii_anode info) \<or>
     (\<exists>de\<in>set (fs_deldir fs). fd_ino de = ino \<and> fd_anode de = ii_anode info))"
proof -
  obtain access where "fs0 = snd (rebuild_deldir (fs_initial uid gid access))"
    using fuse_mountE [OF assms(1)] by blast
  moreover have "inodes_ok (fs_initial uid gid access)" for access
    by (simp add: inodes_ok_def inode_ok_def fs_initial_def root_attr_def anode_to_ino_def Let_def)
  ultimately have "inodes_ok fs0" using preservesD [OF inodes_ok_rebuild] by simp
  from fuse_reach_invariant [OF assms(2) this inodes_ok_handle]
  show ?thesis using assms(3) by (simp add: inodes_ok_def inode_ok_def)
qed

theorem fuse_inodes_consistent_witness:
  "\<exists>cfg fs0 info. fuse_mount 0 0 sample_image 512 False = Ok (cfg, fs0) \<and>
     fs_inodes fs0 1 = Some info \<and> fa_ino (ii_attr info) = 1"
proof -
  obtain cfg fs0 where m: "fuse_mount 0 0 sample_image 512 False = Ok (cfg, fs0)"
    using sample_image_mounts by blast
  obtain info where "fs_inodes fs0 1 = Some info"
    using fuse_mount_root [OF m] by (auto simp: FUSE_ROOT_INO_def)
  with fuse_inodes_consistent [OF m reach_start this] m show ?thesis by blast
qed

section \<open>Inode numbers\<close>

lemma unat_anode_to_ino: "unat (anode_to_ino a) = (if a = 5 then 1 else unat a + 100)"
proof -
  have "unat (ucast a + 100 :: u64) = unat a + 100"
    using unat_lt_2p [of a] by (subst unat_add_lt) (simp_all add: unat_ucast_up_simp)
  then show ?thesis by (simp add: anode_to_ino_def ino_defs ANODE_ROOTDIR_def)
qed

text \<open>
  C24. Inode numbers identify anodes: two anodes never share a number, no anode gets the number of the
  virtual trash directory, and exactly the anode numbers below \<open>0x7FFFFF9C\<close> stay below the numbers
  given to deleted files.
\<close>

theorem anode_to_ino_distinct:
  "inj anode_to_ino \<and> TRASHCAN_INO \<notin> range anode_to_ino \<and>
   (\<forall>a. anode_to_ino a < DELDIR_INO_BASE \<longleftrightarrow> unat a < 0x7FFFFF9C)"
proof (intro conjI allI)
  show "inj anode_to_ino"
  proof (rule injI)
    fix a b assume "anode_to_ino a = anode_to_ino b"
    then have "unat (anode_to_ino a) = unat (anode_to_ino b)" by simp
    then show "a = b" by (auto simp: unat_anode_to_ino split: if_splits intro: unsigned_word_eqI)
  qed
  have "anode_to_ino a \<noteq> 2" for a proof
    assume "anode_to_ino a = 2"
    then have "unat (anode_to_ino a) = 2" by simp
    with unat_anode_to_ino [of a] show False by (simp split: if_splits)
  qed
  then show "TRASHCAN_INO \<notin> range anode_to_ino" by (auto simp: TRASHCAN_INO_def)
  show "anode_to_ino a < DELDIR_INO_BASE \<longleftrightarrow> unat a < 0x7FFFFF9C" for a
    by (auto simp: word_less_nat_alt unat_anode_to_ino DELDIR_INO_BASE_def)
qed

section \<open>Reading and writing files\<close>

lemma ucast_nonzero: "(b :: u32) \<noteq> 0 \<Longrightarrow> (ucast b :: u64) \<noteq> 0"
proof
  assume b: "b \<noteq> 0" and "(ucast b :: u64) = 0"
  then have "unat (ucast b :: u64) = 0" by simp
  then show False using b by (simp add: unat_ucast_up_simp unat_eq_zero)
qed

lemma fuse_read_reply:
  assumes "fs_inodes fs ino = Some info"
  shows "fst (fuse_read ino off sz fs) =
    (case fst (read_file_range (ii_anode info) (fa_size (ii_attr info)) off sz (va_vol (fs_access fs))) of
       Ok data \<Rightarrow> Ok (RData data) | Err e \<Rightarrow> Ok (RError EIO) | Panic \<Rightarrow> Panic)"
  using assms by (auto simp: fuse_read_def inode_def bindM_def tryM_def on_fs_vol_def zoomM_def reply_def
      split: prod.splits outcome.splits)

text \<open>
  C19. A read request answers with the requested bytes of the file on the volume: for a known inode
  whose file can be read with the size in its attributes, the reply is exactly that range of the
  file's contents, shortened at its end.
\<close>

theorem fuse_read_slice:
  assumes "fs_inodes fs ino = Some info" "vol_wf (va_vol (fs_access fs))"
    "fst (read_file_data (ii_anode info) (fa_size (ii_attr info)) (va_vol (fs_access fs))) = Ok data"
    "unat off + unat sz < 2 ^ 64"
  shows "fst (fuse_read ino off sz fs) = Ok (RData (take (unat sz) (drop (unat off) data)))"
  using read_range_slice [OF assms(2,3,4)] by (simp add: fuse_read_reply [OF assms(1)])

text \<open>A server with one open file: the directory of the sample volume, seen as a file of 30 bytes.\<close>

definition sample_info :: inode_info where
  "sample_info =
     \<lparr>ii_attr = (trashcan_attr 0 0)\<lparr>fa_ino := 120, fa_size := 30, fa_kind := RegularFile\<rparr>,
      ii_anode = 5, ii_parent_ino = 1, ii_amiga_protection = 0, ii_name = rs ''x''\<rparr>"

definition sample_fs :: fs_inner where
  "sample_fs = (fs_initial 0 0 (VA_ReadOnly sample_volume))
     \<lparr>fs_inodes := [120 \<mapsto> sample_info], fs_write_bufs := [120 \<mapsto> (5, rs ''x'', [1, 2, 3])]\<rparr>"

definition sample_config :: fuse_config where
  "sample_config = \<lparr>fc_uid = 0, fc_gid = 0, fc_block_size = 128, fc_writable = True\<rparr>"

lemma sample_fs_simps:
  "fs_inodes sample_fs = [120 \<mapsto> sample_info]" "fs_access sample_fs = VA_ReadOnly sample_volume"
  "fs_write_bufs sample_fs = [120 \<mapsto> (5, rs ''x'', [1, 2, 3])]" "fc_writable sample_config"
  "ii_anode sample_info = 5" "fa_size (ii_attr sample_info) = 30" "fc_block_size sample_config = 128"
  "fa_kind (ii_attr sample_info) = RegularFile"
  by (simp_all add: sample_fs_def sample_info_def sample_config_def fs_initial_def)

theorem fuse_read_slice_witness:
  "fs_inodes sample_fs 120 = Some sample_info \<and>
   fst (fuse_read 120 28 10 sample_fs) = Ok (RData (drop 28 (take 30 (sample_dir_blocks 3))))"
  using fuse_read_slice [of sample_fs 120 sample_info "take 30 (sample_dir_blocks 3)" 28 10]
    sample_volume_wf sample_volume_data by (simp add: sample_fs_simps)

lemma length_resize: "n \<ge> length buf \<Longrightarrow> length (resize buf n) = n"
  by (simp add: resize_def)

lemma nth_resize: "length buf \<le> n \<Longrightarrow> i < n \<Longrightarrow> resize buf n ! i = (if i < length buf then buf ! i else 0)"
  by (simp add: resize_def nth_append)

lemma write_buf_Ok:
  assumes "off + length data < 2 ^ 64"
  obtains buf' where "write_buf buf off data = Ok buf'" "length buf' = max (length buf) (off + length data)"
    "\<And>i. i < length buf' \<Longrightarrow> buf' ! i =
       (if off \<le> i \<and> i < off + length data then data ! (i - off) else if i < length buf then buf ! i else 0)"
proof -
  let ?n = "off + length data"
  define base where "base = (if length buf < ?n then resize buf ?n else buf)"
  have len: "length base = max (length buf) ?n" by (simp add: base_def length_resize)
  have "write_buf buf off data = Ok (splice base off data)"
    using assms len by (auto simp: write_buf_def base_def Let_def)
  moreover have "length (splice base off data) = max (length buf) ?n" by (simp add: len)
  moreover have "splice base off data ! i =
      (if off \<le> i \<and> i < ?n then data ! (i - off) else if i < length buf then buf ! i else 0)"
    if "i < length (splice base off data)" for i
    using that len by (auto simp: nth_splice base_def nth_resize)
  ultimately show thesis by (rule that)
qed

lemma fuse_write_effect:
  assumes "fc_writable cfg" "fs_write_bufs fs ino = Some (pa, nm, buf)" "unat off + length data < 2 ^ 64"
  shows "\<exists>buf' fs'. fuse_write cfg ino off data fs = (Ok (RWritten (of_nat (length data))), fs') \<and>
    fs_write_bufs fs' = (fs_write_bufs fs)(ino \<mapsto> (pa, nm, buf')) \<and> fs_access fs' = fs_access fs \<and>
    fs_inodes fs' = (fs_inodes fs)(ino := map_option (set_attr_size (of_nat (length buf'))) (fs_inodes fs ino)) \<and>
    length buf' = max (length buf) (unat off + length data) \<and>
    (\<forall>i<length buf'. buf' ! i =
       (if unat off \<le> i \<and> i < unat off + length data then data ! (i - unat off)
        else if i < length buf then buf ! i else 0))"
proof -
  obtain buf' where b: "write_buf buf (unat off) data = Ok buf'"
      "length buf' = max (length buf) (unat off + length data)"
      "\<And>i. i < length buf' \<Longrightarrow> buf' ! i =
         (if unat off \<le> i \<and> i < unat off + length data then data ! (i - unat off)
          else if i < length buf then buf ! i else 0)"
    using write_buf_Ok [OF assms(3), of buf] by blast
  let ?fs = "fs\<lparr>fs_write_bufs := (fs_write_bufs fs)(ino \<mapsto> (pa, nm, buf')),
    fs_inodes := (fs_inodes fs)(ino := map_option (set_attr_size (of_nat (length buf'))) (fs_inodes fs ino))\<rparr>"
  have "fuse_write cfg ino off data fs = (Ok (RWritten (of_nat (length data))), ?fs)"
    using assms(1,2) b(1) by (simp add: fuse_write_def put_buf_def upd_inode_def reply_def)
  with b show ?thesis by (intro exI [of _ buf'] exI [of _ ?fs]) simp
qed

text \<open>
  C20. A write request on a file open for writing behaves like \<open>pwrite\<close> on its buffer: the reply says
  that all bytes were taken, the buffer grows to the end of the written range when that lies past
  it, the written range holds the data, a gap is filled with zeros, every other byte is kept, and
  the size in the attributes is the size of the buffer.  No other buffer and not the volume changes.
\<close>

theorem fuse_write_pwrite:
  assumes "fc_writable cfg" "fs_write_bufs fs ino = Some (pa, nm, buf)" "unat off + length data < 2 ^ 64"
  shows "\<exists>buf' fs'. fuse_write cfg ino off data fs = (Ok (RWritten (of_nat (length data))), fs') \<and>
    fs_write_bufs fs' = (fs_write_bufs fs)(ino \<mapsto> (pa, nm, buf')) \<and> fs_access fs' = fs_access fs \<and>
    fs_inodes fs' = (fs_inodes fs)(ino := map_option (set_attr_size (of_nat (length buf'))) (fs_inodes fs ino)) \<and>
    length buf' = max (length buf) (unat off + length data) \<and>
    (\<forall>i<length buf'. buf' ! i =
       (if unat off \<le> i \<and> i < unat off + length data then data ! (i - unat off)
        else if i < length buf then buf ! i else 0))"
  using assms by (rule fuse_write_effect)

theorem fuse_write_pwrite_witness:
  "fc_writable sample_config \<and>
   (\<exists>buf' fs'. fuse_write sample_config 120 4 [9] sample_fs = (Ok (RWritten 1), fs') \<and>
      fs_write_bufs fs' 120 = Some (5, rs ''x'', buf') \<and> length buf' = 5 \<and> buf' ! 3 = 0 \<and> buf' ! 4 = 9)"
proof -
  from fuse_write_pwrite [of sample_config sample_fs 120 5 "rs ''x''" "[1, 2, 3]" 4 "[9]"]
  obtain buf' fs' where "fuse_write sample_config 120 4 [9] sample_fs = (Ok (RWritten 1), fs')"
      "fs_write_bufs fs' = (fs_write_bufs sample_fs)(120 \<mapsto> (5, rs ''x'', buf'))"
      "length buf' = 5" "\<forall>i<length buf'. buf' ! i = (if 4 \<le> i \<and> i < 5 then [9] ! (i - 4)
         else if i < 3 then [1, 2, 3] ! i else 0)"
    by (auto simp: sample_fs_simps)
  then show ?thesis by (auto simp: sample_fs_simps)
qed

text \<open>
  Written data is not visible to readers until the file is closed: after a write inside the bounds of an
  open file whose buffer has the size of the file, every read is answered as if the write had not
  happened.
\<close>

lemma fuse_read_ignores_writes:
  assumes "fs_write_bufs fs ino = Some (pa, nm, buf)" "fs_inodes fs ino = Some info"
    "fa_size (ii_attr info) = of_nat (length buf)" "unat off + length data \<le> length buf"
    "length buf < 2 ^ 64" "fuse_write cfg ino off data fs = (Ok (RWritten n), fs')"
  shows "fst (fuse_read ino pos sz fs') = fst (fuse_read ino pos sz fs)"
proof -
  have lt: "unat off + length data < 2 ^ 64" using assms(4,5) by linarith
  have w: "fc_writable cfg" using assms(6) by (auto simp: fuse_write_def reply_def split: if_splits)
  have "fs_inodes fs' ino = Some (set_attr_size (of_nat (length buf)) info)" "fs_access fs' = fs_access fs"
    using fuse_write_effect [OF w assms(1) lt] assms(2,4,6) by (auto simp: max_def)
  then show ?thesis
    using assms(3) by (simp add: fuse_read_reply assms(2) set_attr_size_def)
qed

lemma fuse_read_ignores_writes_witness:
  "\<exists>fs'. fuse_write sample_config 120 0 [9] (sample_fs\<lparr>fs_inodes := [120 \<mapsto> set_attr_size 3 sample_info]\<rparr>) =
       (Ok (RWritten 1), fs') \<and> fs_write_bufs fs' 120 = Some (5, rs ''x'', [9, 2, 3]) \<and>
     fst (fuse_read 120 0 1 fs') =
     fst (fuse_read 120 0 1 (sample_fs\<lparr>fs_inodes := [120 \<mapsto> set_attr_size 3 sample_info]\<rparr>))"
proof -
  let ?fs = "sample_fs\<lparr>fs_inodes := [120 \<mapsto> set_attr_size 3 sample_info]\<rparr>"
  have "write_buf [1, 2, 3] 0 [9] = Ok [9, 2, 3]" by (simp add: write_buf_def splice_eq)
  then obtain fs' where w: "fuse_write sample_config 120 0 [9] ?fs = (Ok (RWritten 1), fs')"
      "fs_write_bufs fs' 120 = Some (5, rs ''x'', [9, 2, 3])"
    by (simp add: fuse_write_def put_buf_def upd_inode_def reply_def sample_fs_simps)
  have "fst (fuse_read 120 0 1 fs') = fst (fuse_read 120 0 1 ?fs)"
    by (rule fuse_read_ignores_writes [where buf = "[1, 2, 3]" and info = "set_attr_size 3 sample_info", OF _ _ _ _ _ w(1)]) 
      (simp_all add: sample_fs_simps set_attr_size_def)
  with w show ?thesis by blast
qed

text \<open>
  Opening a file with truncation and closing it again does not truncate it: both requests succeed,
  but the volume and the attributes are what they were, because an empty buffer is never stored.
\<close>

lemma fuse_truncate_lost:
  assumes "fc_writable cfg" "fs_inodes fs ino = Some info" "fa_kind (ii_attr info) \<noteq> Directory"
    "o_trunc flags" "fuse_open cfg ino flags fs = (r, fs')"
  shows "r = Ok ROpened \<and> fst (fuse_release now cfg ino fs') = Ok ROk \<and>
    fs_access (snd (fuse_release now cfg ino fs')) = fs_access fs \<and>
    fs_inodes (snd (fuse_release now cfg ino fs')) = fs_inodes fs"
  using assms by (auto simp: fuse_open_def open_buffer_def fuse_release_def inode_def is_dir_inode_def put_buf_def
      drop_buf_def reply_def Let_def bindM_def)

lemma fuse_truncate_lost_witness:
  "\<exists>fs'. fuse_open sample_config 120 \<lparr>o_wronly = True, o_rdwr = False, o_trunc = True, o_append = False\<rparr> sample_fs =
      (Ok ROpened, fs') \<and> fst (fuse_release 0 sample_config 120 fs') = Ok ROk \<and>
    fs_access (snd (fuse_release 0 sample_config 120 fs')) = VA_ReadOnly sample_volume"
proof -
  obtain r fs' where o: "fuse_open sample_config 120 \<lparr>o_wronly = True, o_rdwr = False, o_trunc = True,
      o_append = False\<rparr> sample_fs = (r, fs')" by force
  from fuse_truncate_lost [OF _ _ _ _ o] show ?thesis using o by (simp add: sample_fs_simps)
qed

text \<open>
  C21. Closing a file never loses data it could not store: with a writer, a buffer that is not empty and
  a known anode, the request overwrites the file with the buffer; if that succeeds the buffer is
  dropped and the attributes show its length, and if it fails the reply is an I/O error and the
  buffer is still there.
\<close>

theorem fuse_release_stores:
  assumes "fs_write_bufs fs ino = Some (pa, nm, data)" "data \<noteq> []" "fs_access fs = VA_ReadWrite w"
    "fs_inodes fs ino = Some info" "ii_anode info \<noteq> 0" "fc_block_size cfg \<noteq> 0"
    "overwrite_file_in now pa nm (ii_anode info) data w = (res, w')" "fuse_release now cfg ino fs = (r, fs')"
  shows "fs_access fs' = VA_ReadWrite w' \<and>
    (case res of
       Ok _ \<Rightarrow> r = Ok ROk \<and> fs_write_bufs fs' = (fs_write_bufs fs)(ino := None) \<and>
         map_option (\<lambda>i. fa_size (ii_attr i)) (fs_inodes fs' ino) = Some (of_nat (length data))
     | Err _ \<Rightarrow> r = Ok (RError EIO) \<and> fs_write_bufs fs' = fs_write_bufs fs \<and> fs_inodes fs' = fs_inodes fs
     | Panic \<Rightarrow> r = Panic)"
proof -
  have nz: "(ucast (fc_block_size cfg) :: u64) \<noteq> 0" using assms(6) by (rule ucast_nonzero)
  have "(fs_write_bufs fs)(ino \<mapsto> (pa, nm, data)) = fs_write_bufs fs" using assms(1) by (simp add: map_upd_triv)
  then show ?thesis
  using assms(1-5,7,8) nz
  by (auto simp: fuse_release_def store_buffer_def inode_def fs_writer_def drop_buf_def put_buf_def upd_inode_def
      on_writer_def tryM_def bindM_def Let_def reply_def u64_div_ceil_def set_attr_len_def fun_upd_idem_iff
      split: outcome.splits if_splits)
qed

theorem fuse_release_stores_witness:
  "\<exists>res w' r fs'.
     overwrite_file_in 0 5 (rs ''x'') 5 [1, 2, 3] sample_writer = (res, w') \<and>
     fuse_release 0 sample_config 120 (sample_fs\<lparr>fs_access := VA_ReadWrite sample_writer\<rparr>) = (r, fs') \<and>
     fs_access fs' = VA_ReadWrite w' \<and>
     (case res of Ok _ \<Rightarrow> r = Ok ROk | Err _ \<Rightarrow> r = Ok (RError EIO) \<and> fs_write_bufs fs' 120 \<noteq> None | Panic \<Rightarrow> r = Panic)"
proof -
  let ?fs = "sample_fs\<lparr>fs_access := VA_ReadWrite sample_writer\<rparr>"
  obtain res w' where o: "overwrite_file_in 0 5 (rs ''x'') (ii_anode sample_info) [1, 2, 3] sample_writer = (res, w')"
    by force
  obtain r fs' where f: "fuse_release 0 sample_config 120 ?fs = (r, fs')" by force
  from fuse_release_stores [where info = sample_info, OF _ _ _ _ _ _ o f] o f show ?thesis
    by (auto simp: sample_fs_simps split: outcome.splits)
qed

section \<open>Listing a directory\<close>

text \<open>The rows of a directory listing and their numbers.\<close>

definition entry_kind :: "dir_entry \<Rightarrow> file_kind" where
  "entry_kind e = (if is_dir e then Directory else if is_softlink e then Symlink else RegularFile)"

definition entry_row :: "dir_entry \<Rightarrow> u64 \<times> file_kind \<times> rstr" where
  "entry_row e = (anode_to_ino (de_anode e), entry_kind e, de_name e)"

definition listing_rows :: "u64 \<Rightarrow> inode_info \<Rightarrow> dir_entry list \<Rightarrow> bool \<Rightarrow> (u64 \<times> file_kind \<times> rstr) list" where
  "listing_rows ino info es dd =
     [(ino, Directory, rs ''.''), (ii_parent_ino info, Directory, rs ''..'')] @ map entry_row es @
     (if ino = FUSE_ROOT_INO \<and> dd then [(TRASHCAN_INO, Directory, rs ''.Trashcan'')] else [])"

fun numbered :: "nat \<Rightarrow> (u64 \<times> file_kind \<times> rstr) list \<Rightarrow> dirent list" where
  "numbered i [] = []"
| "numbered i ((ino, kind, name) # xs) = (ino, of_nat (i + 1), kind, name) # numbered (i + 1) xs"

lemma length_numbered [simp]: "length (numbered i xs) = length xs"
  by (induction i xs rule: numbered.induct) auto

lemma numbered_append: "numbered i (xs @ ys) = numbered i xs @ numbered (i + length xs) ys"
  by (induction i xs rule: numbered.induct) auto

lemma last_numbered: "xs \<noteq> [] \<Longrightarrow> fst (snd (last (numbered i xs))) = of_nat (i + length xs)"
proof (induction xs rule: rev_induct)
  case (snoc x xs)
  obtain a b c where "x = (a, b, c)" by (cases x)
  then show ?case by (simp add: numbered_append)
qed simp

lemma fill_dir_prefix: "\<exists>k\<le>length xs. fill_dir full acc i xs = acc @ numbered i (take k xs)"
proof (induction full acc i xs rule: fill_dir.induct)
  case (2 full acc i ino kind name xs)
  let ?e = "(ino, of_nat (i + 1), kind, name) :: dirent"
  show ?case
  proof (cases "full acc ?e")
    case True
    then show ?thesis by (intro exI [of _ 0]) simp
  next
    case False
    with 2 [OF refl] obtain k where "k \<le> length xs"
        "fill_dir full (acc @ [?e]) (i + 1) xs = (acc @ [?e]) @ numbered (i + 1) (take k xs)" by blast
    with False show ?thesis by (intro exI [of _ "Suc k"]) simp
  qed
qed auto

text \<open>A page is not empty when a fresh buffer accepts an entry.\<close>

lemma fill_dir_page:
  assumes "\<And>e. \<not> full [] e" "xs \<noteq> []"
  obtains k where "0 < k" "k \<le> length xs" "fill_dir full [] i xs = numbered i (take k xs)"
proof -
  obtain k where k: "k \<le> length xs" "fill_dir full [] i xs = numbered i (take k xs)"
    using fill_dir_prefix [of xs full "[]" i] by auto
  obtain x ys where xs: "xs = x # ys" using assms(2) by (cases xs) auto
  obtain a b c where x: "x = (a, b, c)" by (cases x)
  obtain m where "fill_dir full [(a, of_nat (i + 1), b, c)] (i + 1) ys =
      [(a, of_nat (i + 1), b, c)] @ numbered (i + 1) (take m ys)" using fill_dir_prefix by blast
  with k xs x assms(1) have "k \<noteq> 0" by (cases k) (auto simp: Let_def)
  with k show thesis using that by simp
qed

lemma make_attr_row:
  assumes "bs \<noteq> 0"
  shows "\<exists>info. make_attr e parent uid gid bs = Ok (anode_to_ino (de_anode e), info) \<and>
    fa_kind (ii_attr info) = entry_kind e"
proof -
  have "(ucast bs :: u64) \<noteq> 0" using assms by (rule ucast_nonzero)
  then show ?thesis by (simp add: make_attr_def u64_div_ceil_def Let_def entry_kind_def)
qed

lemma transparent_bind_Ok:
  assumes "transparent P m (Ok x)" "transparent P (f x) r"
  shows "transparent P (bindM m f) r"
  using transparent_bind [OF assms(1), of f "\<lambda>_. r"] assms(2) by simp

text \<open>A state in which an inode is a given directory of a given volume.\<close>

definition dir_view :: "volume \<Rightarrow> u64 \<Rightarrow> inode_info \<Rightarrow> fs_inner \<Rightarrow> bool" where
  "dir_view v ino info fs \<longleftrightarrow> fs_inodes fs ino = Some info \<and> same_volume v (va_vol (fs_access fs))"

definition child_step :: "fuse_config \<Rightarrow> u64 \<Rightarrow> (u64 \<times> file_kind \<times> rstr) list \<Rightarrow> dir_entry \<Rightarrow>
    (fs_inner, (u64 \<times> file_kind \<times> rstr) list) rm" where
  "child_step cfg ino rows entry =
     bindM (add_entry cfg ino entry) (\<lambda>(child_ino, attr). retM (rows @ [(child_ino, fa_kind attr, de_name entry)]))"

lemma child_step_view:
  assumes "fc_block_size cfg \<noteq> 0" "anode_to_ino (de_anode e) \<noteq> ino"
  shows "transparent (dir_view v ino info) (child_step cfg ino rows e) (Ok (rows @ [entry_row e]))"
proof -
  obtain i where i: "make_attr e ino (fc_uid cfg) (fc_gid cfg) (fc_block_size cfg) = Ok (anode_to_ino (de_anode e), i)"
      "fa_kind (ii_attr i) = entry_kind e"
    using make_attr_row [OF assms(1)] by blast
  then show ?thesis
    using assms(2) by (auto simp: transparent_def child_step_def add_entry_def put_inode_def entry_row_def dir_view_def
        bindM_def)
qed

lemma child_rows_view:
  assumes "fc_block_size cfg \<noteq> 0" "ino \<notin> (\<lambda>e. anode_to_ino (de_anode e)) ` set es"
  shows "transparent (dir_view v ino info) (child_rows cfg ino es) (Ok (map entry_row es))"
proof -
  have "transparent (dir_view v ino info) (foldM (child_step cfg ino) rows es) (Ok (rows @ map entry_row es))" for rows
    using assms(2)
  proof (induction es arbitrary: rows)
    case (Cons e es)
    have "anode_to_ino (de_anode e) \<noteq> ino" using Cons.prems by auto
    from transparent_bind_Ok [OF child_step_view [OF assms(1) this]] Cons.IH [of "rows @ [entry_row e]"] Cons.prems
    show ?case by simp
  qed (simp add: transparent_ret)
  from this [of "[]"] show ?thesis by (simp add: child_rows_def child_step_def [abs_def])
qed

lemma on_fs_vol_view:
  assumes "transparent (same_volume v) m r"
  shows "transparent (dir_view v ino info) (on_fs_vol m) r"
proof -
  have "va_vol (va_set_vol w a) = w" for w a by (cases a) simp_all
  then show ?thesis unfolding on_fs_vol_def
    by (intro transparent_zoom [OF assms]) (simp_all add: dir_view_def)
qed

definition dir_entries :: "volume \<Rightarrow> u32 \<Rightarrow> dir_entry list outcome" where
  "dir_entries v a = dir_entries_ref (v_anodes v) (v_dev v) (rb_reserved_blksize (v_rootblock v)) a"

lemma fuse_readdir_view:
  assumes wf: "vol_wf v" and bs: "fc_block_size cfg \<noteq> 0" and d: "is_dir_inode info" "ino \<noteq> TRASHCAN_INO"
    and es: "dir_entries v (ii_anode info) = Ok es" "ino \<notin> (\<lambda>e. anode_to_ino (de_anode e)) ` set es"
  shows "transparent (dir_view v ino info) (fuse_readdir cfg full ino off)
    (Ok (RDirectory (fill_dir full [] (unat off)
      (drop (unat off) (listing_rows ino info es (has_flag (v_rootblock v) MODE_DELDIR))))))"
proof -
  have h: "transparent (dir_view v ino info) (getM has_deldir) (Ok (has_flag (v_rootblock v) MODE_DELDIR))"
    and i: "transparent (dir_view v ino info) (inode ino) (Ok (Some info))"
    by (auto simp: transparent_def has_deldir_def inode_def dir_view_def same_volume_fields)
  have ls: "transparent (dir_view v ino info) (tryM (on_fs_vol (list_dir_by_anode (ii_anode info)))) (Ok (Some es))"
    using transparent_try [OF on_fs_vol_view [OF list_dir_by_anode_transparent [OF wf, of "ii_anode info"]], of ino info]
      es(1) by (simp add: dir_entries_def)
  have rep: "transparent (dir_view v ino info) (reply_dir full off xs)
      (Ok (RDirectory (fill_dir full [] (unat off) (drop (unat off) xs))))" for xs
    by (simp add: reply_dir_def reply_def transparent_ret)
  show ?thesis
    unfolding fuse_readdir_def
    by (rule transparent_bind_Ok [OF h], simp only: d simp_thms if_False,
        rule transparent_bind_Ok [OF i], simp only: option.case d simp_thms if_False,
        rule transparent_bind_Ok [OF ls], simp only: option.case,
        rule transparent_bind_Ok [OF child_rows_view [OF bs es(2)]], simp only: listing_rows_def rep)
qed

text \<open>
  How the kernel reads a directory: ask for the entries from an offset on, go on from the offset of
  the last entry, stop at an empty page.
\<close>

fun read_pages ::
  "fuse_config \<Rightarrow> (dirent list \<Rightarrow> dirent \<Rightarrow> bool) \<Rightarrow> nat \<Rightarrow> u64 \<Rightarrow> u64 \<Rightarrow> (fs_inner, dirent list) rm" where
  "read_pages cfg full 0 ino off = (\<lambda>fs. (Panic, fs))"
| "read_pages cfg full (Suc fuel) ino off =
     bindM (fuse_readdir cfg full ino off) (\<lambda>r. case r of
       RDirectory es \<Rightarrow>
         if es = [] then retM []
         else bindM (read_pages cfg full fuel ino (fst (snd (last es)))) (\<lambda>rest. retM (es @ rest))
     | _ \<Rightarrow> failM Io)"

lemma read_pages_from:
  assumes view: "\<And>off. transparent Q (fuse_readdir cfg full ino off)
        (Ok (RDirectory (fill_dir full [] (unat off) (drop (unat off) rows))))"
    and room: "\<And>e. \<not> full [] e" and len: "length rows < 2 ^ 64"
  shows "i \<le> length rows \<Longrightarrow> length rows - i < fuel \<Longrightarrow>
    transparent Q (read_pages cfg full fuel ino (of_nat i)) (Ok (numbered i (drop i rows)))"
proof (induction fuel arbitrary: i)
  case (Suc fuel)
  have i: "unat (of_nat i :: u64) = i" using Suc.prems len by (simp add: unat_of_nat)
  note page = view [of "of_nat i", unfolded i]
  show ?case
  proof (cases "drop i rows = []")
    case True
    with page have "transparent Q (fuse_readdir cfg full ino (of_nat i)) (Ok (RDirectory []))" by simp
    then show ?thesis unfolding read_pages.simps
      by (rule transparent_bind_Ok) (use True in \<open>simp add: transparent_ret\<close>)
  next
    case False
    obtain k where k: "0 < k" "k \<le> length (drop i rows)"
        "fill_dir full [] i (drop i rows) = numbered i (take k (drop i rows))"
      using fill_dir_page [where full = full and xs = "drop i rows" and i = i] room False by blast
    let ?es = "numbered i (take k (drop i rows))"
    have "length ?es = k" using k(2) by simp
    then have ne: "?es \<noteq> []" using k(1) by (metis less_irrefl list.size(3))
    have lst: "fst (snd (last ?es)) = of_nat (i + k)"
      using last_numbered [of "take k (drop i rows)" i] k(1,2) False by (simp add: min_absorb2)
    have ik: "i + k \<le> length rows" "length rows - (i + k) < fuel" using k(1,2) Suc.prems by auto
    have "drop i rows = take k (drop i rows) @ drop (i + k) rows"
      by (metis append_take_drop_id drop_drop add.commute)
    then have split: "?es @ numbered (i + k) (drop (i + k) rows) = numbered i (drop i rows)"
      using numbered_append [of i "take k (drop i rows)" "drop (i + k) rows"] k(2) by (simp add: min_absorb2)
    have "transparent Q (bindM (read_pages cfg full fuel ino (of_nat (i + k))) (\<lambda>rest. retM (?es @ rest)))
        (Ok (numbered i (drop i rows)))"
      by (rule transparent_bind_Ok [OF Suc.IH [OF ik]]) (simp only: split transparent_ret)
    then show ?thesis unfolding read_pages.simps
      by (intro transparent_bind_Ok [OF page]) (simp add: k(3) ne lst)
  qed
qed simp

text \<open>
  C12. Reading a directory page by page lists it completely: when a fresh reply buffer takes at least one
  entry, asking for the next page until one is empty ends after at most one page per entry and
  yields \<open>.\<close>, \<open>..\<close>, every entry of the directory in order and in the root the trash directory,
  each exactly once, whatever the buffer sizes.
\<close>

theorem readdir_pages_complete:
  assumes "vol_wf v" "fs_inodes fs ino = Some info" "va_vol (fs_access fs) = v"
    "fa_kind (ii_attr info) = Directory" "ino \<noteq> TRASHCAN_INO" "fc_block_size cfg \<noteq> 0"
    "fst (list_dir_by_anode (ii_anode info) v) = Ok es" "ino \<notin> (\<lambda>e. anode_to_ino (de_anode e)) ` set es"
    "length es + 3 < 2 ^ 64" "length es + 3 < fuel" "\<forall>e. \<not> full [] e"
  shows "fst (read_pages cfg full fuel ino 0 fs) =
    Ok (numbered 0 (listing_rows ino info es (has_flag (v_rootblock v) MODE_DELDIR)))"
proof -
  have es: "dir_entries v (ii_anode info) = Ok es"
    using vol_value [OF assms(1) list_dir_by_anode_transparent [OF assms(1)]] assms(7) by (simp add: dir_entries_def)
  have d: "is_dir_inode info" using assms(4) by (simp add: is_dir_inode_def)
  let ?rows = "listing_rows ino info es (has_flag (v_rootblock v) MODE_DELDIR)"
  have len: "length ?rows \<le> length es + 3" by (simp add: listing_rows_def)
  have "transparent (dir_view v ino info) (read_pages cfg full fuel ino (of_nat 0)) (Ok (numbered 0 (drop 0 ?rows)))"
    by (rule read_pages_from [OF fuse_readdir_view [OF assms(1,6) d assms(5) es assms(8)]])
      (use assms(9-11) len in auto)
  moreover have "dir_view v ino info fs"
    using assms(2,3) same_volume_refl [OF assms(1)] by (simp add: dir_view_def)
  ultimately show ?thesis by (auto simp: transparent_def)
qed

lemma sample_volume_root: "fst (list_dir_by_anode 5 sample_volume) = Ok [sample_dir_dirent]"
proof -
  have "rb_reserved_blksize (v_rootblock sample_volume) = 128" by (simp add: sample_volume_def Let_def)
  then show ?thesis
    using vol_value [OF sample_volume_wf list_dir_by_anode_transparent [OF sample_volume_wf, of 5]]
    by (simp add: sample_volume_reader dir_entries_ref_def sample_dir_chain chain_blocks_def sample_dir_read
        sample_dir_entries)
qed

theorem readdir_pages_complete_witness:
  "fst (read_pages sample_config (\<lambda>acc e. acc \<noteq> []) 5 1 0 (fs_initial 0 0 (VA_ReadOnly sample_volume))) =
   Ok [(1, 1, Directory, rs ''.''), (1, 2, Directory, rs ''..''), (106, 3, Directory, rs ''d'')]"
proof -
  let ?info = "\<lparr>ii_attr = root_attr sample_volume 0 0, ii_anode = ANODE_ROOTDIR,
         ii_parent_ino = FUSE_ROOT_INO, ii_amiga_protection = 0, ii_name = []\<rparr>"
  have "anode_to_ino 6 = 106" by (simp add: anode_to_ino_def ANODE_ROOTDIR_def INODE_ANODE_OFFSET_def)
  moreover have "de_anode sample_dir_dirent = 6" "de_name sample_dir_dirent = rs ''d''"
      "entry_kind sample_dir_dirent = Directory"
    by (simp_all add: sample_dir_dirent_def entry_kind_def is_dir_def st_defs)
  moreover have "\<not> has_flag (v_rootblock sample_volume) MODE_DELDIR"
    by (simp add: sample_volume_def Let_def has_flag_def MODE_DELDIR_def)
  ultimately show ?thesis
    using readdir_pages_complete [of sample_volume "fs_initial 0 0 (VA_ReadOnly sample_volume)" 1 ?info
        sample_config "[sample_dir_dirent]" 5 "\<lambda>acc e. acc \<noteq> []"] sample_volume_wf sample_volume_root
    by (simp add: fs_initial_def ino_defs root_attr_def Let_def sample_fs_simps ANODE_ROOTDIR_def listing_rows_def
        entry_row_def)
qed

end
