(* ===== verification/Cli.thy ===== *)
theory Cli
  imports Check Format
begin

text \<open>
  The command line tool: \<^verbatim>\<open>src/main.rs\<close> and the subcommands of \<^verbatim>\<open>src/cmd\<close>.  The host file system is a map from
  paths to contents; a command is a computation on it.  What a command prints is a value; how it is
  laid out on the terminal is not modelled.  A message of \<open>bail!\<close> is a value as well, so \<open>Err\<close> is an
  error of the library or of the operating system that \<open>?\<close> passes on.
\<close>

section \<open>The host\<close>

record host =
  h_files :: "rstr \<rightharpoonup> bytes"
  h_dirs :: "rstr set"
  h_refused :: "rstr set"

text \<open>
  \<open>std::fs::read\<close>, opening for writing, \<open>std::fs::write\<close> and \<open>std::fs::create_dir_all\<close>; a refused path stands for
  one that the operating system does not let the process write or create, for whatever reason.
\<close>

definition host_read :: "rstr \<Rightarrow> (host, bytes) rm" where
  "host_read path h = (case h_files h path of Some data \<Rightarrow> (Ok data, h) | None \<Rightarrow> (Err Io, h))"

definition host_open_rw :: "rstr \<Rightarrow> (host, bytes) rm" where
  "host_open_rw path h = (if path \<in> h_refused h then (Err Io, h) else host_read path h)"

definition host_write :: "rstr \<Rightarrow> bytes \<Rightarrow> (host, unit) rm" where
  "host_write path data h =
     (if path \<in> h_refused h \<or> path \<in> h_dirs h then (Err Io, h)
      else (Ok (), h\<lparr>h_files := (h_files h)(path \<mapsto> data)\<rparr>))"

definition host_mkdir :: "rstr \<Rightarrow> (host, unit) rm" where
  "host_mkdir path h =
     (if path \<in> h_refused h \<or> h_files h path \<noteq> None then (Err Io, h)
      else (Ok (), h\<lparr>h_dirs := insert path (h_dirs h)\<rparr>))"

text \<open>\<open>Path::join\<close>: an absolute path replaces the base.\<close>

definition path_join :: "rstr \<Rightarrow> rstr \<Rightarrow> rstr" where
  "path_join base name =
     (if name \<noteq> [] \<and> hd name = SLASH then name
      else if base = [] \<or> last base = SLASH then base @ name else base @ [SLASH] @ name)"

section \<open>Arguments and output\<close>

record image_args =
  ia_image :: rstr
  ia_offset :: nat
  ia_partition :: "rstr option"

datatype command =
    C_Info image_args
  | C_Ls image_args rstr
  | C_Extract image_args rstr rstr
  | C_Cat image_args rstr
  | C_Check image_args bool
  | C_Mkfs image_args rstr "u32 option"
  | C_Write image_args rstr rstr
  | C_Mkdir image_args rstr
  | C_Rm image_args rstr
  | C_Protect image_args rstr rstr
  | C_Tune image_args "rstr option"
  | C_Partitions rstr
  | C_Deldir image_args
  | C_Undelete image_args rstr "rstr option"

datatype bail =
    Ambiguous "rstr list"
  | NothingToChange
  | DeldirEmpty
  | IndexOutOfRange nat nat
  | NotInDeldir rstr
  | ProtectRoot
  | NoSuchPath rstr
  | BadSpec rstr
  | TooDeep rstr
  | NoImage
  | ImageTooSmall

datatype cli_out =
    Bailed bail
  | OutInfo volume
  | OutOverview "(partition_info \<times> volume) list"
  | OutEntries "dir_entry list"
  | OutBytes bytes
  | OutPaths "rstr list"
  | OutCheck check_ctx
  | OutFormat format_result
  | OutPartitions "partition_info list"
  | OutDeldir "deldir_entry list"
  | OutProtect u8 u8
  | OutDone

section \<open>Opening an image\<close>

definition require_unambiguous :: "image_args \<Rightarrow> (host, bail option) rm" where
  "require_unambiguous args =
     (if ia_partition args \<noteq> None \<or> ia_offset args \<noteq> 0 then retM None
      else
        bindM (host_read (ia_image args)) (\<lambda>img.
        bindM (liftO (detect_pfs3_partitions img)) (\<lambda>parts.
          retM (if length parts > 1 then Some (Ambiguous (map pi_name parts)) else None))))"

definition open_image :: "image_args \<Rightarrow> bool \<Rightarrow> (host, bail + volume) rm" where
  "open_image args writable =
     bindM (require_unambiguous args) (\<lambda>amb. case amb of
       Some b \<Rightarrow> retM (Inl b)
     | None \<Rightarrow>
         bindM (if writable then host_open_rw (ia_image args) else host_read (ia_image args)) (\<lambda>img.
         bindM (liftO (open_auto img (ia_offset args) (ia_partition args) writable)) (\<lambda>v.
           retM (Inr v))))"

definition cli_open_vol :: "image_args \<Rightarrow> (host, bail + volume) rm" where
  "cli_open_vol args = open_image args False"

definition cli_open_vol_rw :: "image_args \<Rightarrow> (host, bail + volume) rm" where
  "cli_open_vol_rw args = open_image args True"

definition open_writer :: "image_args \<Rightarrow> (host, bail + writer) rm" where
  "open_writer args =
     bindM (cli_open_vol_rw args) (\<lambda>r. case r of
       Inl b \<Rightarrow> retM (Inl b)
     | Inr v \<Rightarrow> bindM (liftO (Writer_open v)) (\<lambda>w. retM (Inr w)))"

text \<open>
  A command on a volume or on a writer: the image file is what the device contains afterwards, also after an
  error.
\<close>

definition store_image :: "rstr \<Rightarrow> device \<Rightarrow> host \<Rightarrow> host" where
  "store_image path d h = h\<lparr>h_files := (h_files h)(path \<mapsto> d_contents d)\<rparr>"

definition with_vol :: "image_args \<Rightarrow> (volume, cli_out) rm \<Rightarrow> (host, cli_out) rm" where
  "with_vol args m =
     bindM (cli_open_vol args) (\<lambda>r. case r of
       Inl b \<Rightarrow> retM (Bailed b)
     | Inr v \<Rightarrow> (\<lambda>h. case m v of (res, v') \<Rightarrow> (res, store_image (ia_image args) (v_dev v') h)))"

definition with_writer :: "image_args \<Rightarrow> (writer, cli_out) rm \<Rightarrow> (host, cli_out) rm" where
  "with_writer args m =
     bindM (open_writer args) (\<lambda>r. case r of
       Inl b \<Rightarrow> retM (Bailed b)
     | Inr w \<Rightarrow> (\<lambda>h. case m w of (res, w') \<Rightarrow> (res, store_image (ia_image args) (w_dev w') h)))"

section \<open>Commands on a volume\<close>

definition cat_run :: "rstr \<Rightarrow> (volume, cli_out) rm" where
  "cat_run path = bindM (read_file path) (\<lambda>data. retM (OutBytes data))"

definition ls_run :: "rstr \<Rightarrow> (volume, cli_out) rm" where
  "ls_run path = bindM (list_dir path) (\<lambda>entries. retM (OutEntries entries))"

definition info_run :: "(volume, cli_out) rm" where
  "info_run = bindM (getM (\<lambda>v. v)) (\<lambda>v. retM (OutInfo v))"

definition info_overview :: "bytes \<Rightarrow> partition_info list \<Rightarrow> cli_out outcome" where
  "info_overview img parts =
     bindO (mapO (\<lambda>p. bindO (vol_open img (unat (pi_offset p))) (\<lambda>v. Ok (p, v))) parts) (\<lambda>rows.
       Ok (OutOverview rows))"

definition deldir_run :: "(volume, cli_out) rm" where
  "deldir_run = bindM list_deldir (\<lambda>entries. retM (OutDeldir entries))"

section \<open>Extracting\<close>

text \<open>Extraction reads the volume and writes the host; the paths written are the output.\<close>

type_synonym extract_state = "volume \<times> host"

definition ex_vol :: "(volume, 'a) rm \<Rightarrow> (extract_state, 'a) rm" where
  "ex_vol m = zoomM fst (\<lambda>v s. (v, snd s)) m"

definition ex_host :: "(host, 'a) rm \<Rightarrow> (extract_state, 'a) rm" where
  "ex_host m = zoomM snd (\<lambda>h s. (fst s, h)) m"

definition extract_file :: "dir_entry \<Rightarrow> rstr \<Rightarrow> (extract_state, unit) rm" where
  "extract_file entry out_path =
     bindM (ex_vol (read_file_data (de_anode entry) (file_size entry))) (\<lambda>data.
       ex_host (host_write out_path data))"

text \<open>\<open>Some p\<close> is the bail for nesting too deep at \<open>p\<close>, which ends the whole extraction.\<close>

fun extract_dir :: "nat \<Rightarrow> u32 \<Rightarrow> rstr \<Rightarrow> rstr \<Rightarrow> (extract_state, rstr option) rm" where
  "extract_dir 0 dir_anode output display_path = (\<lambda>s. (Panic, s))"
| "extract_dir (Suc fuel) dir_anode output display_path =
     (if slashes display_path > MAX_DIR_DEPTH then retM (Some display_path)
      else
        bindM (ex_vol (list_dir_by_anode dir_anode)) (\<lambda>entries.
          searchM entries (\<lambda>entry.
            let entry_path = join_pfs3_path display_path (de_name entry);
                out_path = path_join output (de_name entry) in
            if is_dir entry then
              bindM (ex_host (host_mkdir out_path)) (\<lambda>_.
                extract_dir fuel (de_anode entry) out_path entry_path)
            else if is_file entry then bindM (extract_file entry out_path) (\<lambda>_. retM None)
            else retM None)))"

definition extract_run :: "nat \<Rightarrow> rstr \<Rightarrow> rstr \<Rightarrow> (extract_state, cli_out) rm" where
  "extract_run fuel path output =
     bindM (ex_host (host_mkdir output)) (\<lambda>_.
     bindM (ex_vol (vol_lookup path)) (\<lambda>r.
     bindM (case r of
         Some entry \<Rightarrow>
           if is_dir entry then extract_dir fuel (de_anode entry) output path
           else
             bindM (extract_file entry (path_join output (last (split_on SLASH path)))) (\<lambda>_. retM None)
       | None \<Rightarrow> extract_dir fuel ANODE_ROOTDIR output [SLASH]) (\<lambda>deep.
       retM (case deep of Some p \<Rightarrow> Bailed (TooDeep p) | None \<Rightarrow> OutDone))))"

section \<open>Commands on a writer\<close>

definition tune_run :: "rstr option \<Rightarrow> (writer, cli_out) rm" where
  "tune_run name =
     (case name of
        None \<Rightarrow> retM (Bailed NothingToChange)
      | Some new_name \<Rightarrow> bindM (set_volume_name new_name) (\<lambda>_. retM OutDone))"

text \<open>The entry a name or an index stands for.\<close>

fun position :: "('a \<Rightarrow> bool) \<Rightarrow> 'a list \<Rightarrow> nat option" where
  "position P [] = None"
| "position P (x # xs) = (if P x then Some 0 else map_option Suc (position P xs))"

definition undelete_index :: "rstr \<Rightarrow> deldir_entry list \<Rightarrow> bail + nat" where
  "undelete_index name entries =
     (case parse_usize name of
        Some i \<Rightarrow> if length entries \<le> i then Inl (IndexOutOfRange i (length entries - 1)) else Inr i
      | None \<Rightarrow>
          (case position (\<lambda>e. name_eq_ci (dd_filename e) name) entries of
             None \<Rightarrow> Inl (NotInDeldir name)
           | Some i \<Rightarrow> Inr i))"

definition undelete_run :: "nat \<Rightarrow> rstr \<Rightarrow> rstr option \<Rightarrow> (writer, cli_out) rm" where
  "undelete_run now name dest =
     bindM (on_vol list_deldir) (\<lambda>entries.
     if entries = [] then retM (Bailed DeldirEmpty)
     else (case undelete_index name entries of
         Inl b \<Rightarrow> retM (Bailed b)
       | Inr i \<Rightarrow>
           let dest_path = (case dest of Some d \<Rightarrow> d | None \<Rightarrow> dd_filename (entries ! i)) in
           bindM (undelete now i dest_path) (\<lambda>_. retM OutDone)))"

definition protect_run :: "rstr \<Rightarrow> rstr \<Rightarrow> (writer, cli_out) rm" where
  "protect_run path spec =
     (let parts = path_parts path in
      if parts = [] then retM (Bailed ProtectRoot)
      else
        let name = last parts in
        bindM (on_vol (vol_lookup path)) (\<lambda>r. case r of
          None \<Rightarrow> retM (Bailed (NoSuchPath path))
        | Some entry \<Rightarrow>
            (case parse_amiga_protection (de_protection entry) spec of
               None \<Rightarrow> retM (Bailed (BadSpec spec))
             | Some new_prot \<Rightarrow>
                 bindM (if length parts = 1 then retM ANODE_ROOTDIR
                        else bindM (on_vol (vol_lookup (join_with [SLASH] (butlast parts)))) (\<lambda>p.
                               retM (case p of None \<Rightarrow> ANODE_ROOTDIR | Some e \<Rightarrow> de_anode e))) (\<lambda>parent_anode.
                 bindM (update_dir_entry_protection parent_anode name new_prot) (\<lambda>_.
                   retM (OutProtect (de_protection entry) new_prot))))))"

section \<open>Formatting an image\<close>

definition mkfs_device :: "image_args \<Rightarrow> u32 option \<Rightarrow> (host, bail + device) rm" where
  "mkfs_device args size_mb =
     (case size_mb of
        Some mb \<Rightarrow>
          let d = create 512 (unat mb * 1024 * 1024 div 512) in
          bindM (host_write (ia_image args) (d_contents d)) (\<lambda>_. retM (Inr d))
      | None \<Rightarrow>
          bindM (getM (\<lambda>h. h_files h (ia_image args))) (\<lambda>f. case f of
            None \<Rightarrow>
              bindM (getM (\<lambda>h. ia_image args \<in> h_dirs h)) (\<lambda>is_a_dir.
                if is_a_dir then failM Io else retM (Inl NoImage))
          | Some img \<Rightarrow>
              bindM (case ia_partition args of
                  Some name \<Rightarrow> bindM (liftO (find_partition_offset img name)) (\<lambda>off. retM (unat off))
                | None \<Rightarrow>
                    if ia_offset args = 0
                    then bindM (tryM (liftO (detect_pfs3_partition img))) (\<lambda>r.
                           retM (case r of Some off \<Rightarrow> unat off | None \<Rightarrow> 0))
                    else retM (ia_offset args)) (\<lambda>off.
              bindM (host_open_rw (ia_image args)) (\<lambda>img.
              bindM (liftO (open_rw img 512 off 0)) (\<lambda>d. retM (Inr d))))))"

definition mkfs_run :: "nat \<Rightarrow> image_args \<Rightarrow> rstr \<Rightarrow> u32 option \<Rightarrow> (host, cli_out) rm" where
  "mkfs_run now args name size_mb =
     bindM (mkfs_device args size_mb) (\<lambda>r. case r of
       Inl b \<Rightarrow> retM (Bailed b)
     | Inr d \<Rightarrow>
         if d_total_blocks d < 64 then retM (Bailed ImageTooSmall)
         else (\<lambda>h.
           case format_with_size now (d_total_blocks d) \<lparr>fo_volume_name = name, fo_enable_deldir = False\<rparr> d of
             (res, d') \<Rightarrow> (bindO res (\<lambda>x. Ok (OutFormat x)), store_image (ia_image args) d' h)))"

section \<open>The main function\<close>

text \<open>The check reads the image; with \<open>--repair\<close> it opens the image again for writing when there is something to repair.\<close>

definition check_cmd :: "nat \<Rightarrow> image_args \<Rightarrow> bool \<Rightarrow> (host, cli_out) rm" where
  "check_cmd fuel args repair =
     bindM (host_read (ia_image args)) (\<lambda>img h.
       case check_run fuel img (bindO (fst (host_open_rw (ia_image args) h)) (\<lambda>_. Ok ())) (ia_offset args) (ia_partition args) repair of (r, dev) \<Rightarrow>
         (bindO r (\<lambda>cx. Ok (OutCheck cx)),
          case dev of None \<Rightarrow> h | Some d \<Rightarrow> store_image (ia_image args) d h))"

text \<open>\<open>img.require_unambiguous()?\<close> before a command\<close>

definition unless_ambiguous :: "image_args \<Rightarrow> (host, cli_out) rm \<Rightarrow> (host, cli_out) rm" where
  "unless_ambiguous args m =
     bindM (require_unambiguous args) (\<lambda>amb. case amb of Some b \<Rightarrow> retM (Bailed b) | None \<Rightarrow> m)"

fun cli_main :: "nat \<Rightarrow> nat \<Rightarrow> command \<Rightarrow> (host, cli_out) rm" where
  "cli_main fuel now (C_Info args) =
     (if ia_partition args = None \<and> ia_offset args = 0
      then bindM (host_read (ia_image args)) (\<lambda>img.
           bindM (liftO (detect_pfs3_partitions img)) (\<lambda>parts.
             if length parts > 1 then liftO (info_overview img parts) else with_vol args info_run))
      else with_vol args info_run)"
| "cli_main fuel now (C_Ls args path) = with_vol args (ls_run path)"
| "cli_main fuel now (C_Extract args path output) =
     bindM (cli_open_vol args) (\<lambda>r. case r of
       Inl b \<Rightarrow> retM (Bailed b)
     | Inr v \<Rightarrow> (\<lambda>h. case extract_run fuel path output (v, h) of (res, (_, h')) \<Rightarrow> (res, h')))"
| "cli_main fuel now (C_Cat args path) = with_vol args (cat_run path)"
| "cli_main fuel now (C_Check args repair) = unless_ambiguous args (check_cmd fuel args repair)"
| "cli_main fuel now (C_Mkfs args name size_mb) = unless_ambiguous args (mkfs_run now args name size_mb)"
| "cli_main fuel now (C_Write args src dest) =
     bindM (getM (\<lambda>h. h_files h src)) (\<lambda>f.
       with_writer args (case f of
           None \<Rightarrow> failM Io
         | Some data \<Rightarrow> bindM (write_file now dest data) (\<lambda>_. retM OutDone)))"
| "cli_main fuel now (C_Mkdir args path) = with_writer args (bindM (create_dir now path) (\<lambda>_. retM OutDone))"
| "cli_main fuel now (C_Rm args path) = with_writer args (bindM (delete_path path) (\<lambda>_. retM OutDone))"
| "cli_main fuel now (C_Protect args path bits) = with_writer args (protect_run path bits)"
| "cli_main fuel now (C_Tune args name) = with_writer args (tune_run name)"
| "cli_main fuel now (C_Partitions img_path) =
     bindM (host_read img_path) (\<lambda>img. bindM (liftO (detect_pfs3_partitions img)) (\<lambda>parts. retM (OutPartitions parts)))"
| "cli_main fuel now (C_Deldir args) = with_vol args deldir_run"
| "cli_main fuel now (C_Undelete args name dest) = with_writer args (undelete_run now name dest)"

end
