(* ===== verification/Cli_Run.thy ===== *)
theory Cli_Run
  imports Cli
begin

text \<open>
  Properties of the command line tool: that the reading commands change nothing, what happens on an image with
  several partitions, that extraction ends, and where extraction writes.
\<close>

section \<open>Commands that only read\<close>

fun reads_only :: "command \<Rightarrow> bool" where
  "reads_only (C_Info _) = True"
| "reads_only (C_Ls _ _) = True"
| "reads_only (C_Cat _ _) = True"
| "reads_only (C_Check _ repair) = (\<not> repair)"
| "reads_only (C_Partitions _) = True"
| "reads_only (C_Deldir _) = True"
| "reads_only _ = False"

lemma host_reads_keep [keeps]: "preserves P (host_read p)" "preserves P (host_open_rw p)"
  by (auto simp: preserves_def host_read_def host_open_rw_def split: option.split)

lemma preserves_sum [keeps]:
  "(\<And>x. preserves P (f x)) \<Longrightarrow> (\<And>y. preserves P (g y)) \<Longrightarrow> preserves P (case r of Inl x \<Rightarrow> f x | Inr y \<Rightarrow> g y)"
  by (cases r) simp_all

lemma require_unambiguous_keeps [keeps]: "preserves P (require_unambiguous args)"
  unfolding require_unambiguous_def by (intro keeps)

lemma open_image_keeps [keeps]: "preserves P (open_image args b)"
  unfolding open_image_def by (intro keeps)

lemma open_vol_keeps [keeps]: "preserves P (cli_open_vol args)"
  unfolding cli_open_vol_def by (intro keeps)

text \<open>An opened volume has the contents of the image.\<close>

lemma open_vol_image:
  assumes "cli_open_vol args h = (Ok (Inr v), h')"
  shows "h' = h" "h_files h (ia_image args) = Some (d_contents (v_dev v))"
proof -
  show h': "h' = h" using preservesD [OF open_vol_keeps, of "\<lambda>x. x = h" h args] assms by simp
  have req: "snd (require_unambiguous args h) = h"
    using preservesD [OF require_unambiguous_keeps, of "\<lambda>x. x = h" h args] by simp
  from assms obtain img where "h_files h (ia_image args) = Some img"
      "open_auto img (ia_offset args) (ia_partition args) False = Ok v"
    using req by (auto simp: cli_open_vol_def open_image_def bindM_eq_Ok host_read_def split: option.splits)
  then show "h_files h (ia_image args) = Some (d_contents (v_dev v))" using open_auto_device(2) by auto
qed

lemma store_unchanged: "h_files h p = Some (d_contents d) \<Longrightarrow> store_image p d h = h"
  by (simp add: store_image_def fun_upd_idem)

lemma with_vol_reads:
  assumes "\<And>d. preserves (on_device d) m"
  shows "snd (with_vol args m h) = h"
proof -
  obtain r h1 where o: "cli_open_vol args h = (r, h1)" by fastforce
  then have h1: "h1 = h" using preservesD [OF open_vol_keeps, of "\<lambda>x. x = h" h args] by simp
  have "v_dev v' = v_dev v" if "m v = (x, v')" for x v v' using preservesD [OF assms, of v "v_dev v"] that by simp
  then show ?thesis
    using o h1 open_vol_image [of args h]
    by (auto simp: with_vol_def bindM_def store_unchanged split: outcome.splits sum.splits prod.splits)
qed

lemma command_reads [keeps]:
  "preserves (on_device d) (cat_run p)" "preserves (on_device d) (ls_run p)" "preserves (on_device d) info_run"
  "preserves (on_device d) deldir_run"
  unfolding cat_run_def ls_run_def info_run_def deldir_run_def by (intro keeps)+

lemma check_cmd_reads: "snd (check_cmd fuel args False h) = h"
proof (cases "h_files h (ia_image args)")
  case (Some img)
  obtain r dev where "check_run fuel img (bindO (fst (host_open_rw (ia_image args) h)) (\<lambda>_. Ok ())) (ia_offset args)
      (ia_partition args) False = (r, dev)" by fastforce
  with Some check_run_without_repair [of fuel img _ "ia_offset args" "ia_partition args" r] show ?thesis
    by (cases dev) (simp_all add: check_cmd_def bindM_def host_read_def store_unchanged)
qed (simp add: check_cmd_def bindM_def host_read_def)

text \<open>
  C31. The commands that only read leave the host as it is: showing information, listing, printing a file, listing
  partitions and deleted files and checking without repair change no byte of the image and no other file, whatever
  the image holds and also when they fail or panic.
\<close>

theorem cli_reading_commands:
  assumes "reads_only c" "cli_main fuel now c h = (r, h')"
  shows "h' = h"
proof -
  have "snd (cli_main fuel now c h) = h"
  proof (cases c)
    case (C_Info args)
    have "snd (with_vol args info_run h) = h" by (rule with_vol_reads) (rule keeps)
    then show ?thesis
      by (auto simp: C_Info bindM_def host_read_def split: option.splits outcome.splits)
  next
    case (C_Check args repair)
    have "snd (require_unambiguous args h) = h"
      using preservesD [OF require_unambiguous_keeps, of "\<lambda>x. x = h" h args] by simp
    then show ?thesis
      using assms(1) C_Check check_cmd_reads [of fuel args h]
      by (auto simp: unless_ambiguous_def bindM_def split: prod.splits outcome.splits option.splits)
  next
    case (C_Partitions img)
    then show ?thesis by (auto simp: bindM_def host_read_def split: option.splits outcome.splits)
  qed (use assms(1) in \<open>auto intro!: with_vol_reads keeps\<close>)
  then show ?thesis using assms(2) by simp
qed

theorem cli_reading_commands_witness:
  "let h = \<lparr>h_files = [rs ''d'' \<mapsto> sample_image], h_dirs = {}, h_refused = {}\<rparr>;
       args = \<lparr>ia_image = rs ''d'', ia_offset = 512, ia_partition = None\<rparr>
   in \<exists>v. cli_main 0 0 (C_Info args) h = (Ok (OutInfo v), h)"
proof -
  define h where "h = \<lparr>h_files = [rs ''d'' \<mapsto> sample_image], h_dirs = {}, h_refused = {}\<rparr>"
  define args where "args = \<lparr>ia_image = rs ''d'', ia_offset = 512, ia_partition = None\<rparr>"
  obtain v where "open_auto sample_image 512 None False = Ok v" using sample_image_opens by blast
  then have "fst (cli_main 0 0 (C_Info args) h) = Ok (OutInfo v)"
    by (simp add: h_def args_def with_vol_def cli_open_vol_def open_image_def require_unambiguous_def bindM_def
        host_read_def info_run_def)
  moreover have "snd (cli_main 0 0 (C_Info args) h) = h"
    by (rule cli_reading_commands [of "C_Info args" 0 0 h "fst (cli_main 0 0 (C_Info args) h)"]) simp_all
  ultimately show ?thesis by (auto simp: Let_def h_def args_def prod_eq_iff)
qed

section \<open>Images with several partitions\<close>

text \<open>The arguments that select the image, for the commands that work on one volume.\<close>

fun volume_args :: "command \<Rightarrow> image_args option" where
  "volume_args (C_Info _) = None"
| "volume_args (C_Partitions _) = None"
| "volume_args (C_Ls args _) = Some args"
| "volume_args (C_Extract args _ _) = Some args"
| "volume_args (C_Cat args _) = Some args"
| "volume_args (C_Check args _) = Some args"
| "volume_args (C_Mkfs args _ _) = Some args"
| "volume_args (C_Write args _ _) = Some args"
| "volume_args (C_Mkdir args _) = Some args"
| "volume_args (C_Rm args _) = Some args"
| "volume_args (C_Protect args _ _) = Some args"
| "volume_args (C_Tune args _) = Some args"
| "volume_args (C_Deldir args) = Some args"
| "volume_args (C_Undelete args _ _) = Some args"

lemma require_unambiguous_bails:
  assumes "ia_partition args = None" "ia_offset args = 0" "h_files h (ia_image args) = Some img"
    and "detect_pfs3_partitions img = Ok parts" "length parts > 1"
  shows "require_unambiguous args h = (Ok (Some (Ambiguous (map pi_name parts))), h)"
  using assms by (simp add: require_unambiguous_def bindM_def host_read_def)

text \<open>
  C34. A command on one volume of an image with several PFS3 partitions does nothing until the user selects a
  partition: without \<open>--partition\<close> and \<open>--offset\<close> it stops with the list of the partitions and
  changes no file, formatting and repairing included.
\<close>

theorem cli_ambiguous_refused:
  assumes "volume_args c = Some args" "ia_partition args = None" "ia_offset args = 0"
    and "h_files h (ia_image args) = Some img"
    and "detect_pfs3_partitions img = Ok parts" "length parts > 1"
  shows "cli_main fuel now c h = (Ok (Bailed (Ambiguous (map pi_name parts))), h)"
proof -
  note bail = require_unambiguous_bails [OF assms(2-6)]
  have "open_image args b h = (Ok (Inl (Ambiguous (map pi_name parts))), h)" for b
    by (simp add: open_image_def bindM_def bail)
  with bail assms(1) show ?thesis
    by (cases c) (auto simp: unless_ambiguous_def with_vol_def with_writer_def open_writer_def
        cli_open_vol_def cli_open_vol_rw_def bindM_def)
qed

text \<open>An image with two partitions: the rigid disk block and two partition blocks.\<close>

definition part_block :: bytes where
  "part_block = splice (splice (splice (splice (replicate 512 0) 0 (u32_to_be PART_MAGIC)) 36 [1]) 37 [68])
     192 (u32_to_be 0x50465303)"

definition two_parts :: bytes where
  "two_parts = splice (splice (replicate 512 0) 0 (u32_to_be RDSK_MAGIC)) 12 (u32_to_be 2) @ part_block @ part_block"

definition two_parts_host :: host where
  "two_parts_host = \<lparr>h_files = [rs ''d'' \<mapsto> two_parts], h_dirs = {}, h_refused = {}\<rparr>"

definition d_args :: image_args where
  "d_args = \<lparr>ia_image = rs ''d'', ia_offset = 0, ia_partition = None\<rparr>"

lemma two_parts_detected:
  "detect_pfs3_partitions two_parts =
     Ok [\<lparr>pi_name = rs ''D'', pi_offset = 0, pi_blocks = 0\<rparr>, \<lparr>pi_name = rs ''D'', pi_offset = 0, pi_blocks = 0\<rparr>]"
proof -
  have len: "length part_block = 512" "length two_parts = 1536" by (simp_all add: part_block_def two_parts_def)
  have head: "be32 (bslice two_parts 0 512) 0 = Ok RDSK_MAGIC" "be32 (bslice two_parts 0 512) 12 = Ok 2"
    by (simp_all add: two_parts_def bslice_def bytes_simps)
  have tail: "bslice two_parts 512 512 = part_block" "bslice two_parts 1024 512 = part_block"
    using len by (simp_all add: two_parts_def bslice_def)
  have "be32 part_block 0 = Ok PART_MAGIC" "be32 part_block 192 = Ok 0x50465303" "part_block ! 36 = 1"
      "bslice part_block 37 1 = [68]"
      "be32 part_block 140 = Ok 0" "be32 part_block 148 = Ok 0" "be32 part_block 164 = Ok 0" "be32 part_block 168 = Ok 0"
    by (simp_all add: part_block_def bytes_simps be32_replicate_0)
  then have "parse_part part_block = Ok (Some \<lparr>pi_name = rs ''D'', pi_offset = 0, pi_blocks = 0\<rparr>)"
    by (simp add: parse_part_def idx_def sliceO_def len Let_def RDB_PFS3_DOSTYPES_def latin1_to_string_def rs_def)
  moreover have "[Suc 0..<2] = [Suc 0]" by (simp add: upt_rec)
  ultimately show ?thesis
    by (simp add: detect_pfs3_partitions_def len head tail Let_def RDB_HIGHBLOCK_OFF_def)
qed

theorem cli_ambiguous_refused_witness:
  "cli_main 0 0 (C_Mkfs d_args (rs ''V'') (Some 100)) two_parts_host =
     (Ok (Bailed (Ambiguous [rs ''D'', rs ''D''])), two_parts_host)"
proof -
  have "volume_args (C_Mkfs d_args (rs ''V'') (Some 100)) = Some d_args" by simp
  from cli_ambiguous_refused [OF this _ _ _ two_parts_detected, of two_parts_host 0 0] show ?thesis
    by (simp add: d_args_def two_parts_host_def)
qed

text \<open>
  Formatting a new image as the README describes it: unless an offset or a partition is given, the test for
  several partitions reads the image, which does not exist yet, so \<open>mkfs --size-mb\<close> stops with an I/O error.
\<close>

lemma mkfs_new_image_fails:
  "ia_partition args = None \<Longrightarrow> ia_offset args = 0 \<Longrightarrow> h_files h (ia_image args) = None \<Longrightarrow>
   cli_main fuel now (C_Mkfs args name size_mb) h = (Err Io, h)"
  by (simp add: unless_ambiguous_def require_unambiguous_def host_read_def bindM_def)

section \<open>Extraction\<close>

text \<open>A computation that never panics from a state with \<open>P\<close>, and keeps \<open>P\<close>.\<close>

definition no_panic :: "('s \<Rightarrow> bool) \<Rightarrow> ('s, 'a) rm \<Rightarrow> bool" where
  "no_panic P m \<longleftrightarrow> (\<forall>s. P s \<longrightarrow> fst (m s) \<noteq> Panic \<and> P (snd (m s)))"

lemma no_panic_ret: "no_panic P (retM x)"
  by (simp add: no_panic_def)

lemma no_panic_transparent: "transparent P m r \<Longrightarrow> r \<noteq> Panic \<Longrightarrow> no_panic P m"
  by (simp add: no_panic_def transparent_def)

lemma no_panic_bind: "no_panic P m \<Longrightarrow> (\<And>x. no_panic P (f x)) \<Longrightarrow> no_panic P (bindM m f)"
  by (fastforce simp: no_panic_def bindM_def split: prod.splits outcome.splits)

lemma no_panic_bind_value:
  assumes "transparent P m r" "r \<noteq> Panic" "\<And>x. r = Ok x \<Longrightarrow> no_panic P (f x)"
  shows "no_panic P (bindM m f)"
  using assms by (fastforce simp: no_panic_def transparent_def bindM_def split: prod.splits outcome.splits)

lemma no_panic_search: "(\<And>x. x \<in> set xs \<Longrightarrow> no_panic P (f x)) \<Longrightarrow> no_panic P (searchM xs f)"
  by (induction xs) (auto intro!: no_panic_ret no_panic_bind split: option.split)

abbreviation extracting :: "volume \<Rightarrow> extract_state \<Rightarrow> bool" where
  "extracting v s \<equiv> same_volume v (fst s)"

lemma ex_vol_transparent:
  "transparent (same_volume v) m r \<Longrightarrow> transparent (extracting v) (ex_vol m) r"
  unfolding ex_vol_def by (erule transparent_zoom) simp_all

lemma ex_host_no_panic:
  "no_panic (extracting v) (ex_host (host_write p data))" "no_panic (extracting v) (ex_host (host_mkdir p))"
  by (auto simp: no_panic_def ex_host_def zoomM_def host_write_def host_mkdir_def)

lemma extract_file_no_panic: "vol_wf v \<Longrightarrow> no_panic (extracting v) (extract_file e p)"
  unfolding extract_file_def
  by (rule no_panic_bind_value [OF ex_vol_transparent [OF read_file_data_transparent] file_data_ref_not_Panic])
    (auto intro: ex_host_no_panic)

lemma extract_dir_no_panic:
  assumes "vol_wf v" "dirs_named v"
  shows "2 * MAX_DIR_DEPTH + 3 \<le> fuel + min (path_level p) (2 * MAX_DIR_DEPTH + 2) \<Longrightarrow>
    no_panic (extracting v) (extract_dir fuel a out p)"
proof (induction fuel arbitrary: a out p)
  case 0
  then show ?case by simp
next
  case (Suc fuel)
  let ?entries = "dir_entries_ref (v_anodes v) (v_dev v) (rb_reserved_blksize (v_rootblock v)) a"
  show ?case
  proof (cases "slashes p > MAX_DIR_DEPTH")
    case True
    then show ?thesis by (simp add: no_panic_def)
  next
    case False
    then have p: "path_level p \<le> 2 * MAX_DIR_DEPTH + 1" by (simp add: path_level_def)
    have sub: "no_panic (extracting v) (extract_dir fuel (de_anode e) out' (join_pfs3_path p (de_name e)))"
      if "?entries = Ok es" "e \<in> set es" "is_dir e" for es e out'
    proof (rule Suc.IH)
      have "de_name e \<noteq> []" using assms(2) that by (auto simp: dirs_named_def)
      then have "path_level p < path_level (join_pfs3_path p (de_name e))" by (rule path_level_join)
      then show "2 * MAX_DIR_DEPTH + 3 \<le> fuel + min (path_level (join_pfs3_path p (de_name e))) (2 * MAX_DIR_DEPTH + 2)"
        using Suc.prems p by linarith
    qed
    have "no_panic (extracting v) (extract_dir (Suc fuel) a out p)
        = no_panic (extracting v) (bindM (ex_vol (list_dir_by_anode a)) (\<lambda>entries.
            searchM entries (\<lambda>e.
              if is_dir e then bindM (ex_host (host_mkdir (path_join out (de_name e)))) (\<lambda>_.
                extract_dir fuel (de_anode e) (path_join out (de_name e)) (join_pfs3_path p (de_name e)))
              else if is_file e then bindM (extract_file e (path_join out (de_name e))) (\<lambda>_. retM None)
              else retM None)))"
      using False by (simp add: Let_def)
    moreover have \<dots>
      by (rule no_panic_bind_value [OF ex_vol_transparent [OF list_dir_by_anode_transparent [OF assms(1)]]
            dir_entries_ref_not_Panic [OF assms(1)]])
        (auto intro!: no_panic_search no_panic_bind ex_host_no_panic extract_file_no_panic no_panic_ret sub assms(1))
    ultimately show ?thesis by blast
  qed
qed

lemma extract_run_no_panic:
  assumes "vol_wf v" "dirs_named v" "2 * MAX_DIR_DEPTH + 3 \<le> fuel"
  shows "no_panic (extracting v) (extract_run fuel path out)"
proof -
  have dir: "no_panic (extracting v) (extract_dir fuel a out p)" for a p
    using assms(3) by (intro extract_dir_no_panic [OF assms(1,2)]) simp
  have look: "walk_entry (lookup_ref (v_anodes v) (v_dev v) (rb_reserved_blksize (v_rootblock v)))
      (path_parts path) ANODE_ROOTDIR \<noteq> Panic"
    by (simp add: walk_entry_not_Panic lookup_ref_not_Panic assms(1))
  show ?thesis
    unfolding extract_run_def
    by (intro no_panic_bind no_panic_ret ex_host_no_panic
        no_panic_transparent [OF ex_vol_transparent [OF vol_lookup_transparent [OF assms(1)]] look])
      (auto intro!: no_panic_bind dir extract_file_no_panic assms(1) no_panic_ret split: option.split)
qed

text \<open>
  C32. Extraction ends: on an opened volume in which every directory has a name, extracting any path to any
  directory finishes after at most 259 nested calls with success, an error or the report of too deep a nesting,
  never with a panic, whatever cycles the directory tree has; the volume is unchanged except for its cache.
\<close>

theorem extract_terminates:
  assumes "vol_wf v" "dirs_named v" "259 \<le> fuel"
  shows "\<exists>r v' h'. extract_run fuel path out (v, h) = (r, (v', h')) \<and> r \<noteq> Panic \<and> same_volume v v'"
proof -
  have "no_panic (extracting v) (extract_run fuel path out)"
    using assms(3) by (intro extract_run_no_panic [OF assms(1,2)]) (simp add: MAX_DIR_DEPTH_def)
  then show ?thesis
    using same_volume_refl [OF assms(1)] unfolding no_panic_def by (metis fst_conv prod.collapse)
qed

theorem extract_terminates_witness:
  "\<exists>r v' h'. extract_run 259 (rs ''/'') (rs ''o'') (sample_volume, two_parts_host) = (r, (v', h')) \<and> r \<noteq> Panic"
proof -
  have "(259 :: nat) \<le> 259" by simp
  from extract_terminates [OF sample_volume_wf sample_dirs_named this] show ?thesis by blast
qed

lemma ex_vol_run:
  assumes "transparent (same_volume v0) m r" "same_volume v0 v" "r = Ok x"
  obtains v' where "ex_vol m (v, h) = (Ok x, (v', h))" "same_volume v0 v'"
proof -
  obtain v' where "m v = (Ok x, v')" "same_volume v0 v'" using transparent_run [OF assms(1,2)] assms(3) by blast
  then show thesis using that by (simp add: ex_vol_def zoomM_def)
qed

lemma ex_host_run [simp]: "ex_host m (v, h) = (case m h of (r, h') \<Rightarrow> (r, (v, h')))"
  by (simp add: ex_host_def zoomM_def)

lemma extract_file_run:
  assumes "vol_wf v0" "same_volume v0 v" "file_data_ref v0 (de_anode e) (file_size e) = Ok data"
    and "p \<notin> h_refused h" "p \<notin> h_dirs h"
  obtains v' where "extract_file e p (v, h) = (Ok (), (v', h\<lparr>h_files := (h_files h)(p \<mapsto> data)\<rparr>))" "same_volume v0 v'"
proof -
  from ex_vol_run [OF read_file_data_transparent [OF assms(1)] assms(2,3), of h] obtain v' where
    "ex_vol (read_file_data (de_anode e) (file_size e)) (v, h) = (Ok data, (v', h))" "same_volume v0 v'"
    by blast
  then show thesis using that assms(4,5) by (simp add: extract_file_def bindM_def host_write_def)
qed

text \<open>
  C33. Extracting a file and printing it agree: when \<open>cat\<close> prints the bytes of a file, \<open>extract\<close> succeeds and
  stores exactly those bytes in the output directory under the last component of the path, provided the operating
  system allows it; no other host file changes.
\<close>

theorem extract_file_as_cat:
  assumes "vol_wf v" "fst (cat_run path v) = Ok (OutBytes data)"
    and "out \<notin> h_refused h" "h_files h out = None"
    and "target = path_join out (last (split_on SLASH path))"
    and "target \<notin> h_refused h" "target \<notin> insert out (h_dirs h)"
  shows "\<exists>v'. extract_run fuel path out (v, h) =
    (Ok OutDone, (v', h\<lparr>h_files := (h_files h)(target \<mapsto> data), h_dirs := insert out (h_dirs h)\<rparr>))"
proof -
  let ?look = "walk_entry (lookup_ref (v_anodes v) (v_dev v) (rb_reserved_blksize (v_rootblock v))) (path_parts path) ANODE_ROOTDIR"
  from assms(2) have "fst (read_file path v) = Ok data"
    by (auto simp: cat_run_def bindM_def split: prod.splits outcome.splits)
  then obtain e where e: "?look = Ok (Some e)" "\<not> is_dir e" "file_data_ref v (de_anode e) (file_size e) = Ok data"
    unfolding vol_value [OF assms(1) read_file_transparent [OF assms(1)]]
    by (auto simp: bindO_eq_Ok split: option.splits if_splits)
  let ?h = "h\<lparr>h_dirs := insert out (h_dirs h)\<rparr>"
  obtain v1 where v1: "ex_vol (vol_lookup path) (v, ?h) = (Ok (Some e), (v1, ?h))" "same_volume v v1"
    using ex_vol_run [OF vol_lookup_transparent [OF assms(1)] same_volume_refl [OF assms(1)] e(1), of ?h] by blast
  obtain v2 where "extract_file e target (v1, ?h) = (Ok (), (v2, ?h\<lparr>h_files := (h_files ?h)(target \<mapsto> data)\<rparr>))"
    using extract_file_run [OF assms(1) v1(2) e(3), of target ?h] assms(6,7) by auto
  then show ?thesis
    using v1(1) e(2) assms(3,4)
    by (simp add: extract_run_def bindM_def host_mkdir_def assms(5) [symmetric])
qed

text \<open>
  A path that is not found is extracted as if it were the root directory: the lookup answers \<open>None\<close> for both.
\<close>

lemma extract_missing_is_root:
  assumes "vol_lookup path v = (Ok None, v')" "host_mkdir out h = (Ok (), h')"
  shows "extract_run fuel path out (v, h) =
    bindM (extract_dir fuel ANODE_ROOTDIR out [SLASH])
      (\<lambda>deep. retM (case deep of Some p \<Rightarrow> Bailed (TooDeep p) | None \<Rightarrow> OutDone)) (v', h')"
  using assms by (simp add: extract_run_def bindM_def ex_vol_def zoomM_def)

text \<open>
  Extraction does not confine itself to the output directory: an entry whose stored name starts with a slash is
  written to that absolute path of the host, whatever output directory was given.
\<close>

lemma extract_escapes:
  assumes "vol_wf v" "fst (list_dir_by_anode a v) = Ok [e]" "is_file e" "\<not> is_dir e" "de_name e = SLASH # rest"
    and "fst (read_file_data (de_anode e) (file_size e) v) = Ok data"
    and "de_name e \<notin> h_refused h" "de_name e \<notin> h_dirs h" "slashes p \<le> MAX_DIR_DEPTH"
  shows "\<exists>v'. extract_dir (Suc fuel) a out p (v, h) =
    (Ok None, (v', h\<lparr>h_files := (h_files h)(SLASH # rest \<mapsto> data)\<rparr>))"
proof -
  note list = list_dir_by_anode_transparent [OF assms(1), of a]
  obtain v1 where v1: "ex_vol (list_dir_by_anode a) (v, h) = (Ok [e], (v1, h))" "same_volume v v1"
    using ex_vol_run [OF list same_volume_refl [OF assms(1)] _, of "[e]" h] assms(2)
    unfolding vol_value [OF assms(1) list] by blast
  have "file_data_ref v (de_anode e) (file_size e) = Ok data"
    using assms(6) vol_value [OF assms(1) read_file_data_transparent [OF assms(1)]] by simp
  from extract_file_run [OF assms(1) v1(2) this assms(7,8)] obtain v2 where
    "extract_file e (de_name e) (v1, h) = (Ok (), (v2, h\<lparr>h_files := (h_files h)(de_name e \<mapsto> data)\<rparr>))" by blast
  moreover have "path_join out (de_name e) = de_name e" by (simp add: path_join_def assms(5))
  ultimately show ?thesis
    using v1(1) assms(3,4,9) by (simp add: bindM_def Let_def) (simp add: assms(5))
qed

text \<open>A volume with one file of 30 bytes, whose name is a given character followed by an x; its data is the directory block.\<close>

definition file_entry :: "u8 \<Rightarrow> bytes" where
  "file_entry c = [22, 253, 0, 0, 0, 5, 0, 0, 0, 30, 0, 0, 0, 0, 0, 0, 0, 2, c, 120, 0, 0]"

definition file_dirent :: "u8 \<Rightarrow> dir_entry" where
  "file_dirent c = \<lparr>de_entry_size = 22, de_entry_type = ST_FILE, de_anode = 5, de_fsize = 30, de_creation_day = 0,
     de_creation_minute = 0, de_creation_tick = 0, de_protection = 0, de_name = [unat c, 120], de_comment = [],
     de_extra = ExtraFields_default\<rparr>"

definition file_bytes :: "u8 \<Rightarrow> bytes" where
  "file_bytes c = take 30 (root_blocks (file_entry c) 3)"

lemma file_block:
  "root_blocks (file_entry c) 3 ! 20 = 22" "root_blocks (file_entry c) 3 ! 42 = 0"
  "bslice (root_blocks (file_entry c) 3) 20 22 = file_entry c"
  "length (file_entry c) = 22" "be16 (root_blocks (file_entry c) 3) 0 = Ok DBLKID"
  by (simp_all add: root_blocks_def file_entry_def bytes_simps)

lemma file_parse:
  "DirEntry_parse (root_blocks (file_entry c) 3) 20 = Ok (Some (file_dirent c, 42))"
  "DirEntry_parse (root_blocks (file_entry c) 3) 42 = Ok None"
  by (simp_all add: DirEntry_parse_def idx_def file_block sliceO_def be32_def be16_def Let_def
      parse_extrafields_def extra32_def extra16_def)
    (simp add: file_entry_def u32_from_be_def u16_from_be_def bslice_def latin1_to_string_def
      file_dirent_def ExtraFields_default_def rs_def ST_FILE_def)

lemma file_dirblock: "dirblock_entries (root_blocks (file_entry c) 3) = [file_dirent c]"
  by (simp add: dirblock_entries_def file_block parse_dirblock_entries_def DIR_BLOCK_HEADER_SIZE_def
      parse_entries_from.simps [of _ 20] parse_entries_from.simps [of _ 42] file_parse)

lemma file_listed:
  "dir_entries_ref (v_anodes (root_volume (file_entry c))) (v_dev (root_volume (file_entry c)))
     (rb_reserved_blksize (v_rootblock (root_volume (file_entry c)))) 5 = Ok [file_dirent c]"
  by (rule root_entries [OF _ file_dirblock]) (simp add: file_block)

lemma file_kind_facts: "is_file (file_dirent c)" "\<not> is_dir (file_dirent c)" "file_size (file_dirent c) = 30"
  "de_anode (file_dirent c) = 5" "de_name (file_dirent c) = [unat c, 120]"
  by (simp_all add: file_dirent_def is_file_def is_dir_def file_size_def join_size_def ExtraFields_default_def st_defs)

lemma file_content: "file_data_ref (root_volume (file_entry c)) 5 30 = Ok (file_bytes c)"
proof -
  have dev: "block_size (v_dev (root_volume (file_entry c))) = 128"
    by (simp add: root_volume_def sample_dir_device_def create_def block_size_def)
  have "dev_reserved (v_dev (root_volume (file_entry c))) 3 128 = Ok (root_blocks (file_entry c) 3)"
    by (rule root_read) (simp_all add: file_block)
  then have "read_block (v_dev (root_volume (file_entry c))) 3 (replicate 128 0) = Ok (root_blocks (file_entry c) 3)"
    by (simp add: dev_reserved_def divO_def dev read_block_def)
  then show ?thesis
    by (simp add: file_data_ref_def root_chain file_block dev sliceO_def bslice_def file_bytes_def)
qed

lemma extract_escapes_witness:
  "\<exists>v'. extract_dir 1 5 (rs ''out'') (rs ''/'') (root_volume (file_entry 47), two_parts_host) =
    (Ok None, (v', two_parts_host\<lparr>h_files := [rs ''d'' \<mapsto> two_parts, rs ''/x'' \<mapsto> file_bytes 47]\<rparr>))"
proof -
  let ?v = "root_volume (file_entry 47)"
  have "fst (list_dir_by_anode 5 ?v) = Ok [file_dirent 47]"
    using vol_value [OF root_volume_wf list_dir_by_anode_transparent [OF root_volume_wf]] file_listed by simp
  moreover have "de_name (file_dirent 47) = SLASH # [120]" by (simp add: file_kind_facts SLASH_def)
  moreover have "fst (read_file_data (de_anode (file_dirent 47)) (file_size (file_dirent 47)) ?v) = Ok (file_bytes 47)"
    using vol_value [OF root_volume_wf read_file_data_transparent [OF root_volume_wf]] file_content
    by (simp add: file_kind_facts)
  ultimately show ?thesis
    using extract_escapes [OF root_volume_wf _ file_kind_facts(1,2), where h = two_parts_host and p = "rs ''/''"
        and fuel = 0 and out = "rs ''out''"]
    by (simp add: two_parts_host_def slashes_def rs_def SLASH_def MAX_DIR_DEPTH_def)
qed

theorem extract_file_as_cat_witness:
  "\<exists>v'. extract_run 0 (rs ''/xx'') (rs ''out'') (root_volume (file_entry 120), two_parts_host) =
    (Ok OutDone, (v', two_parts_host\<lparr>h_files := [rs ''d'' \<mapsto> two_parts, rs ''out/xx'' \<mapsto> file_bytes 120],
       h_dirs := {rs ''out''}\<rparr>))"
proof -
  let ?v = "root_volume (file_entry 120)"
  have "path_parts (rs ''/xx'') = [[120, 120]]" by (simp add: path_parts_def rs_def SLASH_def)
  then have "fst (read_file (rs ''/xx'') ?v) = Ok (file_bytes 120)"
    unfolding vol_value [OF root_volume_wf read_file_transparent [OF root_volume_wf]]
    by (simp add: walk_entry_def lookup_ref_def ANODE_ROOTDIR_def file_listed find_entry_def file_kind_facts
        name_eq_ci_def file_content)
  then have "fst (cat_run (rs ''/xx'') ?v) = Ok (OutBytes (file_bytes 120))"
    by (auto simp: cat_run_def bindM_def split: prod.splits outcome.splits)
  note cat = extract_file_as_cat [OF root_volume_wf this, where h = two_parts_host and out = "rs ''out''"
      and target = "rs ''out/xx''" and fuel = 0]
  have "rs ''out/xx'' = path_join (rs ''out'') (last (split_on SLASH (rs ''/xx'')))"
    by (simp add: path_join_def rs_def SLASH_def)
  moreover have "rs ''out'' \<notin> h_refused two_parts_host" "h_files two_parts_host (rs ''out'') = None"
    "rs ''out/xx'' \<notin> h_refused two_parts_host" "rs ''out/xx'' \<notin> insert (rs ''out'') (h_dirs two_parts_host)"
    by (simp_all add: two_parts_host_def rs_def)
  ultimately show ?thesis using cat by (simp add: two_parts_host_def)
qed

end
