(* ===== verification/Spec2Isabelle.thy ===== *)
theory Spec2Isabelle
  imports Util Device Rootblock Cache_Lru Anodes Bitmap Dir Rdb Volume Format Format_Open Writer_Bitmap Writer_Dir
    Writer_Data Writer_Commit Check Fuse_Server Cli_Run
begin

text \<open>
  A verification development of \<^verbatim>\<open>pfs3\<close>, a reader, writer, formatter, checker and FUSE server for disk
  images of the Amiga file system PFS3.

  \<^bold>\<open>The program.\<close>  The library \<^verbatim>\<open>crates/libpfs3\<close> reads and writes an image through a block device
  (\<^verbatim>\<open>io.rs\<close>).  A volume starts with a rootblock (\<^verbatim>\<open>ondisk/rootblock.rs\<close>) that gives the geometry of the
  reserved area; all metadata lives in reserved blocks, which are read through an LRU cache
  (\<^verbatim>\<open>cache.rs\<close>).  Files and directories are chains of extents, the anodes, found through index blocks
  (\<^verbatim>\<open>anode.rs\<close>); directories are chains of blocks of packed entries (\<^verbatim>\<open>ondisk/direntry.rs\<close>, \<^verbatim>\<open>dir.rs\<close>);
  free data blocks are a bitmap (\<^verbatim>\<open>bitmap.rs\<close>).  \<^verbatim>\<open>volume.rs\<close> puts the readers together, \<^verbatim>\<open>rdb.rs\<close> finds
  partitions, \<^verbatim>\<open>format.rs\<close> creates a volume and \<^verbatim>\<open>writer.rs\<close> changes one.  The writer collects changed
  metadata blocks and writes them in a commit that ends with the rootblock.  \<^verbatim>\<open>src/cmd/check.rs\<close> walks
  the tree of a volume, compares it with the bitmap and repairs counters and broken entries;
  \<^verbatim>\<open>crates/pfs3-fuse\<close> serves a volume to the kernel; \<^verbatim>\<open>src/main.rs\<close> and \<^verbatim>\<open>src/cmd\<close> are the command line tool.

  \<^bold>\<open>Theories and sources.\<close>
  \<^item> \<open>Prelude\<close>: machine integers, strings, results that may be an error or a panic, computations over a
    state with their preservation, transparency and termination rules, byte buffers, big-endian fields
    (\<^verbatim>\<open>error.rs\<close>, \<^verbatim>\<open>put_u32\<close>, \<^verbatim>\<open>put_u16\<close>).
  \<^item> \<open>Util\<close> (\<^verbatim>\<open>util.rs\<close>), \<open>Device\<close> (\<^verbatim>\<open>io.rs\<close> and \<^verbatim>\<open>write_reserved_blocks\<close>), \<open>Ondisk\<close>, \<open>Rootblock\<close>, \<open>Direntry\<close>
    (\<^verbatim>\<open>ondisk/*.rs\<close>, with the writer's \<^verbatim>\<open>build_dir_entry\<close>): data and parsers.
  \<^item> \<open>Cache\<close>, \<open>Anodes\<close>, \<open>Bitmap\<close>, \<open>Dir\<close>, \<open>Rdb\<close>, \<open>Volume\<close>: the readers of the files of these names;
    \<open>Cache_Lru\<close>: the replacement policy of the cache.
  \<^item> \<open>Alloc\<close>: the interface of an allocator on a bitmap; \<open>Format\<close>: \<^verbatim>\<open>format.rs\<close>, with
    the round trip of its rootblock and the reading of what it writes for large volumes in \<open>Format_Open\<close>.
  \<^item> \<open>Writer_State\<close> (state, pending writes, bitmaps, anodes, commit) and \<open>Writer\<close> (directory entries,
    deleted files, all public operations): \<^verbatim>\<open>writer.rs\<close>; \<open>Writer_Bitmap\<close>, \<open>Writer_Dir\<close>,
    \<open>Writer_Data\<close> and \<open>Writer_Commit\<close>: properties of its allocator, its directory blocks, the storing of
    file data and the commit.
  \<^item> \<open>Check\<close>: \<^verbatim>\<open>src/cmd/check.rs\<close>.
  \<^item> \<open>Fuse_Types\<close> (\<^verbatim>\<open>types.rs\<close>), \<open>Fuse\<close> (all handlers of \<^verbatim>\<open>main.rs\<close>, the requests as data, the states
    the server reaches as an inductive relation) and \<open>Fuse_Server\<close> (properties).
  \<^item> \<open>Cli\<close> (\<^verbatim>\<open>src/main.rs\<close>, \<^verbatim>\<open>src/cmd/*.rs\<close>: every subcommand as a computation on a map of host files) and
    \<open>Cli_Run\<close> (properties).

  A struct is a record with prefixed fields (\<open>v_\<close> volume, \<open>w_\<close> writer, \<open>rb_\<close> rootblock, \<open>fs_\<close> server
  state), a method with \<^verbatim>\<open>&mut self\<close> is a function from the state to a result and a new state, and an
  error keeps what was changed before it.  Functions keep their names; loops and branches that needed a
  name of their own are mapped to the lines they stand for.

  \<^bold>\<open>Interfaces.\<close>  The locales state what one component relies on in another and are interpreted on
  the model: a cached block read that cannot be told from a device read, used by the anode,
  bitmap and directory readers; an allocator on a bitmap, used by formatter and writer.

  \<^bold>\<open>What is shown.\<close>
  \<^item> \<^emph>\<open>Readers.\<close>  The cache is not observable and keeps the most recently used blocks;
    partition detection lists what the partition table describes; following an anode
    chain always ends and returns the stored chain; listing, lookup, file contents and the free count
    equal reference definitions on the device; a byte range is that range of the whole file; no
    operation on an opened volume panics, whatever the bytes.
  \<^item> \<^emph>\<open>Writer.\<close>  Pending writes are an overlay of the device that the commit makes durable; metadata
    operations never touch the device before it; allocation returns distinct free blocks and clears
    exactly their bits, freeing undoes it; entries built by the writer are read back by the parser,
    appending and cutting an entry change the listing by exactly that entry; deleted-file records are read back;
    storing file data uses only free blocks, reads back and leaves all other blocks alone; after a commit the free
    counters and the reserved bitmap are found on the device as they were in memory.
  \<^item> \<^emph>\<open>Formatter.\<close>  Reserved blocks are handed out once, the bitmap marks exactly the free ones, the size
    of the reserved area stays within its limits, the rootblock is parsed back as it was made.
  \<^item> \<^emph>\<open>Check.\<close>  Blocks with two owners are always reported; the scan ends on trees with named directories.
  \<^item> \<^emph>\<open>FUSE server.\<close>  Over every sequence of requests a read-only mount leaves the image as it is and
    the inode table is consistent; \<^verbatim>\<open>read\<close>, \<^verbatim>\<open>write\<close>, \<^verbatim>\<open>release\<close> and paged \<^verbatim>\<open>readdir\<close> do what they promise.
  \<^item> \<^emph>\<open>Command line.\<close>  The reading commands leave the image and all files alone; without a selection
    no command on a single volume touches an image with several partitions; extraction ends and stores what \<^verbatim>\<open>cat\<close> prints.
  \<^item> \<^emph>\<open>Defects.\<close>  Statements about what the code gets wrong are lemmas too: super-mode volumes whose
    root directory cannot be listed, panics of \<^verbatim>\<open>Writer::open\<close> and \<^verbatim>\<open>set_volume_name\<close>, names outside ASCII, an endless scan,
    lost truncation, formatting of a new image, extraction outside the output directory and of missing paths.

  \<^bold>\<open>Integers, panics, fuel.\<close>  Arithmetic is that of a release build: \<^verbatim>\<open>u8\<close> to \<^verbatim>\<open>u64\<close> wrap; an index or
    slice out of range and a division by zero is \<open>Panic\<close>.  \<^verbatim>\<open>usize\<close>, block numbers and byte offsets are
    natural numbers where they are only compared and added below \<open>2 ^ 64\<close>.  \<open>Panic\<close> is also the value of a
    loop whose fuel runs out, so it means that the call does not return.  Fuel: the count of free blocks
    gets one more than the disk size, and each round advances by at least one; the formatter's doubling
    loop runs over the 64 exponents of the integer; the scan of the checker and the extraction get the
    nesting depth, for which a theorem on each gives the bound.  Other loops are structural or have a measure.

  \<^bold>\<open>Not modelled.\<close>  The operating system: a file is its bytes, a failing write is the write credit of the
  device, the clock and the user are parameters.  The FUSE library: what its reply buffer accepts is a
  parameter of \<open>readdir\<close>, the open flags are booleans.  Memory exhaustion.  The texts that are
  printed and the argument parser of the command line; an extraction that overwrites the image it reads from;
  mount options; the fixture generator, test and fuzz programs.
\<close>

end
